(* ===== verification/Prelude.thy ===== *)
theory Prelude
  imports Main "HOL-Library.Sublist"
begin

text \<open>
  What every component of the development shares: the named collections of simplification
  rules, and generic lemmas on lists and maps that carry the component proofs.

  \<^item> \<open>gosimps\<close> collects the characteristic equations of the Go library functions of theory
    \<open>GoLib\<close>;
  \<^item> \<open>callsimps\<close> collects the unfolding rules of the API wrappers of theory \<open>Kube\<close>;
  \<^item> \<open>framesimps\<close> collects facts of the form "this operation leaves that field alone".
\<close>

named_theorems gosimps \<open>characteristic equations of the modelled Go library functions\<close>
named_theorems callsimps \<open>unfolding rules of the wrappers that call the API servers\<close>
named_theorems framesimps \<open>fields that an operation does not change\<close>

section \<open>Lists\<close>

text \<open>The first index loop of the sources, \<^verbatim>\<open>for i := range xs { if xs[i] == ... }\<close>, as a
  lookup of the first element with a property.\<close>

lemma find_append:
  "find P (xs @ ys) = (case find P xs of None \<Rightarrow> find P ys | Some x \<Rightarrow> Some x)"
  by (induction xs) auto

lemma find_SomeE:
  assumes "find P xs = Some x"
  shows "x \<in> set xs" and "P x"
  using assms by (auto simp: find_Some_iff)

lemma find_None_all: "find P xs = None \<longleftrightarrow> (\<forall>x\<in>set xs. \<not> P x)"
  by (auto simp: find_None_iff)

lemma takeWhile_all_append:
  assumes "\<forall>x\<in>set xs. P x"
  shows "takeWhile P (xs @ ys) = xs @ takeWhile P ys"
    and "dropWhile P (xs @ ys) = dropWhile P ys"
  using assms by (induction xs) auto

lemma takeWhile_all_stop:
  assumes "\<forall>x\<in>set xs. P x" and "\<not> P y"
  shows "takeWhile P (xs @ y # ys) = xs" and "dropWhile P (xs @ y # ys) = y # ys"
  using assms by (simp_all add: takeWhile_all_append)

lemma filter_id_iff: "filter P xs = xs \<longleftrightarrow> (\<forall>x\<in>set xs. P x)"
  by (simp add: filter_id_conv)

lemma sorted_wrt_map_mono:
  assumes "sorted_wrt R xs" and "\<And>x y. R x y \<Longrightarrow> S (f x) (f y)"
  shows "sorted_wrt S (map f xs)"
  using assms by (auto simp: sorted_wrt_map intro: sorted_wrt_mono_rel)

lemma subseq_sorted_wrt: "subseq xs ys \<Longrightarrow> sorted_wrt R ys \<Longrightarrow> sorted_wrt R xs"
  by (induction rule: list_emb.induct) (auto dest: list_emb_set)

section \<open>Association lists of updates\<close>

text \<open>A Go map literal ranged over and copied into another map.\<close>

lemma map_add_overwrites:
  "k \<in> dom n \<Longrightarrow> (m ++ n) k = n k"
  by (auto simp: map_add_def)

lemma map_add_keeps:
  "k \<notin> dom n \<Longrightarrow> (m ++ n) k = m k"
  by (auto simp: map_add_def dom_def split: option.splits)

end
