(* ===== verification/GoLib.thy ===== *)
theory GoLib
  imports Prelude
begin

text \<open>
  The functions of the Go language and its standard library that the controllers use:
  \<^verbatim>\<open>strings\<close>, \<^verbatim>\<open>strconv\<close>, \<^verbatim>\<open>fmt\<close>, \<^verbatim>\<open>slices.SortStableFunc\<close>, \<^verbatim>\<open>regexp\<close> and \<^verbatim>\<open>time\<close>.
  A Go string is a byte string and so is \<^typ>\<open>string\<close>; case folding and the trimming of
  space are modelled on the ASCII bytes, which are the ones the policy framework writes.
  Instants are nanoseconds since the Unix epoch (\<^typ>\<open>int\<close>), so comparing two of them is
  comparing two integers.
\<close>

section \<open>Package strings\<close>

definition HasPrefix :: "string \<Rightarrow> string \<Rightarrow> bool" where
  "HasPrefix s pre \<longleftrightarrow> take (length pre) s = pre"

definition HasSuffix :: "string \<Rightarrow> string \<Rightarrow> bool" where
  "HasSuffix s suf \<longleftrightarrow> HasPrefix (rev s) (rev suf)"

definition TrimPrefix :: "string \<Rightarrow> string \<Rightarrow> string" where
  "TrimPrefix s pre = (if HasPrefix s pre then drop (length pre) s else s)"

fun Contains :: "string \<Rightarrow> string \<Rightarrow> bool" where
  "Contains [] sub \<longleftrightarrow> sub = []"
| "Contains (c # s) sub \<longleftrightarrow> HasPrefix (c # s) sub \<or> Contains s sub"

definition is_space :: "char \<Rightarrow> bool" where
  "is_space c \<longleftrightarrow> of_char c \<in> {9, 10, 11, 12, 13, 32 :: nat}"

definition TrimSpace :: "string \<Rightarrow> string" where
  "TrimSpace s = rev (dropWhile is_space (rev (dropWhile is_space s)))"

definition lower_char :: "char \<Rightarrow> char" where
  "lower_char c =
     (let n = of_char c :: nat in if 65 \<le> n \<and> n \<le> 90 then char_of (n + 32) else c)"

definition ToLower :: "string \<Rightarrow> string" where
  "ToLower s = map lower_char s"

definition EqualFold :: "string \<Rightarrow> string \<Rightarrow> bool" where
  "EqualFold s t \<longleftrightarrow> ToLower s = ToLower t"

text \<open>\<^verbatim>\<open>strings.Split(s, sep)\<close> for a one-byte separator: never empty.\<close>

fun Split :: "string \<Rightarrow> char \<Rightarrow> string list" where
  "Split [] sep = [[]]"
| "Split (c # s) sep =
     (if c = sep then [] # Split s sep
      else (case Split s sep of [] \<Rightarrow> [[c]] | p # ps \<Rightarrow> (c # p) # ps))"

fun Join :: "string list \<Rightarrow> string \<Rightarrow> string" where
  "Join [] sep = []"
| "Join [s] sep = s"
| "Join (s # t # ts) sep = s @ sep @ Join (t # ts) sep"

lemma HasPrefix_iff: "HasPrefix s pre \<longleftrightarrow> (\<exists>t. s = pre @ t)"
  unfolding HasPrefix_def by (metis append_eq_conv_conj append_take_drop_id)

lemma HasPrefix_append [simp, gosimps]: "HasPrefix (pre @ t) pre"
  by (simp add: HasPrefix_def)

lemma TrimPrefix_append [simp, gosimps]: "TrimPrefix (pre @ t) pre = t"
  by (simp add: TrimPrefix_def)

lemma Contains_iff: "Contains s sub \<longleftrightarrow> (\<exists>u v. s = u @ sub @ v)"
proof (induction s)
  case Nil
  then show ?case by auto
next
  case (Cons c s)
  have "(\<exists>u v. c # s = u @ sub @ v) \<longleftrightarrow> (\<exists>v. c # s = sub @ v) \<or> (\<exists>u v. s = u @ sub @ v)"
    by (metis Cons_eq_append_conv append_Cons append_self_conv2)
  with Cons.IH show ?case by (simp add: HasPrefix_iff)
qed

lemma Split_nonempty [simp]: "Split s sep \<noteq> []"
  by (cases s) (auto split: list.splits)

lemma Split_no_sep: "sep \<notin> set s \<Longrightarrow> Split s sep = [s]"
  by (induction s) auto

text \<open>The last part of a split is what follows the last separator, whatever precedes it.\<close>

lemma last_Split_append:
  assumes "sep \<notin> set t"
  shows "last (Split (s @ sep # t) sep) = t"
proof (induction s)
  case Nil
  with assms show ?case by (simp add: Split_no_sep)
next
  case (Cons c s)
  have "Split (s @ sep # t) sep \<noteq> [[]] \<or> t = []" using Cons.IH by auto
  obtain p ps where ps: "Split (s @ sep # t) sep = p # ps"
    by (meson Split_nonempty list.exhaust)
  have "ps \<noteq> []"
  proof -
    have "1 < length (Split (s @ sep # t) sep)"
      by (induction s) (auto split: list.splits simp: Suc_lessI)
    with ps show ?thesis by auto
  qed
  with Cons.IH ps show ?case by auto
qed

lemma TrimSpace_id:
  assumes "s \<noteq> []" and "\<not> is_space (hd s)" and "\<not> is_space (last s)"
  shows "TrimSpace s = s"
proof -
  have "dropWhile is_space s = s" using assms by (cases s) auto
  moreover have "dropWhile is_space (rev s) = rev s"
    using assms by (cases s rule: rev_cases) auto
  ultimately show ?thesis by (simp add: TrimSpace_def)
qed

text \<open>Trimming keeps a prefix that does not start with a space, and adds nothing after it.\<close>

lemma dropWhile_rev_append:
  "\<exists>k. rev (dropWhile P (rev s)) = take k s"
  by (metis append_eq_conv_conj rev_append rev_swap takeWhile_dropWhile_id)

lemma TrimSpace_prefix:
  assumes "\<not> is_space (hd (p @ s))" and "p \<noteq> []" and "\<not> is_space (last p)"
  shows "\<exists>t. TrimSpace (p @ s) = p @ t"
proof -
  have *: "dropWhile is_space (p @ s) = p @ s" using assms by (cases p) auto
  show ?thesis
  proof (cases "\<forall>c\<in>set s. is_space c")
    case True
    obtain q c where p: "p = q @ [c]" using assms(2) by (cases p rule: rev_cases) auto
    have "dropWhile is_space (rev (p @ s)) = rev p"
      using True assms(3) p by (simp add: takeWhile_all_stop takeWhile_all_append)
    with * show ?thesis by (simp add: TrimSpace_def)
  next
    case False
    then obtain c where "c \<in> set (rev s)" and "\<not> is_space c" by auto
    then have "dropWhile is_space (rev s @ rev p) = dropWhile is_space (rev s) @ rev p"
      by (rule dropWhile_append1)
    with * show ?thesis by (simp add: TrimSpace_def)
  qed
qed

section \<open>Packages fmt and strconv\<close>

text \<open>The verbs \<^verbatim>\<open>%x\<close> and \<^verbatim>\<open>%d\<close> of \<^verbatim>\<open>fmt\<close>: the sign, then the digits of the absolute value.\<close>

definition digit_char :: "int \<Rightarrow> char" where
  "digit_char d = char_of (if d < 10 then 48 + d else 87 + d)"

function digits_of :: "int \<Rightarrow> int \<Rightarrow> string" where
  "digits_of b n =
     (if b < 2 \<or> n < b then [digit_char n] else digits_of b (n div b) @ [digit_char (n mod b)])"
  by pat_completeness auto
termination
  by (relation "measure (\<lambda>(b, n). nat n)") (auto simp: int_div_less_self)

declare digits_of.simps [simp del]

definition fmt_int :: "int \<Rightarrow> int \<Rightarrow> string" where
  "fmt_int b i = (if i < 0 then ''-'' else []) @ digits_of b \<bar>i\<bar>"

abbreviation fmt_x :: "int \<Rightarrow> string" where
  "fmt_x \<equiv> fmt_int 16"

abbreviation fmt_d :: "int \<Rightarrow> string" where
  "fmt_d \<equiv> fmt_int 10"

definition hex_value :: "char \<Rightarrow> int option" where
  "hex_value c =
     (let n = of_char c :: int in
      if 48 \<le> n \<and> n \<le> 57 then Some (n - 48)
      else if 97 \<le> n \<and> n \<le> 102 then Some (n - 87)
      else if 65 \<le> n \<and> n \<le> 70 then Some (n - 55)
      else None)"

fun hex_digits :: "int \<Rightarrow> string \<Rightarrow> int option" where
  "hex_digits acc [] = Some acc"
| "hex_digits acc (c # s) =
     (case hex_value c of None \<Rightarrow> None | Some d \<Rightarrow> hex_digits (16 * acc + d) s)"

text \<open>\<^verbatim>\<open>strconv.ParseInt(s, 16, 64)\<close>: an optional sign, at least one digit, and a value in
  the range of \<^verbatim>\<open>int64\<close>; every other string is an error.\<close>

definition ParseUint16 :: "string \<Rightarrow> int option" where
  "ParseUint16 s = (if s = [] then None else hex_digits 0 s)"

definition in_int64 :: "int \<Rightarrow> bool" where
  "in_int64 i \<longleftrightarrow> - 9223372036854775808 \<le> i \<and> i < 9223372036854775808"

definition ParseInt16 :: "string \<Rightarrow> int option" where
  "ParseInt16 s =
     (let neg = HasPrefix s ''-'';
          ds = (if neg \<or> HasPrefix s ''+'' then tl s else s)
      in case ParseUint16 ds of
           None \<Rightarrow> None
         | Some n \<Rightarrow> (let i = (if neg then - n else n)
                    in if in_int64 i then Some i else None))"

lemma hex_value_digit_char: "0 \<le> d \<Longrightarrow> d < 16 \<Longrightarrow> hex_value (digit_char d) = Some d"
  by (auto simp: hex_value_def digit_char_def Let_def)

lemma hex_digits_append:
  "hex_digits acc (s @ t) = Option.bind (hex_digits acc s) (\<lambda>a. hex_digits a t)"
  by (induction s arbitrary: acc) (auto split: option.splits)

lemma hex_digits_digits_of: "0 \<le> n \<Longrightarrow> hex_digits 0 (digits_of 16 n) = Some n"
proof (induction "nat n" arbitrary: n rule: less_induct)
  case less
  show ?case
  proof (cases "n < 16")
    case True
    with less.prems show ?thesis by (simp add: digits_of.simps [of 16 n] hex_value_digit_char)
  next
    case False
    then have "hex_digits 0 (digits_of 16 (n div 16)) = Some (n div 16)"
      by (intro less.hyps) simp_all
    with False show ?thesis
      by (simp add: digits_of.simps [of 16 n] hex_digits_append hex_value_digit_char)
  qed
qed

lemma digits_of_nonempty [simp]: "digits_of b n \<noteq> []"
  by (subst digits_of.simps) simp

lemma digit_char_range: "0 \<le> d \<Longrightarrow> d < 16 \<Longrightarrow> 48 \<le> (of_char (digit_char d) :: int)"
  by (simp add: digit_char_def)

lemma digits_of_chars: "0 \<le> n \<Longrightarrow> c \<in> set (digits_of 16 n) \<Longrightarrow> 48 \<le> (of_char c :: int)"
proof (induction "nat n" arbitrary: n rule: less_induct)
  case less
  show ?case
  proof (cases "n < 16")
    case True
    with less.prems show ?thesis
      by (simp add: digits_of.simps [of 16 n] digit_char_range)
  next
    case False
    with less.prems have "c \<in> set (digits_of 16 (n div 16)) \<or> c = digit_char (n mod 16)"
      by (auto simp: digits_of.simps [of 16 n])
    with less.hyps [of "n div 16"] False show ?thesis by (auto simp: digit_char_range)
  qed
qed

text \<open>A number printed in base 16 is read back as itself.\<close>

lemma ParseInt16_fmt_x: "in_int64 i \<Longrightarrow> ParseInt16 (fmt_x i) = Some i"
proof -
  assume i: "in_int64 i"
  define ds where "ds = digits_of 16 \<bar>i\<bar>"
  obtain c s where ds: "ds = c # s" unfolding ds_def by (meson digits_of_nonempty list.exhaust)
  have "48 \<le> (of_char c :: int)"
    using digits_of_chars [of "\<bar>i\<bar>" c] ds by (simp flip: ds_def)
  then have c: "c \<noteq> CHR ''-''" "c \<noteq> CHR ''+''" by auto
  have p: "ParseUint16 ds = Some \<bar>i\<bar>"
    using hex_digits_digits_of by (simp add: ParseUint16_def ds_def)
  show ?thesis
  proof (cases "i < 0")
    case True
    then have "fmt_x i = CHR ''-'' # ds" by (simp add: fmt_int_def ds_def)
    with p i True show ?thesis by (simp add: ParseInt16_def HasPrefix_def)
  next
    case False
    then have "fmt_x i = c # s" using ds by (simp add: fmt_int_def ds_def)
    with p i c ds False show ?thesis by (simp add: ParseInt16_def HasPrefix_def)
  qed
qed

lemma dot_not_in_fmt_x: "CHR ''.'' \<notin> set (fmt_x i)"
  using digits_of_chars [of "\<bar>i\<bar>" "CHR ''.''"] by (auto simp: fmt_int_def)

section \<open>Package time\<close>

type_synonym time = int

text \<open>The zero value of \<^verbatim>\<open>time.Time\<close>: January 1, year 1, 00:00:00 UTC.\<close>

definition zero_time :: time where
  "zero_time = - 62135596800000000000"

definition Microsecond :: int where
  "Microsecond = 1000"

definition Second :: int where
  "Second = 1000000000"

section \<open>Package slices\<close>

text \<open>
  \<^verbatim>\<open>slices.SortStableFunc(xs, cmp)\<close> with a comparison that orders by an integer key,
  largest key first, equal keys in the order they had.
\<close>

definition SortStableDesc :: "('a \<Rightarrow> int) \<Rightarrow> 'a list \<Rightarrow> 'a list" where
  "SortStableDesc key xs = sort_key (\<lambda>x. - key x) xs"

lemma SortStableDesc_sorted:
  "sorted_wrt (\<lambda>x y. key y \<le> key x) (SortStableDesc key xs)"
proof -
  have "sorted (map (\<lambda>x. - key x) (SortStableDesc key xs))"
    unfolding SortStableDesc_def by (rule sorted_sort_key)
  then show ?thesis by (simp add: sorted_wrt_map)
qed

lemma set_SortStableDesc [simp]: "set (SortStableDesc key xs) = set xs"
  by (simp add: SortStableDesc_def)

lemma length_SortStableDesc [simp]: "length (SortStableDesc key xs) = length xs"
  by (simp add: SortStableDesc_def)

lemma SortStableDesc_Nil [simp]: "SortStableDesc key [] = []"
  by (simp add: SortStableDesc_def)

lemma SortStableDesc_eq_Nil [simp]: "SortStableDesc key xs = [] \<longleftrightarrow> xs = []"
  by (metis length_0_conv length_SortStableDesc)

section \<open>Package regexp\<close>

text \<open>
  Leftmost-first matching as a list of successes: a matcher maps a string to the matches of
  a prefix, each with the rest of the string, in the order in which a backtracking matcher
  prefers them. The first element of the list is the match that \<^verbatim>\<open>regexp\<close> reports.
\<close>

fun greedy :: "(char \<Rightarrow> bool) \<Rightarrow> string \<Rightarrow> (string \<times> string) list" where
  "greedy P [] = [([], [])]"
| "greedy P (c # s) =
     (if P c then map (\<lambda>(m, r). (c # m, r)) (greedy P s) else []) @ [([], c # s)]"

definition greedy1 :: "(char \<Rightarrow> bool) \<Rightarrow> string \<Rightarrow> (string \<times> string) list" where
  "greedy1 P s = filter (\<lambda>(m, r). m \<noteq> []) (greedy P s)"

definition literal_fold :: "string \<Rightarrow> string \<Rightarrow> string list" where
  "literal_fold lit s =
     (if EqualFold (take (length lit) s) lit then [drop (length lit) s] else [])"

text \<open>The class \<^verbatim>\<open>\s\<close> and the class \<^verbatim>\<open>.\<close> of the syntax.\<close>

definition rx_space :: "char \<Rightarrow> bool" where
  "rx_space c \<longleftrightarrow> of_char c \<in> {9, 10, 12, 13, 32 :: nat}"

definition rx_any :: "char \<Rightarrow> bool" where
  "rx_any c \<longleftrightarrow> c \<noteq> CHR 0x0A"

lemma greedy_first:
  "\<exists>ms. greedy P s = (takeWhile P s, dropWhile P s) # ms"
  by (induction s) auto

lemma greedy_append: "(m, r) \<in> set (greedy P s) \<Longrightarrow> s = m @ r"
  by (induction s arbitrary: m) (auto split: if_splits)

lemma greedy1_first:
  assumes "takeWhile P s \<noteq> []"
  shows "\<exists>ms. greedy1 P s = (takeWhile P s, dropWhile P s) # ms"
  using greedy_first [of P s] assms by (auto simp: greedy1_def)

lemma greedy1_append: "(m, r) \<in> set (greedy1 P s) \<Longrightarrow> s = m @ r"
  by (auto simp: greedy1_def dest: greedy_append)

end
