(* ===== verification/Kube.thy ===== *)
theory Kube
  imports GoLib
begin

text \<open>
  The Kubernetes side of the program, as far as the controllers see it: the data they read
  and write (policies, events, unstructured objects, JSON values), the errors their clients
  return, and the clients themselves.

  The API servers, the caches and the watch library are not part of the repository. They are
  parameters: a record of operations on an arbitrary type \<open>'c\<close> of cluster states, every one
  of which may change the cluster (a read too, because other actors run in between). The
  controllers thread a \<open>world\<close> through their calls: the cluster state, and the log of every
  outward action they have attempted, in order.
\<close>

section \<open>Names and identifiers\<close>

record namespaced_name =
  nn_namespace :: string
  nn_name :: string

abbreviation nn :: "string \<Rightarrow> string \<Rightarrow> namespaced_name" where
  "nn ns name \<equiv> \<lparr>nn_namespace = ns, nn_name = name\<rparr>"

record gvk =
  g_group :: string
  g_version :: string
  g_kind :: string

record gvr =
  r_group :: string
  r_version :: string
  r_resource :: string

text \<open>\<^verbatim>\<open>depclient.ObjectIdentifier\<close>\<close>

record object_identifier =
  oi_group :: string
  oi_version :: string
  oi_kind :: string
  oi_namespace :: string
  oi_name :: string

text \<open>The constants of the policy API package that the controllers name.\<close>

definition APIGroup :: string where
  "APIGroup = ''policy.open-cluster-management.io''"

definition APIVersion :: string where
  "APIVersion = ''v1''"

definition PolicyKind :: string where
  "PolicyKind = ''Policy''"

definition ClusterNameLabel :: string where
  "ClusterNameLabel = APIGroup @ ''/cluster-name''"

definition ClusterNamespaceLabel :: string where
  "ClusterNamespaceLabel = APIGroup @ ''/cluster-namespace''"

definition Compliant :: string where
  "Compliant = ''Compliant''"

definition NonCompliant :: string where
  "NonCompliant = ''NonCompliant''"

definition Pending :: string where
  "Pending = ''Pending''"

lemmas compliance_defs = Compliant_def NonCompliant_def Pending_def

lemma compliance_distinct [simp]:
  "Compliant \<noteq> NonCompliant" "Compliant \<noteq> Pending" "NonCompliant \<noteq> Pending"
  "NonCompliant \<noteq> Compliant" "Pending \<noteq> Compliant" "Pending \<noteq> NonCompliant"
  "Compliant \<noteq> []" "NonCompliant \<noteq> []" "Pending \<noteq> []"
  "[] \<noteq> Compliant" "[] \<noteq> NonCompliant" "[] \<noteq> Pending"
  by (simp_all add: compliance_defs)

section \<open>Errors\<close>

text \<open>An error is classified by the tests the controllers apply to it
  (\<^verbatim>\<open>k8serrors.IsNotFound\<close>, \<^verbatim>\<open>errors.Is\<close> and so on) and carries its text. Wrapping with
  \<^verbatim>\<open>%w\<close> keeps the class.\<close>

datatype reason =
    NotFound | Conflict | Invalid | NoMatch | ServerTimeout | RequestTimeout | Canceled
  | MissingKind | NoVersionedResource | ResourceUnwatchable | InvalidInput | NotRegistered | OtherReason

datatype gerr = GErr (err_reason: reason) (err_msg: string)

definition IsNotFound :: "gerr \<Rightarrow> bool" where
  "IsNotFound e \<longleftrightarrow> err_reason e = NotFound"

definition IsConflict :: "gerr \<Rightarrow> bool" where
  "IsConflict e \<longleftrightarrow> err_reason e = Conflict"

definition IsInvalid :: "gerr \<Rightarrow> bool" where
  "IsInvalid e \<longleftrightarrow> err_reason e = Invalid"

definition IsNoMatchError :: "gerr \<Rightarrow> bool" where
  "IsNoMatchError e \<longleftrightarrow> err_reason e = NoMatch"

definition IsServerTimeout :: "gerr \<Rightarrow> bool" where
  "IsServerTimeout e \<longleftrightarrow> err_reason e = ServerTimeout"

definition IsTimeout :: "gerr \<Rightarrow> bool" where
  "IsTimeout e \<longleftrightarrow> err_reason e = RequestTimeout"

definition wrap_err :: "string \<Rightarrow> gerr \<Rightarrow> gerr" where
  "wrap_err text e = GErr (err_reason e) text"

text \<open>What a reconcile gives back to the controller runtime: \<^verbatim>\<open>(reconcile.Result{}, nil)\<close>,
  \<^verbatim>\<open>(reconcile.Result{RequeueAfter: d}, nil)\<close> with the delay in seconds, an error (which
  makes the runtime queue the request again), or a run-time panic.\<close>

datatype reconcile_result =
    Done
  | RequeueAfter nat
  | Failed gerr
  | Panicked

text \<open>What an inner function gives back when it can also dereference \<^verbatim>\<open>nil\<close>.\<close>

datatype 'a outcome =
    Ok 'a
  | Err gerr
  | Panic

section \<open>JSON values and unstructured objects\<close>

text \<open>What \<^verbatim>\<open>encoding/json\<close> stores in an \<^verbatim>\<open>interface{}\<close>; a fractional number is kept as its
  text. An object is the list of its members in the order of their keys, each key once, so
  that equality is \<^verbatim>\<open>reflect.DeepEqual\<close> and \<^verbatim>\<open>fmt\<close> prints the members in the order of the list.
  An absent and a \<^verbatim>\<open>nil\<close> map are the same empty list.\<close>

datatype json =
    JNull
  | JBool bool
  | JInt int
  | JFloat string
  | JStr string
  | JArr "json list"
  | JObj "(string \<times> json) list"

type_synonym jobj = "(string \<times> json) list"

text \<open>\<^verbatim>\<open>m[key]\<close> with the comma-ok form.\<close>

definition jget :: "jobj \<Rightarrow> string \<Rightarrow> json option" where
  "jget m k = map_of m k"

text \<open>\<^verbatim>\<open>fmt.Sprintf("%s", v)\<close> for a decoded value: a string is itself, a value of another kind is
  reported as a bad verb, and the elements of slices and maps are printed by the same verb.\<close>

fun fmt_s_elem :: "json \<Rightarrow> string" and fmt_s_members :: "jobj \<Rightarrow> string list" where
  "fmt_s_elem JNull = ''<nil>''"
| "fmt_s_elem (JBool b) = ''%!s(bool='' @ (if b then ''true'' else ''false'') @ '')''"
| "fmt_s_elem (JInt i) = ''%!s(int64='' @ fmt_d i @ '')''"
| "fmt_s_elem (JFloat t) = ''%!s(float64='' @ t @ '')''"
| "fmt_s_elem (JStr s) = s"
| "fmt_s_elem (JArr js) = ''['' @ Join (map fmt_s_elem js) '' '' @ '']''"
| "fmt_s_elem (JObj ms) = ''map['' @ Join (fmt_s_members ms) '' '' @ '']''"
| "fmt_s_members [] = []"
| "fmt_s_members ((k, v) # ms) = (k @ '':'' @ fmt_s_elem v) # fmt_s_members ms"

definition fmt_s :: "json option \<Rightarrow> string" where
  "fmt_s v = (case v of
      None \<Rightarrow> ''%!s(<nil>)''
    | Some JNull \<Rightarrow> ''%!s(<nil>)''
    | Some j \<Rightarrow> fmt_s_elem j)"

record owner_ref =
  or_apiVersion :: string
  or_kind :: string
  or_name :: string
  or_uid :: string
  or_controller :: "bool option"
  or_blockOwnerDeletion :: "bool option"

text \<open>\<^verbatim>\<open>unstructured.Unstructured\<close>: the metadata its accessors read and write, and the other
  top-level fields (\<^verbatim>\<open>spec\<close>, \<^verbatim>\<open>status\<close>, ...). The labels and annotations are association lists
  with each key once, because the code ranges over them.\<close>

record unstr =
  u_gvk :: gvk
  u_name :: string
  u_namespace :: string
  u_uid :: string
  u_resourceVersion :: string
  u_labels :: "(string \<times> string) list"
  u_annotations :: "(string \<times> string) list"
  u_owners :: "owner_ref list"
  u_content :: jobj

text \<open>Indexing a Go map of strings: a missing key reads as the empty string.\<close>

definition lookup_str :: "('k \<rightharpoonup> string) \<Rightarrow> 'k \<Rightarrow> string" where
  "lookup_str m k = (case m k of None \<Rightarrow> [] | Some v \<Rightarrow> v)"

section \<open>Policies\<close>

text \<open>\<^verbatim>\<open>policiesv1.ComplianceHistory\<close>, \<^verbatim>\<open>DetailsPerTemplate\<close> and \<^verbatim>\<open>PolicyStatus\<close>; the entries of
  \<^verbatim>\<open>Details\<close> are pointers, which can be \<^verbatim>\<open>nil\<close>.\<close>

record history =
  h_time :: time
  h_message :: string
  h_event :: string

record details =
  d_name :: string
  d_compliance :: string
  d_history :: "history list"

record policy_status =
  s_placement :: string
  s_clusters :: string
  s_compliance :: string
  s_details :: "details option list"

record dependency =
  dep_gvk :: gvk
  dep_namespace :: string
  dep_name :: string
  dep_compliance :: string

record policy_template =
  t_raw :: string
  t_extraDependencies :: "dependency list"
  t_ignorePending :: bool

record policy_spec =
  sp_disabled :: bool
  sp_remediationAction :: string
  sp_dependencies :: "dependency list"
  sp_templates :: "policy_template list"
  sp_other :: string

record policy =
  p_name :: string
  p_namespace :: string
  p_uid :: string
  p_kind :: string
  p_apiVersion :: string
  p_generation :: int
  p_resourceVersion :: string
  p_deleting :: bool
  p_labels :: "string \<rightharpoonup> string"
  p_annotations :: "string \<rightharpoonup> string"
  p_owners :: "owner_ref list"
  p_finalizers :: "string list"
  p_spec :: policy_spec
  p_status :: policy_status

definition policy_nn :: "policy \<Rightarrow> namespaced_name" where
  "policy_nn p = nn (p_namespace p) (p_name p)"

section \<open>Secrets\<close>

record secret =
  sec_name :: string
  sec_namespace :: string
  sec_deleting :: bool
  sec_labels :: "string \<rightharpoonup> string"
  sec_annotations :: "string \<rightharpoonup> string"
  sec_data :: "string \<rightharpoonup> string"

definition secret_nn :: "secret \<Rightarrow> namespaced_name" where
  "secret_nn s = nn (sec_namespace s) (sec_name s)"

section \<open>Events\<close>

record object_ref =
  ref_kind :: string
  ref_namespace :: string
  ref_name :: string
  ref_uid :: string
  ref_apiVersion :: string

record kevent =
  ev_name :: string
  ev_namespace :: string
  ev_involved :: object_ref
  ev_reason :: string
  ev_message :: string
  ev_component :: string
  ev_host :: string
  ev_first :: time
  ev_last :: time
  ev_count :: int
  ev_action :: string
  ev_reportingController :: string
  ev_reportingInstance :: string
  ev_related :: "object_ref option"
  ev_type :: string

section \<open>The log of outward actions\<close>

datatype cluster = Hub | Managed

datatype counter = UserErrors | SystemErrors

text \<open>One constructor per kind of call that leaves the process. A write to an API server is
  logged when it is attempted, whatever it returns.\<close>

datatype effect =
    PolicyCreate cluster policy
  | PolicyUpdate cluster policy
  | PolicyStatusUpdate cluster policy
  | PolicyDelete cluster namespaced_name
  | SecretCreate secret
  | SecretUpdate secret
  | SecretDelete namespaced_name
  | Recorded cluster namespaced_name string string string
  | EventCreate kevent
  | SpecSyncRequest namespaced_name
  | StatusSyncRequest namespaced_name
  | ObjectCreate gvr string unstr
  | ObjectUpdate gvr string unstr
  | ObjectDelete gvr string string
  | ObjectPatch gvr string string string string
  | WatchSet object_identifier "object_identifier set"
  | WatchRemove object_identifier
  | CounterInc counter string string string
  | CountersDelete counter string
  | DeploymentUpdate namespaced_name "string \<rightharpoonup> string"
  | PolicyDeleteCollection string
  | Slept nat

record 'c world =
  w_env :: 'c
  w_log :: "effect list"

definition call :: "('c \<Rightarrow> 'r \<times> 'c) \<Rightarrow> 'c world \<Rightarrow> 'r \<times> 'c world" where
  "call f w = (case f (w_env w) of (r, c) \<Rightarrow> (r, w\<lparr>w_env := c\<rparr>))"

definition act :: "effect \<Rightarrow> ('c \<Rightarrow> 'r \<times> 'c) \<Rightarrow> 'c world \<Rightarrow> 'r \<times> 'c world" where
  "act e f w = (case f (w_env w) of (r, c) \<Rightarrow> (r, w\<lparr>w_env := c, w_log := w_log w @ [e]\<rparr>))"

definition emit :: "effect \<Rightarrow> 'c world \<Rightarrow> 'c world" where
  "emit e w = w\<lparr>w_log := w_log w @ [e]\<rparr>"

lemma call_eq [callsimps]: "f (w_env w) = (r, c) \<Longrightarrow> call f w = (r, w\<lparr>w_env := c\<rparr>)"
  by (simp add: call_def)

lemma act_eq [callsimps]:
  "f (w_env w) = (r, c) \<Longrightarrow> act e f w = (r, w\<lparr>w_env := c, w_log := w_log w @ [e]\<rparr>)"
  by (simp add: act_def)

lemma call_log [framesimps]: "call f w = (r, w') \<Longrightarrow> w_log w' = w_log w"
  by (auto simp: call_def split: prod.splits)

lemma act_log [framesimps]: "act e f w = (r, w') \<Longrightarrow> w_log w' = w_log w @ [e]"
  by (auto simp: act_def split: prod.splits)

lemma emit_log [simp]: "w_log (emit e w) = w_log w @ [e]"
  by (simp add: emit_def)

lemma emit_env [simp]: "w_env (emit e w) = w_env w"
  by (simp add: emit_def)

section \<open>The clients\<close>

text \<open>The policy clients of the two clusters. A write returns the object as the server
  stored it, with which the client overwrites its argument.\<close>

record 'c policy_api =
  polGet :: "cluster \<Rightarrow> namespaced_name \<Rightarrow> 'c \<Rightarrow> (gerr + policy) \<times> 'c"
  polCreate :: "cluster \<Rightarrow> policy \<Rightarrow> 'c \<Rightarrow> (gerr + policy) \<times> 'c"
  polUpdate :: "cluster \<Rightarrow> policy \<Rightarrow> 'c \<Rightarrow> (gerr + policy) \<times> 'c"
  polStatusUpdate :: "cluster \<Rightarrow> policy \<Rightarrow> 'c \<Rightarrow> (gerr + policy) \<times> 'c"
  polDelete :: "cluster \<Rightarrow> namespaced_name \<Rightarrow> 'c \<Rightarrow> gerr option \<times> 'c"

text \<open>The secrets: both clusters are read, only the managed one is written.\<close>

record 'c secret_api =
  secGet :: "cluster \<Rightarrow> namespaced_name \<Rightarrow> 'c \<Rightarrow> (gerr + secret) \<times> 'c"
  secCreate :: "secret \<Rightarrow> 'c \<Rightarrow> gerr option \<times> 'c"
  secUpdate :: "secret \<Rightarrow> 'c \<Rightarrow> gerr option \<times> 'c"
  secDelete :: "namespaced_name \<Rightarrow> 'c \<Rightarrow> gerr option \<times> 'c"

text \<open>The events of the managed cluster, and the clock.\<close>

record 'c event_api =
  evList :: "string \<Rightarrow> 'c \<Rightarrow> (gerr + kevent list) \<times> 'c"
  evCreate :: "kevent \<Rightarrow> 'c \<Rightarrow> gerr option \<times> 'c"
  clockNow :: "'c \<Rightarrow> time \<times> 'c"

text \<open>\<^verbatim>\<open>depclient.DynamicWatcher\<close>. \<^verbatim>\<open>Get\<close> returns a pointer, \<^verbatim>\<open>nil\<close> when the object does not
  exist, and an error. The order in which objects to watch are passed is that of a Go map,
  so they are a set.\<close>

record 'c watch_api =
  wStart :: "object_identifier \<Rightarrow> 'c \<Rightarrow> gerr option \<times> 'c"
  wEnd :: "object_identifier \<Rightarrow> 'c \<Rightarrow> gerr option \<times> 'c"
  wGet :: "object_identifier \<Rightarrow> gvk \<Rightarrow> string \<Rightarrow> string \<Rightarrow> 'c \<Rightarrow> (unstr option \<times> gerr option) \<times> 'c"
  wSet :: "object_identifier \<Rightarrow> object_identifier set \<Rightarrow> 'c \<Rightarrow> gerr option \<times> 'c"
  wRemove :: "object_identifier \<Rightarrow> 'c \<Rightarrow> gerr option \<times> 'c"

text \<open>
  The pure functions of \<^verbatim>\<open>k8s.io/apimachinery\<close> on unstructured content. A nested read returns
  the value, whether the field was found, and whether it was an error (a field of another
  type on the way); \<open>nestedErrorText\<close> is the text of that error. \<open>decodeTemplate\<close> is \<^verbatim>\<open>UnstructuredJSONScheme.Decode\<close>: the kind of the
  object, and the object when it is a \<^verbatim>\<open>metav1.Object\<close> (a list is not). \<open>unmarshalObject\<close> is
  \<^verbatim>\<open>Unstructured.UnmarshalJSON\<close> and \<open>unmarshalMap\<close> decodes into the plain content map.
  \<open>historyEvent\<close> is the conversion of one history entry into its time stamp and message
  through its JSON text. \<open>crdQueryText\<close> is how the list options of the CRD query print.
\<close>

record klib =
  nestedString :: "jobj \<Rightarrow> string list \<Rightarrow> string \<times> bool \<times> bool"
  nestedInt64 :: "jobj \<Rightarrow> string list \<Rightarrow> int \<times> bool \<times> bool"
  nestedBool :: "jobj \<Rightarrow> string list \<Rightarrow> bool \<times> bool \<times> bool"
  nestedSlice :: "jobj \<Rightarrow> string list \<Rightarrow> json list \<times> bool \<times> bool"
  nestedErrorText :: "jobj \<Rightarrow> string list \<Rightarrow> string"
  setNestedField :: "jobj \<Rightarrow> json \<Rightarrow> string list \<Rightarrow> jobj \<times> bool"
  decodeTemplate :: "string \<Rightarrow> gerr + (unstr option \<times> gvk)"
  unmarshalObject :: "string \<Rightarrow> gerr + unstr"
  unmarshalMap :: "string \<Rightarrow> gerr + unstr"
  historyEvent :: "json \<Rightarrow> (time \<times> string) option"
  newControllerRef :: "policy \<Rightarrow> owner_ref"
  crdQueryText :: string

end
