(* ===== verification/Utils.thy ===== *)
theory Utils
  imports Kube
begin

text \<open>
  The helpers of \<^verbatim>\<open>controllers/utils\<close>: the constants, the comparison of replicated policies,
  the allow list, the aggregation of errors, the lookup of a resource for a kind, defaulting,
  and the sender of compliance events.
\<close>

section \<open>Constants and the allow list\<close>

definition ConstraintTemplateGroup :: string where
  "ConstraintTemplateGroup = ''templates.gatekeeper.sh''"

definition ConstraintTemplateKind :: string where
  "ConstraintTemplateKind = ''ConstraintTemplate''"

definition GConstraint :: string where
  "GConstraint = ''constraints.gatekeeper.sh''"

definition ClusterwideFinalizer :: string where
  "ClusterwideFinalizer = APIGroup @ ''/cleanup-cluster-scoped-policies''"

definition ParentPolicyLabel :: string where
  "ParentPolicyLabel = APIGroup @ ''/policy''"

definition PolicyTypeLabel :: string where
  "PolicyTypeLabel = APIGroup @ ''/policy-type''"

definition policyAllowList :: "(string \<times> string) list" where
  "policyAllowList = [(ConstraintTemplateGroup, ConstraintTemplateKind), (GConstraint, [])]"

fun allowed_by :: "(string \<times> string) list \<Rightarrow> string \<Rightarrow> string \<Rightarrow> bool" where
  "allowed_by [] grp kind = False"
| "allowed_by ((g, k) # gks) grp kind =
     (if grp = g \<and> (k = [] \<or> kind = k) then True else allowed_by gks grp kind)"

definition IsAllowedPolicy :: "string \<Rightarrow> string \<Rightarrow> bool" where
  "IsAllowedPolicy grp kind = allowed_by policyAllowList grp kind"

lemma IsAllowedPolicy_iff:
  "IsAllowedPolicy grp kind \<longleftrightarrow>
     grp = ConstraintTemplateGroup \<and> kind = ConstraintTemplateKind \<or> grp = GConstraint"
  by (simp add: IsAllowedPolicy_def policyAllowList_def ConstraintTemplateKind_def)

section \<open>Replicated policies\<close>

text \<open>\<^verbatim>\<open>equality.Semantic.DeepEqual\<close> is equality of the modelled values: it identifies an
  absent and an empty map or list, as the model's types do.\<close>

definition EquivalentReplicatedPolicies :: "policy \<Rightarrow> policy \<Rightarrow> bool" where
  "EquivalentReplicatedPolicies plc1 plc2 \<longleftrightarrow>
     (if p_annotations plc1 \<noteq> p_annotations plc2 then False else p_spec plc1 = p_spec plc2)"

lemma EquivalentReplicatedPolicies_iff:
  "EquivalentReplicatedPolicies p q \<longleftrightarrow>
     p_annotations p = p_annotations q \<and> p_spec p = p_spec q"
  by (simp add: EquivalentReplicatedPolicies_def)

lemma EquivalentReplicatedPolicies_refl [simp]: "EquivalentReplicatedPolicies p p"
  by (simp add: EquivalentReplicatedPolicies_iff)

section \<open>Error lists\<close>

text \<open>The loop of \<^verbatim>\<open>Aggregate\<close>: the accumulated error is absent before the first item.\<close>

fun aggregate_from :: "gerr option \<Rightarrow> gerr list \<Rightarrow> gerr option" where
  "aggregate_from acc [] = acc"
| "aggregate_from None (e # es) = aggregate_from (Some e) es"
| "aggregate_from (Some a) (e # es) =
     aggregate_from (Some (wrap_err (err_msg a @ ''; '' @ err_msg e) e)) es"

definition Aggregate :: "gerr list \<Rightarrow> gerr option" where
  "Aggregate es = aggregate_from None es"

lemma aggregate_from_Some:
  "\<exists>e. aggregate_from (Some a) es = Some e \<and> err_reason e = err_reason (last (a # es)) \<and>
     err_msg e = Join (err_msg a # map err_msg es) ''; ''"
proof (induction es arbitrary: a)
  case Nil
  then show ?case by simp
next
  case (Cons e es)
  let ?a = "wrap_err (err_msg a @ ''; '' @ err_msg e) e"
  have "Join (err_msg ?a # map err_msg es) ''; '' =
      Join (err_msg a # err_msg e # map err_msg es) ''; ''"
    by (cases es) (simp_all add: wrap_err_def)
  moreover have "err_reason (last (?a # es)) = err_reason (last (e # es))"
    by (simp add: wrap_err_def)
  ultimately show ?case using Cons.IH [of ?a] by simp
qed

lemma Aggregate_eq_None [simp]: "Aggregate es = None \<longleftrightarrow> es = []"
proof (cases es)
  case (Cons e es')
  with aggregate_from_Some [of e es'] show ?thesis by (auto simp: Aggregate_def)
qed (simp add: Aggregate_def)

section \<open>Resources of a kind\<close>

definition gv_string :: "string \<Rightarrow> string \<Rightarrow> string" where
  "gv_string grp version = (if grp = [] then version else grp @ ''/'' @ version)"

definition gvk_string :: "gvk \<Rightarrow> string" where
  "gvk_string k = g_group k @ ''/'' @ g_version k @ '', Kind='' @ g_kind k"

record api_resource =
  ar_name :: string
  ar_kind :: string
  ar_namespaced :: bool

definition ErrNoVersionedResource :: string where
  "ErrNoVersionedResource = ''the resource version was not found''"

fun first_of_kind :: "gvk \<Rightarrow> api_resource list \<Rightarrow> gerr + (gvr \<times> bool)" where
  "first_of_kind k [] =
     Inl (GErr NoVersionedResource
       (ErrNoVersionedResource @ '': no matching kind was found: '' @ gvk_string k))"
| "first_of_kind k (rsrc # rsrcs) =
     (if ar_kind rsrc = g_kind k
      then Inr (\<lparr>r_group = g_group k, r_version = g_version k, r_resource = ar_name rsrc\<rparr>,
                ar_namespaced rsrc)
      else first_of_kind k rsrcs)"

text \<open>The parameter is \<^verbatim>\<open>ServerResourcesForGroupVersion\<close> of the discovery client.\<close>

definition GVRFromGVK ::
  "(string \<Rightarrow> 'c \<Rightarrow> (gerr + api_resource list) \<times> 'c) \<Rightarrow> gvk \<Rightarrow> 'c world
     \<Rightarrow> (gerr + (gvr \<times> bool)) \<times> 'c world" where
  "GVRFromGVK discovery k w =
     (case call (discovery (gv_string (g_group k) (g_version k))) w of
        (Inl err, w) \<Rightarrow>
          (if IsNotFound err
           then (Inl (GErr NoVersionedResource (ErrNoVersionedResource @ '': '' @ gvk_string k)), w)
           else (Inl err, w))
      | (Inr rsrcList, w) \<Rightarrow> (first_of_kind k rsrcList, w))"

lemma first_of_kind_Inr:
  "first_of_kind k rs = Inr (r, ns) \<longleftrightarrow>
     (\<exists>a. find (\<lambda>a. ar_kind a = g_kind k) rs = Some a \<and> ar_namespaced a = ns \<and>
        r = \<lparr>r_group = g_group k, r_version = g_version k, r_resource = ar_name a\<rparr>)"
  by (induction rs) auto

lemma first_of_kind_Inl:
  "first_of_kind k rs = Inl e \<Longrightarrow>
     (\<forall>a\<in>set rs. ar_kind a \<noteq> g_kind k) \<and> err_reason e = NoVersionedResource"
  by (induction rs) (auto split: if_splits)

lemma GVRFromGVK_log [framesimps]: "GVRFromGVK d k w = (r, w') \<Longrightarrow> w_log w' = w_log w"
  by (auto simp: GVRFromGVK_def call_def split: prod.splits sum.splits if_splits)

section \<open>Defaults of a typed object\<close>

text \<open>The scheme registry and its conversions are parameters; \<open>'t\<close> is the type of typed
  objects.\<close>

record 't scheme =
  sNew :: "gvk \<Rightarrow> gerr + 't"
  sKind :: "'t \<Rightarrow> string"
  sFromUnstructured :: "unstr \<Rightarrow> 't \<Rightarrow> gerr + 't"
  sDefault :: "'t \<Rightarrow> 't"
  sMarshal :: "'t \<Rightarrow> gerr + string"
  sUnmarshal :: "string \<Rightarrow> gerr + unstr"

definition ApplyObjectDefaults :: "'t scheme \<Rightarrow> unstr \<Rightarrow> unstr \<times> gerr option" where
  "ApplyObjectDefaults scheme object =
     (case sNew scheme (u_gvk object) of
        Inl err \<Rightarrow> (object, if err_reason err = NotRegistered then None else Some err)
      | Inr objectTyped \<Rightarrow>
          (let errDefault = (\<lambda>err. wrap_err
                 (''an unexpected error occurred while filling in default fields for the ''
                  @ sKind scheme objectTyped @ '': '' @ err_msg err) err)
           in case sFromUnstructured scheme object objectTyped of
                Inl err \<Rightarrow> (object, Some (errDefault err))
              | Inr objectTyped \<Rightarrow>
                  (case sMarshal scheme (sDefault scheme objectTyped) of
                     Inl err \<Rightarrow> (object, Some (errDefault err))
                   | Inr objectRaw \<Rightarrow>
                       (case sUnmarshal scheme objectRaw of
                          Inl err \<Rightarrow> (object, Some (errDefault err))
                        | Inr objectMap \<Rightarrow> (objectMap, None)))))"

section \<open>Compliance events\<close>

definition EventReason :: "string \<Rightarrow> string \<Rightarrow> string" where
  "EventReason ns name =
     (if ns = [] then ''policy: '' @ name else ''policy: '' @ ns @ ''/'' @ name)"

record event_sender =
  es_clusterNamespace :: string
  es_instanceName :: string
  es_controllerName :: string

definition event_name :: "string \<Rightarrow> time \<Rightarrow> string" where
  "event_name owner t = owner @ ''.'' @ fmt_x t"

definition compliance_message :: "string \<Rightarrow> string \<Rightarrow> string" where
  "compliance_message compliance msg = compliance @ ''; '' @ msg"

definition compliance_event ::
  "event_sender \<Rightarrow> unstr option \<Rightarrow> owner_ref \<Rightarrow> string \<Rightarrow> string \<Rightarrow> string \<Rightarrow> time \<Rightarrow> kevent" where
  "compliance_event c inst owner rsn msg compliance now =
     \<lparr>ev_name = event_name (or_name owner) now,
      ev_namespace = es_clusterNamespace c,
      ev_involved = \<lparr>ref_kind = or_kind owner, ref_namespace = es_clusterNamespace c,
        ref_name = or_name owner, ref_uid = or_uid owner, ref_apiVersion = or_apiVersion owner\<rparr>,
      ev_reason = rsn,
      ev_message = compliance_message compliance msg,
      ev_component = es_controllerName c,
      ev_host = es_instanceName c,
      ev_first = now,
      ev_last = now,
      ev_count = 1,
      ev_action = ''ComplianceStateUpdate'',
      ev_reportingController = es_controllerName c,
      ev_reportingInstance = es_instanceName c,
      ev_related = map_option (\<lambda>u. \<lparr>ref_kind = g_kind (u_gvk u), ref_namespace = u_namespace u,
        ref_name = u_name u, ref_uid = u_uid u,
        ref_apiVersion = gv_string (g_group (u_gvk u)) (g_version (u_gvk u))\<rparr>) inst,
      ev_type = (if compliance = Compliant then ''Normal'' else ''Warning'')\<rparr>"

definition SendEvent ::
  "'c event_api \<Rightarrow> event_sender \<Rightarrow> unstr option \<Rightarrow> owner_ref \<Rightarrow> string \<Rightarrow> string \<Rightarrow> string
     \<Rightarrow> 'c world \<Rightarrow> gerr option \<times> 'c world" where
  "SendEvent api c inst owner rsn msg compliance w =
     (case call (clockNow api) w of
        (now, w) \<Rightarrow>
          (let event = compliance_event c inst owner rsn msg compliance now
           in act (EventCreate event) (evCreate api event) w))"

lemma SendEvent_log:
  assumes "SendEvent api c inst owner rsn msg compliance w = (r, w')"
  shows "\<exists>now. w_log w' =
    w_log w @ [EventCreate (compliance_event c inst owner rsn msg compliance now)]"
  using assms by (auto simp: SendEvent_def call_def act_def Let_def split: prod.splits)

section \<open>The contract between the sender and the readers of compliance events\<close>

text \<open>
  The controllers that send compliance events (template-sync, gatekeeper-sync, and the policy
  controllers) and the one that reads them (status-sync) agree on how the time of an event is
  coded in its name, how the compliance is coded in its message, and how the template is
  coded in its reason. The laws say that the reader recovers what the sender put in.
\<close>

locale event_protocol =
  fixes ename :: "string \<Rightarrow> time \<Rightarrow> string"
    and etime :: "string \<Rightarrow> time option"
    and emessage :: "string \<Rightarrow> string \<Rightarrow> string"
    and ecompliance :: "string \<Rightarrow> string"
    and ereason :: "string \<Rightarrow> string \<Rightarrow> string"
    and etemplate :: "string \<Rightarrow> string option"
    and states :: "string set"
    and namespace_ok :: "string \<Rightarrow> bool"
    and name_ok :: "string \<Rightarrow> bool"
  assumes time_of_name: "in_int64 t \<Longrightarrow> etime (ename owner t) = Some t"
    and compliance_of_message: "c \<in> states \<Longrightarrow> ecompliance (emessage c msg) = c"
    and template_of_reason: "namespace_ok ns \<Longrightarrow> name_ok n \<Longrightarrow> etemplate (ereason ns n) = Some n"
begin

text \<open>Events of one owner sent at different instants have different names, so a reader may
  identify events by name.\<close>

lemma ename_inj:
  assumes "in_int64 t" and "in_int64 t'" and "ename owner t = ename owner t'"
  shows "t = t'"
proof -
  from assms(1) have "etime (ename owner t) = Some t" by (rule time_of_name)
  moreover from assms(2) have "etime (ename owner t') = Some t'" by (rule time_of_name)
  ultimately show ?thesis using assms(3) by (metis option.inject)
qed

text \<open>Reasons for different templates are different, whatever their namespaces.\<close>

lemma ereason_inj:
  assumes "namespace_ok ns" "name_ok n" "namespace_ok ns'" "name_ok n'"
    and "ereason ns n = ereason ns' n'"
  shows "n = n'"
  using template_of_reason [OF assms(1,2)] template_of_reason [OF assms(3,4)] assms(5)
  by (metis option.inject)

text \<open>Messages with different states are different.\<close>

lemma emessage_inj:
  assumes "c \<in> states" and "c' \<in> states" and "emessage c m = emessage c' m'"
  shows "c = c'"
  using compliance_of_message [OF assms(1), of m] compliance_of_message [OF assms(2), of m']
    assms(3) by metis

end

end
