(* ===== verification/PolicyStore.thy ===== *)
theory PolicyStore
  imports Utils
begin

text \<open>
  What the controllers rely on of the policy clients: the documented behaviour of a Kubernetes
  API server while no one else writes. The locale \<open>policy_store\<close> states it with an abstraction
  function \<open>look\<close> that gives the stored policy of a cluster; the client lemmas of the
  controllers are proved from it, and properties name it as a hypothesis. The in-memory store
  at the end meets the laws, so that the hypothesis can hold.

  The locales \<open>lossy_replicator\<close> and \<open>replicator\<close> are the contract of the two controllers that
  copy objects from the hub to the managed cluster: spec-sync, which does not report every failure,
  and secret-sync, which does.
\<close>

section \<open>The laws of the policy clients\<close>

text \<open>What an update may set besides the status: everything the user owns.\<close>

definition same_object :: "policy \<Rightarrow> policy \<Rightarrow> bool" where
  "same_object p q \<longleftrightarrow>
     p_name p = p_name q \<and> p_namespace p = p_namespace q \<and> p_labels p = p_labels q \<and>
     p_annotations p = p_annotations q \<and> p_owners p = p_owners q \<and>
     p_finalizers p = p_finalizers q \<and> p_spec p = p_spec q"

type_synonym 'c policy_lookup = "cluster \<Rightarrow> namespaced_name \<Rightarrow> 'c \<Rightarrow> policy option"

locale policy_store =
  fixes papi :: "'c policy_api" and look :: "'c policy_lookup"
  assumes get_look: "polGet papi cl k c = (r, c') \<Longrightarrow> look cl2 k2 c' = look cl2 k2 c"
    and get_Inr: "polGet papi cl k c = (Inr p, c') \<Longrightarrow> look cl k c = Some p"
    and get_Inl: "polGet papi cl k c = (Inl e, c') \<Longrightarrow> IsNotFound e \<Longrightarrow> look cl k c = None"
    and look_nn: "look cl k c = Some p \<Longrightarrow> policy_nn p = k"
    and create_Inr: "polCreate papi cl p c = (Inr q, c') \<Longrightarrow>
      look cl (policy_nn p) c' = Some q \<and> same_object p q"
    and create_look: "polCreate papi cl p c = (r, c') \<Longrightarrow>
      (cl2, k2) \<noteq> (cl, policy_nn p) \<or> (\<exists>e. r = Inl e) \<Longrightarrow> look cl2 k2 c' = look cl2 k2 c"
    and update_Inr: "polUpdate papi cl p c = (Inr q, c') \<Longrightarrow>
      look cl (policy_nn p) c' = Some q \<and> same_object p q"
    and update_look: "polUpdate papi cl p c = (r, c') \<Longrightarrow>
      (cl2, k2) \<noteq> (cl, policy_nn p) \<or> (\<exists>e. r = Inl e) \<Longrightarrow> look cl2 k2 c' = look cl2 k2 c"
    and status_Inr: "polStatusUpdate papi cl p c = (Inr q, c') \<Longrightarrow>
      look cl (policy_nn p) c' = Some q \<and> p_status q = p_status p \<and> same_object p q"
    and status_look: "polStatusUpdate papi cl p c = (r, c') \<Longrightarrow>
      (cl2, k2) \<noteq> (cl, policy_nn p) \<or> (\<exists>e. r = Inl e) \<Longrightarrow> look cl2 k2 c' = look cl2 k2 c"
    and delete_None: "polDelete papi cl k c = (None, c') \<Longrightarrow>
      (case look cl k c' of None \<Rightarrow> True | Some p \<Rightarrow> p_deleting p)"
    and delete_Some: "polDelete papi cl k c = (Some e, c') \<Longrightarrow> IsNotFound e \<Longrightarrow> look cl k c = None"
    and delete_look: "polDelete papi cl k c = (d, c') \<Longrightarrow>
      (cl2, k2) \<noteq> (cl, k) \<or> d \<noteq> None \<Longrightarrow> look cl2 k2 c' = look cl2 k2 c"
begin

text \<open>The laws lifted to the wrappers that the controllers call.\<close>

lemma call_get:
  assumes "call (polGet papi cl k) w = (r, w')"
  shows "look cl2 k2 (w_env w') = look cl2 k2 (w_env w)"
    and "r = Inr p \<Longrightarrow> look cl k (w_env w) = Some p"
    and "r = Inl e \<Longrightarrow> IsNotFound e \<Longrightarrow> look cl k (w_env w) = None"
  using assms get_look get_Inr get_Inl by (auto simp: call_def split: prod.splits)

lemma act_create:
  assumes "act eff (polCreate papi cl p) w = (r, w')"
  shows "r = Inr q \<Longrightarrow> look cl (policy_nn p) (w_env w') = Some q \<and> same_object p q"
    and "(cl2, k2) \<noteq> (cl, policy_nn p) \<or> (\<exists>e. r = Inl e) \<Longrightarrow>
      look cl2 k2 (w_env w') = look cl2 k2 (w_env w)"
  using assms create_Inr create_look by (auto simp: act_def split: prod.splits)

lemma act_update:
  assumes "act eff (polUpdate papi cl p) w = (r, w')"
  shows "r = Inr q \<Longrightarrow> look cl (policy_nn p) (w_env w') = Some q \<and> same_object p q"
    and "(cl2, k2) \<noteq> (cl, policy_nn p) \<or> (\<exists>e. r = Inl e) \<Longrightarrow>
      look cl2 k2 (w_env w') = look cl2 k2 (w_env w)"
  using assms update_Inr update_look by (auto simp: act_def split: prod.splits)

lemma act_status:
  assumes "act eff (polStatusUpdate papi cl p) w = (r, w')"
  shows "r = Inr q \<Longrightarrow>
      look cl (policy_nn p) (w_env w') = Some q \<and> p_status q = p_status p \<and> same_object p q"
    and "(cl2, k2) \<noteq> (cl, policy_nn p) \<or> (\<exists>e. r = Inl e) \<Longrightarrow>
      look cl2 k2 (w_env w') = look cl2 k2 (w_env w)"
  using assms status_Inr status_look by (auto simp: act_def split: prod.splits)

lemma act_delete:
  assumes "act eff (polDelete papi cl k) w = (r, w')"
  shows "r = None \<Longrightarrow> (case look cl k (w_env w') of None \<Rightarrow> True | Some p \<Rightarrow> p_deleting p)"
    and "r = Some e \<Longrightarrow> IsNotFound e \<Longrightarrow> look cl k (w_env w) = None"
    and "(cl2, k2) \<noteq> (cl, k) \<or> r \<noteq> None \<Longrightarrow> look cl2 k2 (w_env w') = look cl2 k2 (w_env w)"
  using assms delete_None delete_Some delete_look by (auto simp: act_def split: prod.splits)

end

section \<open>The contract of a replicating controller\<close>

text \<open>Working off a queue of requests; the list of results is in the order of the queue.\<close>

fun work_off ::
  "('k \<Rightarrow> 'c world \<Rightarrow> reconcile_result \<times> 'c world) \<Rightarrow> 'k list \<Rightarrow> 'c world
     \<Rightarrow> reconcile_result list \<times> 'c world" where
  "work_off step [] w = ([], w)"
| "work_off step (k # ks) w =
     (case step k w of (r, w) \<Rightarrow> (case work_off step ks w of (rs, w) \<Rightarrow> (r # rs, w)))"

lemma work_off_Cons:
  assumes "work_off step (k # ks) w = (rs, w')"
  obtains r w1 rs1 where "step k w = (r, w1)" "work_off step ks w1 = (rs1, w')" "rs = r # rs1"
  using assms by (auto split: prod.splits)

text \<open>Whether the last reconcile of a key in a queue was one that the predicate \<open>lost\<close> holds of.\<close>

fun last_lost ::
  "('k \<Rightarrow> 'c world \<Rightarrow> reconcile_result \<times> 'c world) \<Rightarrow> ('k \<Rightarrow> 'c world \<Rightarrow> bool) \<Rightarrow> 'k \<Rightarrow> 'k list
     \<Rightarrow> 'c world \<Rightarrow> bool" where
  "last_lost step lost k [] w = False"
| "last_lost step lost k (k1 # ks) w =
     (if k1 = k \<and> k \<notin> set ks then lost k w else last_lost step lost k ks (snd (step k1 w)))"

text \<open>
  A reconcile of the key \<open>k\<close> that returns without an error leaves the replica of \<open>k\<close> in
  agreement with the source, except when \<open>lost\<close> says that the writing failed all the same; it
  changes no source and no other replica.
\<close>

locale lossy_replicator =
  fixes step :: "'k \<Rightarrow> 'c world \<Rightarrow> reconcile_result \<times> 'c world"
    and agree :: "'c \<Rightarrow> 'k \<Rightarrow> bool"
    and lost :: "'k \<Rightarrow> 'c world \<Rightarrow> bool"
  assumes step_agree: "step k w = (Done, w') \<Longrightarrow> agree (w_env w') k \<longleftrightarrow> \<not> lost k w"
    and step_frame: "step k w = (r, w') \<Longrightarrow> k' \<noteq> k \<Longrightarrow> agree (w_env w') k' \<longleftrightarrow> agree (w_env w) k'"
begin

lemma work_off_frame:
  "work_off step ks w = (rs, w') \<Longrightarrow> k \<notin> set ks \<Longrightarrow> agree (w_env w') k \<longleftrightarrow> agree (w_env w) k"
proof (induction ks arbitrary: w rs)
  case (Cons k1 ks)
  from Cons.prems(1) obtain r w1 rs1
    where s: "step k1 w = (r, w1)" "work_off step ks w1 = (rs1, w')" "rs = r # rs1"
    by (rule work_off_Cons)
  then show ?case using Cons.IH [OF s(2)] Cons.prems(2) step_frame [OF s(1), of k] by simp
qed simp

text \<open>Once every request of a queue has been worked off without an error, a key of the queue
  agrees exactly when the last of its reconciles was not lost.\<close>

lemma work_off_exact:
  assumes "work_off step ks w = (rs, w')" and "set rs \<subseteq> {Done}" and "k \<in> set ks"
  shows "agree (w_env w') k \<longleftrightarrow> \<not> last_lost step lost k ks w"
  using assms
proof (induction ks arbitrary: w rs)
  case (Cons k1 ks)
  from Cons.prems(1) obtain r w1 rs1
    where s: "step k1 w = (r, w1)" "work_off step ks w1 = (rs1, w')" "rs = r # rs1"
    by (rule work_off_Cons)
  show ?case
  proof (cases "k \<in> set ks")
    case True
    then show ?thesis using Cons.IH [OF s(2)] Cons.prems(2) s(1,3) by simp
  next
    case False
    then have "k = k1" "r = Done" using Cons.prems(2,3) s(3) by simp_all
    then show ?thesis using work_off_frame [OF s(2) False] step_agree [of k w w1] s(1) False by simp
  qed
qed simp

end

text \<open>A controller that reports every failure: whatever the order and however often a key occurs,
  every key of a queue that was worked off without an error agrees.\<close>

locale replicator = lossy_replicator step agree "\<lambda>_ _. False"
  for step :: "'k \<Rightarrow> 'c world \<Rightarrow> reconcile_result \<times> 'c world" and agree :: "'c \<Rightarrow> 'k \<Rightarrow> bool"
begin

lemma never_lost: "\<not> last_lost step (\<lambda>_ _. False) k ks w"
  by (induction ks arbitrary: w) simp_all

lemma work_off_agrees:
  "work_off step ks w = (rs, w') \<Longrightarrow> set rs \<subseteq> {Done} \<Longrightarrow> k \<in> set ks \<Longrightarrow> agree (w_env w') k"
  using work_off_exact never_lost by blast

end

section \<open>The contract of a controller that pauses for the uninstallation\<close>

text \<open>Every controller but template-sync and the uninstall watcher puts the request back for
  five minutes and touches nothing while the deployment is uninstalling.\<close>

locale pausing =
  fixes reconcile :: "bool \<Rightarrow> 'k \<Rightarrow> 'c world \<Rightarrow> reconcile_result \<times> 'c world"
  assumes paused: "reconcile True k w = (RequeueAfter 300, w)"
begin

text \<open>Every request of a queue comes back and nothing is written.\<close>

lemma paused_queue: "work_off (reconcile True) ks w = (map (\<lambda>_. RequeueAfter 300) ks, w)"
  by (induction ks) (simp_all add: paused)

end

section \<open>An in-memory store\<close>

type_synonym mem = "cluster \<Rightarrow> namespaced_name \<Rightarrow> policy option"

definition mem_put :: "cluster \<Rightarrow> policy \<Rightarrow> mem \<Rightarrow> mem" where
  "mem_put cl p m = m(cl := (m cl)(policy_nn p \<mapsto> p))"

definition mem_missing :: gerr where
  "mem_missing = GErr NotFound ''not found''"

definition mem_get :: "cluster \<Rightarrow> namespaced_name \<Rightarrow> mem \<Rightarrow> (gerr + policy) \<times> mem" where
  "mem_get cl k m =
     (case m cl k of
        Some p \<Rightarrow> if policy_nn p = k then (Inr p, m) else (Inl mem_missing, m)
      | None \<Rightarrow> (Inl mem_missing, m))"

definition mem_look :: "mem policy_lookup" where
  "mem_look cl k m = (case m cl k of Some p \<Rightarrow> if policy_nn p = k then Some p else None | None \<Rightarrow> None)"

definition mem_create :: "cluster \<Rightarrow> policy \<Rightarrow> mem \<Rightarrow> (gerr + policy) \<times> mem" where
  "mem_create cl p m =
     (case mem_look cl (policy_nn p) m of
        Some _ \<Rightarrow> (Inl (GErr Conflict ''already exists''), m)
      | None \<Rightarrow> (Inr p, mem_put cl p m))"

definition mem_update :: "cluster \<Rightarrow> policy \<Rightarrow> mem \<Rightarrow> (gerr + policy) \<times> mem" where
  "mem_update cl p m =
     (case mem_look cl (policy_nn p) m of
        None \<Rightarrow> (Inl mem_missing, m)
      | Some old \<Rightarrow> (let p = p\<lparr>p_status := p_status old\<rparr> in (Inr p, mem_put cl p m)))"

definition mem_status :: "cluster \<Rightarrow> policy \<Rightarrow> mem \<Rightarrow> (gerr + policy) \<times> mem" where
  "mem_status cl p m =
     (case mem_look cl (policy_nn p) m of
        None \<Rightarrow> (Inl mem_missing, m)
      | Some old \<Rightarrow> (Inr p, mem_put cl p m))"

definition mem_delete :: "cluster \<Rightarrow> namespaced_name \<Rightarrow> mem \<Rightarrow> gerr option \<times> mem" where
  "mem_delete cl k m =
     (case mem_look cl k m of
        None \<Rightarrow> (Some mem_missing, m)
      | Some p \<Rightarrow>
          (if p_finalizers p = [] then (None, m(cl := (m cl)(k := None)))
           else (None, mem_put cl (p\<lparr>p_deleting := True\<rparr>) m)))"

definition mem_papi :: "mem policy_api" where
  "mem_papi = \<lparr>polGet = mem_get, polCreate = mem_create, polUpdate = mem_update,
     polStatusUpdate = mem_status, polDelete = mem_delete\<rparr>"

lemma policy_nn_update [simp]:
  "policy_nn (p\<lparr>p_status := s\<rparr>) = policy_nn p" "policy_nn (p\<lparr>p_deleting := b\<rparr>) = policy_nn p"
  "policy_nn (p\<lparr>p_spec := sp\<rparr>) = policy_nn p" "policy_nn (p\<lparr>p_annotations := a\<rparr>) = policy_nn p"
  by (simp_all add: policy_nn_def)

lemma mem_look_put [simp]:
  "mem_look cl2 k2 (mem_put cl p m) =
     (if cl2 = cl \<and> k2 = policy_nn p then Some p else mem_look cl2 k2 m)"
  by (auto simp: mem_look_def mem_put_def)

lemma mem_look_empty [simp]: "mem_look cl k (\<lambda>_ _. None) = None"
  by (simp add: mem_look_def)

lemma same_object_refl [simp]:
  "same_object p p" "same_object p (p\<lparr>p_status := s\<rparr>)"
  by (simp_all add: same_object_def)

lemma mem_look_remove [simp]:
  "mem_look cl2 k2 (m(cl := (m cl)(k := None))) =
     (if cl2 = cl \<and> k2 = k then None else mem_look cl2 k2 m)"
  by (auto simp: mem_look_def)

lemma mem_look_nn: "mem_look cl k m = Some p \<Longrightarrow> policy_nn p = k"
  by (auto simp: mem_look_def split: option.splits if_splits)

lemma mem_get_look:
  "mem_get cl k m = ((case mem_look cl k m of None \<Rightarrow> Inl mem_missing | Some p \<Rightarrow> Inr p), m)"
  by (auto simp: mem_get_def mem_look_def split: option.splits)

lemmas mem_defs = mem_papi_def mem_get_look mem_create_def mem_update_def mem_status_def
  mem_delete_def mem_missing_def IsNotFound_def Let_def

interpretation mem_store: policy_store mem_papi mem_look
proof (unfold_locales, goal_cases)
  case 1
  then show ?case by (simp add: mem_defs split: option.splits if_splits)
next
  case 2
  then show ?case by (simp add: mem_defs split: option.splits if_splits)
next
  case 3
  then show ?case by (auto simp: mem_defs split: option.splits if_splits)
next
  case 4
  then show ?case by (rule mem_look_nn)
next
  case 5
  then show ?case by (auto simp: mem_defs split: option.splits if_splits)
next
  case 6
  then show ?case by (auto simp: mem_defs split: option.splits if_splits)
next
  case 7
  then show ?case by (auto simp: mem_defs split: option.splits if_splits)
next
  case 8
  then show ?case by (auto simp: mem_defs split: option.splits if_splits)
next
  case 9
  then show ?case by (auto simp: mem_defs split: option.splits if_splits)
next
  case 10
  then show ?case by (auto simp: mem_defs split: option.splits if_splits)
next
  case (11 cl k c c')
  then show ?case
    using mem_look_nn [of cl k c] by (auto simp: mem_defs split: option.splits if_splits)
next
  case 12
  then show ?case by (auto simp: mem_defs split: option.splits if_splits)
next
  case (13 cl k c d c' cl2 k2)
  then show ?case
    using mem_look_nn [of cl k c] by (auto simp: mem_defs split: option.splits if_splits)
qed

end
