(* ===== verification/SpecSync.thy ===== *)
theory SpecSync
  imports PolicyStore
begin

text \<open>
  The spec-sync controller, \<^verbatim>\<open>controllers/specsync/policy_spec_sync.go\<close>: it keeps the copy of a
  replicated policy in the target namespace of the managed cluster equal to the policy in the
  cluster namespace of the hub.

  Over the laws of the policy clients (\<open>policy_store\<close>) the controller meets the contract
  \<open>lossy_replicator\<close>: it ignores every error of an update but "not found", which the last property
  shows, and \<open>update_ignored\<close> says of which reconciles that is true. No other reconcile that returns
  without an error leaves the copy behind.
\<close>

section \<open>The controller\<close>

record spec_reconciler =
  ss_targetNamespace :: string

text \<open>The copy that is created on the managed cluster.\<close>

definition replicated_copy :: "spec_reconciler \<Rightarrow> policy \<Rightarrow> policy" where
  "replicated_copy r inst =
     (let managedPlc = inst\<lparr>p_namespace := ss_targetNamespace r\<rparr>;
          managedPlc =
            (if lookup_str (p_labels managedPlc) ClusterNamespaceLabel \<noteq> []
             then managedPlc\<lparr>p_labels :=
                    (p_labels managedPlc)(ClusterNamespaceLabel \<mapsto> ss_targetNamespace r)\<rparr>
             else managedPlc)
      in managedPlc\<lparr>p_owners := [], p_resourceVersion := []\<rparr>)"

definition spec_event :: "policy \<Rightarrow> string \<Rightarrow> effect" where
  "spec_event managedPlc text =
     Recorded Managed (policy_nn managedPlc) ''Normal'' ''PolicySpecSync'' text"

definition synchronized_text :: "spec_reconciler \<Rightarrow> policy \<Rightarrow> string" where
  "synchronized_text r inst =
     ''Policy '' @ p_name inst @ '' was synchronized to cluster namespace '' @ ss_targetNamespace r"

definition updated_text :: "spec_reconciler \<Rightarrow> policy \<Rightarrow> string" where
  "updated_text r inst =
     ''Policy '' @ p_name inst @ '' was updated in cluster namespace '' @ ss_targetNamespace r"

text \<open>The end of the reconcile, with the managed policy as it was read or created.\<close>

definition compare_and_update ::
  "'c policy_api \<Rightarrow> spec_reconciler \<Rightarrow> policy \<Rightarrow> policy \<Rightarrow> 'c world
     \<Rightarrow> reconcile_result \<times> 'c world" where
  "compare_and_update papi r inst managedPlc w =
     (if \<not> EquivalentReplicatedPolicies inst managedPlc
      then
        (let managedPlc = managedPlc\<lparr>p_annotations := p_annotations inst, p_spec := p_spec inst\<rparr>
         in case act (PolicyUpdate Managed managedPlc) (polUpdate papi Managed managedPlc) w of
              (Inl err, w) \<Rightarrow>
                (if IsNotFound err then (Failed err, w)
                 else (Done, emit (spec_event managedPlc (updated_text r inst)) w))
            | (Inr managedPlc, w) \<Rightarrow>
                (Done, emit (spec_event managedPlc (updated_text r inst)) w))
      else if p_status inst \<noteq> p_status managedPlc
      then (Done, emit (StatusSyncRequest (policy_nn managedPlc)) w)
      else (Done, w))"

definition Reconcile_spec ::
  "bool \<Rightarrow> 'c policy_api \<Rightarrow> spec_reconciler \<Rightarrow> namespaced_name \<Rightarrow> 'c world
     \<Rightarrow> reconcile_result \<times> 'c world" where
  "Reconcile_spec deploymentIsUninstalling papi r request w =
     (if deploymentIsUninstalling then (RequeueAfter 300, w)
      else
        (let managedName = nn (ss_targetNamespace r) (nn_name request) in
         case call (polGet papi Hub request) w of
           (Inl err, w) \<Rightarrow>
             (if IsNotFound err then
                (case act (PolicyDelete Managed managedName) (polDelete papi Managed managedName) w of
                   (None, w) \<Rightarrow> (Done, w)
                 | (Some err, w) \<Rightarrow> (if \<not> IsNotFound err then (Failed err, w) else (Done, w)))
              else (Failed err, w))
         | (Inr inst, w) \<Rightarrow>
             (case call (polGet papi Managed managedName) w of
                (Inl err, w) \<Rightarrow>
                  (if IsNotFound err then
                     (let managedPlc = replicated_copy r inst
                      in case act (PolicyCreate Managed managedPlc)
                                (polCreate papi Managed managedPlc) w of
                           (Inl err, w) \<Rightarrow> (Failed err, w)
                         | (Inr managedPlc, w) \<Rightarrow>
                             compare_and_update papi r inst managedPlc
                               (emit (spec_event managedPlc (synchronized_text r inst)) w))
                   else (Failed err, w))
              | (Inr managedPlc, w) \<Rightarrow> compare_and_update papi r inst managedPlc w)))"

text \<open>For the properties: the reconciles in which the copy is to be updated and the update fails with an
  error other than "not found". The calls before the update are those of the reconcile.\<close>

definition ignores_update :: "'c policy_api \<Rightarrow> policy \<Rightarrow> policy \<Rightarrow> 'c world \<Rightarrow> bool" where
  "ignores_update papi inst managedPlc w \<longleftrightarrow>
     \<not> EquivalentReplicatedPolicies inst managedPlc \<and>
     (case polUpdate papi Managed (managedPlc\<lparr>p_annotations := p_annotations inst, p_spec := p_spec inst\<rparr>) (w_env w) of
        (Inl err, _) \<Rightarrow> \<not> IsNotFound err
      | (Inr _, _) \<Rightarrow> False)"

definition update_ignored :: "'c policy_api \<Rightarrow> spec_reconciler \<Rightarrow> namespaced_name \<Rightarrow> 'c world \<Rightarrow> bool" where
  "update_ignored papi r request w =
     (case call (polGet papi Hub request) w of
        (Inl _, _) \<Rightarrow> False
      | (Inr inst, w) \<Rightarrow>
          (case call (polGet papi Managed (nn (ss_targetNamespace r) (nn_name request))) w of
             (Inl err, w) \<Rightarrow>
               IsNotFound err \<and>
               (case act (PolicyCreate Managed (replicated_copy r inst))
                       (polCreate papi Managed (replicated_copy r inst)) w of
                  (Inl _, _) \<Rightarrow> False
                | (Inr managedPlc, w) \<Rightarrow> ignores_update papi inst managedPlc w)
           | (Inr managedPlc, w) \<Rightarrow> ignores_update papi inst managedPlc w))"

interpretation spec_pause: pausing "\<lambda>b. Reconcile_spec b papi r" for papi r
  by unfold_locales (simp add: Reconcile_spec_def)

section \<open>What one reconcile touches\<close>

text \<open>An action of the controller is about the managed copy of the requested policy.\<close>

fun about_replica :: "namespaced_name \<Rightarrow> effect \<Rightarrow> bool" where
  "about_replica k (PolicyCreate cl p) \<longleftrightarrow> cl = Managed \<and> policy_nn p = k"
| "about_replica k (PolicyUpdate cl p) \<longleftrightarrow> cl = Managed \<and> policy_nn p = k"
| "about_replica k (PolicyDelete cl k') \<longleftrightarrow> cl = Managed \<and> k' = k"
| "about_replica k (Recorded cl k' ty rsn txt) \<longleftrightarrow> cl = Managed \<and> k' = k \<and> rsn = ''PolicySpecSync''"
| "about_replica k (StatusSyncRequest k') \<longleftrightarrow> k' = k"
| "about_replica k _ \<longleftrightarrow> False"

definition in_agreement ::
  "'c policy_lookup \<Rightarrow> spec_reconciler \<Rightarrow> string \<Rightarrow> 'c \<Rightarrow> string \<Rightarrow> bool" where
  "in_agreement look r hubNamespace c name =
     (case look Hub (nn hubNamespace name) c of
        None \<Rightarrow> (case look Managed (nn (ss_targetNamespace r) name) c of
                   None \<Rightarrow> True | Some q \<Rightarrow> p_deleting q)
      | Some p \<Rightarrow> (case look Managed (nn (ss_targetNamespace r) name) c of
                   None \<Rightarrow> False | Some q \<Rightarrow> EquivalentReplicatedPolicies p q))"

lemma policy_nn_copy [simp]:
  "policy_nn (replicated_copy r p) = nn (ss_targetNamespace r) (p_name p)"
  "p_spec (replicated_copy r p) = p_spec p"
  "p_annotations (replicated_copy r p) = p_annotations p"
  by (simp_all add: replicated_copy_def policy_nn_def Let_def)

context policy_store
begin

lemma look_name: "look cl (nn ns name) c = Some p \<Longrightarrow> p_namespace p = ns \<and> p_name p = name"
  using look_nn [of cl "nn ns name" c p] by (simp add: policy_nn_def)

lemma update_same:
  assumes "act eff (polUpdate papi cl p) w = (Inr q, w')"
  shows "look cl (policy_nn p) (w_env w') = Some q" and "p_spec q = p_spec p"
    and "p_annotations q = p_annotations p" and "policy_nn q = policy_nn p"
  using act_update(1) [OF assms] by (auto simp: same_object_def policy_nn_def)

lemma create_same:
  assumes "act eff (polCreate papi cl p) w = (Inr q, w')"
  shows "look cl (policy_nn p) (w_env w') = Some q" and "p_spec q = p_spec p"
    and "p_annotations q = p_annotations p" and "policy_nn q = policy_nn p"
  using act_create(1) [OF assms] by (auto simp: same_object_def policy_nn_def)

text \<open>The comparison leaves everything but the managed copy alone.\<close>

lemma compare_and_update_look:
  assumes "compare_and_update papi r p q w = (res, w')"
    and "(cl, k) \<noteq> (Managed, policy_nn q)"
  shows "look cl k (w_env w') = look cl k (w_env w)"
  using assms act_update(2)
  by (fastforce simp: compare_and_update_def Let_def split: if_splits prod.splits sum.splits)

lemma compare_and_update_log:
  assumes "compare_and_update papi r p q w = (res, w')"
  shows "\<exists>es. w_log w' = w_log w @ es \<and> list_all (about_replica (policy_nn q)) es"
  using assms act_log update_same(4)
  by (fastforce simp: compare_and_update_def spec_event_def Let_def
      split: if_splits prod.splits sum.splits)

text \<open>The outcome of the comparison: without an error, the copy is equivalent unless the error of
  the update was ignored.\<close>

lemma compare_and_update_exact:
  assumes "compare_and_update papi r p q w = (Done, w')"
    and "look Managed (policy_nn q) (w_env w) = Some q"
  shows "\<exists>q'. look Managed (policy_nn q) (w_env w') = Some q' \<and>
    (EquivalentReplicatedPolicies p q' \<longleftrightarrow> \<not> ignores_update papi p q w)"
proof (cases "EquivalentReplicatedPolicies p q")
  case True
  then show ?thesis using assms
    by (auto simp: compare_and_update_def ignores_update_def split: if_splits)
next
  case False
  let ?q = "q\<lparr>p_annotations := p_annotations p, p_spec := p_spec p\<rparr>"
  obtain x c where p: "polUpdate papi Managed ?q (w_env w) = (x, c)" by fastforce
  then have u: "act (PolicyUpdate Managed ?q) (polUpdate papi Managed ?q) w = (x, \<lparr>w_env = c, w_log = w_log w @ [PolicyUpdate Managed ?q]\<rparr>)"
    by (simp add: act_def)
  show ?thesis
  proof (cases x)
    case (Inl e)
    then have "\<not> IsNotFound e" "w_env w' = c"
      using False assms(1) u by (auto simp: compare_and_update_def Let_def split: if_splits)
    then show ?thesis using False p Inl assms(2) act_update(2) [OF u, of Managed "policy_nn q"]
      by (simp add: ignores_update_def)
  next
    case (Inr q')
    then have "w_env w' = c" using False assms(1) u by (auto simp: compare_and_update_def Let_def)
    then show ?thesis using False p Inr update_same [OF u [unfolded Inr]]
      by (simp add: ignores_update_def EquivalentReplicatedPolicies_iff)
  qed
qed

text \<open>The reconcile of a policy that is on the hub.\<close>

lemma Reconcile_spec_found:
  assumes "call (polGet papi Hub k) w = (Inr h, w1)"
    and "call (polGet papi Managed (nn (ss_targetNamespace r) (nn_name k))) w1 = (y, w2)"
    and "act (PolicyCreate Managed (replicated_copy r h)) (polCreate papi Managed (replicated_copy r h)) w2 = (z, w3)"
  shows "Reconcile_spec False papi r k w = (case (y, w2) of
      (Inl err, w) \<Rightarrow>
        (if IsNotFound err then
           (case (z, w3) of
              (Inl err, w) \<Rightarrow> (Failed err, w)
            | (Inr q, w) \<Rightarrow> compare_and_update papi r h q (emit (spec_event q (synchronized_text r h)) w))
         else (Failed err, w))
    | (Inr q, w) \<Rightarrow> compare_and_update papi r h q w)"
  using assms by (cases y; cases z) (simp_all add: Reconcile_spec_def)

text \<open>The paths through a reconcile; \<open>m\<close> is the key of the managed copy.\<close>

lemma Reconcile_spec_cases:
  assumes run: "Reconcile_spec b papi r k w = (res, w')" and m: "m = nn (ss_targetNamespace r) (nn_name k)"
  obtains (paused) "b" "res = RequeueAfter 300" "w' = w"
  | (hub_error) e where "\<not> b" "call (polGet papi Hub k) w = (Inl e, w')" "\<not> IsNotFound e" "res = Failed e"
  | (gone) e w1 d where "\<not> b" "call (polGet papi Hub k) w = (Inl e, w1)" "IsNotFound e"
      "act (PolicyDelete Managed m) (polDelete papi Managed m) w1 = (d, w')"
      "res = (case d of None \<Rightarrow> Done | Some err \<Rightarrow> if \<not> IsNotFound err then Failed err else Done)"
  | (managed_error) h w1 e where "\<not> b" "call (polGet papi Hub k) w = (Inr h, w1)"
      "call (polGet papi Managed m) w1 = (Inl e, w')" "\<not> IsNotFound e" "res = Failed e"
  | (create_error) h w1 e w2 e2 where "\<not> b" "call (polGet papi Hub k) w = (Inr h, w1)"
      "call (polGet papi Managed m) w1 = (Inl e, w2)" "IsNotFound e" "policy_nn (replicated_copy r h) = m"
      "act (PolicyCreate Managed (replicated_copy r h)) (polCreate papi Managed (replicated_copy r h)) w2 = (Inl e2, w')"
      "res = Failed e2"
  | (created) h w1 e w2 q w3 where "\<not> b" "call (polGet papi Hub k) w = (Inr h, w1)"
      "call (polGet papi Managed m) w1 = (Inl e, w2)" "IsNotFound e" "policy_nn (replicated_copy r h) = m"
      "act (PolicyCreate Managed (replicated_copy r h)) (polCreate papi Managed (replicated_copy r h)) w2 = (Inr q, w3)"
      "policy_nn q = m" "compare_and_update papi r h q (emit (spec_event q (synchronized_text r h)) w3) = (res, w')"
  | (there) h w1 q w2 where "\<not> b" "call (polGet papi Hub k) w = (Inr h, w1)"
      "call (polGet papi Managed m) w1 = (Inr q, w2)" "policy_nn q = m" "compare_and_update papi r h q w2 = (res, w')"
proof (cases b)
  case True
  then show thesis using run paused by (simp add: Reconcile_spec_def)
next
  case b: False
  obtain x w1 where g: "call (polGet papi Hub k) w = (x, w1)" by fastforce
  show thesis
  proof (cases x)
    case (Inl e)
    obtain d w2 where "act (PolicyDelete Managed m) (polDelete papi Managed m) w1 = (d, w2)" by fastforce
    then show thesis using run b g Inl m hub_error gone
      by (auto simp: Reconcile_spec_def Let_def split: if_splits option.splits)
  next
    case (Inr h)
    have nn: "policy_nn (replicated_copy r h) = m"
      using look_nn [OF call_get(2) [OF g Inr]] m by (subst policy_nn_copy) (auto simp: policy_nn_def)
    obtain y w2 where g2: "call (polGet papi Managed m) w1 = (y, w2)" by fastforce
    obtain z w3 where c: "act (PolicyCreate Managed (replicated_copy r h))
        (polCreate papi Managed (replicated_copy r h)) w2 = (z, w3)" by fastforce
    note r = Reconcile_spec_found [OF g [unfolded Inr] g2 [unfolded m] c]
    show thesis
    proof (cases y)
      case y: (Inr q)
      show thesis
        by (rule there [OF b g [unfolded Inr] g2 [unfolded y]])
          (use look_nn call_get(2) [OF g2 y] r y run b in auto)
    next
      case y: (Inl e)
      show thesis
      proof (cases "IsNotFound e")
        case False
        then show thesis
          using managed_error [OF b g [unfolded Inr], of e] g2 y r run b by simp
      next
        case nf: True
        show thesis
        proof (cases z)
          case (Inl e2)
          then show thesis
            using create_error [OF b g [unfolded Inr] g2 [unfolded y] nf nn, of e2] c r y nf run b by simp
        next
          case z: (Inr q)
          show thesis
            by (rule created [OF b g [unfolded Inr] g2 [unfolded y] nf nn c [unfolded z]])
              (use create_same(4) [OF c [unfolded z]] nn r y nf z run b in simp_all)
        qed
      qed
    qed
  qed
qed

text \<open>The two halves of a reconcile: the hub policy is gone, or it is there.\<close>

lemma Reconcile_spec_gone:
  assumes "Reconcile_spec False papi r k w = (res, w')" and "look Hub k (w_env w) = None"
  shows "\<not> update_ignored papi r k w"
    and "res = Done \<Longrightarrow> (case look Managed (nn (ss_targetNamespace r) (nn_name k)) (w_env w') of
           None \<Rightarrow> True | Some q \<Rightarrow> p_deleting q)"
proof -
  have found: "\<not> call (polGet papi Hub k) w = (Inr h, w1)" for h w1
    using call_get(2) assms(2) by fastforce
  then show "\<not> update_ignored papi r k w"
    by (cases "call (polGet papi Hub k) w"; cases "fst (call (polGet papi Hub k) w)")
      (auto simp: update_ignored_def)
  assume ok: "res = Done"
  from assms(1) refl show "case look Managed (nn (ss_targetNamespace r) (nn_name k)) (w_env w') of
      None \<Rightarrow> True | Some q \<Rightarrow> p_deleting q"
  proof (cases rule: Reconcile_spec_cases)
    case (gone e w1 d)
    then show ?thesis using ok act_delete [OF gone(4)]
      by (cases d) (auto split: if_splits option.splits)
  qed (use found ok in auto)
qed

lemma Reconcile_spec_there:
  assumes "Reconcile_spec False papi r k w = (Done, w')" and "look Hub k (w_env w) = Some p"
  shows "\<exists>q. look Managed (nn (ss_targetNamespace r) (nn_name k)) (w_env w') = Some q \<and>
           (EquivalentReplicatedPolicies p q \<longleftrightarrow> \<not> update_ignored papi r k w)"
  using assms(1) refl
proof (cases rule: Reconcile_spec_cases)
  case (gone e w1 d)
  then show ?thesis using call_get(3) [OF gone(2)] assms(2) by simp
next
  case (created h w1 e w2 q w3)
  then have "h = p" using call_get(2) [OF created(2)] assms(2) by simp
  moreover have "update_ignored papi r k w \<longleftrightarrow> ignores_update papi h q w3"
    using created by (simp add: update_ignored_def)
  ultimately show ?thesis
    using compare_and_update_exact [OF created(8)] created(5,7) create_same(1) [OF created(6)]
    by (simp add: ignores_update_def)
next
  case (there h w1 q w2)
  then have "h = p" using call_get(2) [OF there(2)] assms(2) by simp
  moreover have "update_ignored papi r k w \<longleftrightarrow> ignores_update papi h q w2"
    using there by (simp add: update_ignored_def)
  ultimately show ?thesis
    using compare_and_update_exact [OF there(5)] there(4) call_get(1,2) [OF there(3)] by simp
qed simp_all

lemma Reconcile_spec_look:
  assumes "Reconcile_spec b papi r k w = (res, w')"
    and other: "(cl, k2) \<noteq> (Managed, nn (ss_targetNamespace r) (nn_name k))"
  shows "look cl k2 (w_env w') = look cl k2 (w_env w)"
  using assms(1) refl
proof (cases rule: Reconcile_spec_cases)
  case hub_error
  then show ?thesis using call_get(1) by blast
next
  case gone
  then show ?thesis using call_get(1) [OF gone(2)] act_delete(3) [OF gone(4)] other by auto
next
  case managed_error
  then show ?thesis using call_get(1) [OF managed_error(2)] call_get(1) [OF managed_error(3)] by simp
next
  case create_error
  then show ?thesis
    using call_get(1) [OF create_error(2)] call_get(1) [OF create_error(3)] act_create(2) [OF create_error(6)] by auto
next
  case created
  then show ?thesis
    using call_get(1) [OF created(2)] call_get(1) [OF created(3)] act_create(2) [OF created(6), of cl k2]
      compare_and_update_look [OF created(8), of cl k2] other by simp
next
  case there
  then show ?thesis
    using call_get(1) [OF there(2)] call_get(1) [OF there(3)] compare_and_update_look [OF there(5), of cl k2] other
    by simp
qed simp

lemma Reconcile_spec_log:
  assumes "Reconcile_spec b papi r k w = (res, w')"
  shows "\<exists>es. w_log w' = w_log w @ es \<and>
    list_all (about_replica (nn (ss_targetNamespace r) (nn_name k))) es"
  using assms refl
proof (cases rule: Reconcile_spec_cases)
  case hub_error
  then show ?thesis using call_log [OF hub_error(2)] by simp
next
  case gone
  then show ?thesis using call_log [OF gone(2)] act_log [OF gone(4)] by auto
next
  case managed_error
  then show ?thesis using call_log [OF managed_error(2)] call_log [OF managed_error(3)] by simp
next
  case create_error
  then show ?thesis
    using call_log [OF create_error(2)] call_log [OF create_error(3)] act_log [OF create_error(6)] by auto
next
  case created
  then show ?thesis
    using call_log [OF created(2)] call_log [OF created(3)] act_log [OF created(6)]
      compare_and_update_log [OF created(8)] by (auto simp: spec_event_def)
next
  case there
  then show ?thesis
    using call_log [OF there(2)] call_log [OF there(3)] compare_and_update_log [OF there(5)] by auto
qed simp

text \<open>A reconcile of a copy that agrees already.\<close>

lemma Reconcile_spec_quiet:
  assumes "Reconcile_spec b papi r k w = (res, w')"
    and "look Hub k (w_env w) = Some p"
    and "look Managed (nn (ss_targetNamespace r) (nn_name k)) (w_env w) = Some q"
    and "EquivalentReplicatedPolicies p q"
  shows "w_log w' = w_log w @
    (if res = Done \<and> p_status p \<noteq> p_status q then [StatusSyncRequest (policy_nn q)] else [])"
proof -
  let ?m = "nn (ss_targetNamespace r) (nn_name k)"
  obtain x w1 where g: "call (polGet papi Hub k) w = (x, w1)" by fastforce
  obtain y w3 where g2: "call (polGet papi Managed ?m) w1 = (y, w3)" by fastforce
  have x: "x = Inr p \<or> (\<exists>e. x = Inl e \<and> \<not> IsNotFound e)"
    using call_get(2,3) [OF g] assms(2) by (cases x) auto
  have "look Managed ?m (w_env w1) = Some q" using call_get(1) [OF g] assms(3) by simp
  then have y: "y = Inr q \<or> (\<exists>e. y = Inl e \<and> \<not> IsNotFound e)"
    using call_get(2,3) [OF g2] by (cases y) auto
  show ?thesis
    using assms(1,4) g g2 x y call_log [OF g] call_log [OF g2]
    by (auto simp: Reconcile_spec_def compare_and_update_def Let_def split: if_splits)
qed

end

text \<open>The controller meets the contract of a replicator that loses the updates whose error it ignores.\<close>

sublocale policy_store \<subseteq> spec: lossy_replicator
  "\<lambda>name. Reconcile_spec False papi r (nn hubNamespace name)" "in_agreement look r hubNamespace"
  "\<lambda>name. update_ignored papi r (nn hubNamespace name)" for r hubNamespace
proof
  fix k w w'
  assume s: "Reconcile_spec False papi r (nn hubNamespace k) w = (Done, w')"
  have hub: "look Hub (nn hubNamespace k) (w_env w') = look Hub (nn hubNamespace k) (w_env w)"
    by (rule Reconcile_spec_look [OF s]) simp
  show "in_agreement look r hubNamespace (w_env w') k \<longleftrightarrow> \<not> update_ignored papi r (nn hubNamespace k) w"
  proof (cases "look Hub (nn hubNamespace k) (w_env w)")
    case None
    then show ?thesis using Reconcile_spec_gone [OF s None] hub by (simp add: in_agreement_def)
  next
    case (Some p)
    then show ?thesis using Reconcile_spec_there [OF s Some] hub by (auto simp: in_agreement_def)
  qed
next
  fix k w res w' k'
  assume s: "Reconcile_spec False papi r (nn hubNamespace k) w = (res, w')" and "k' \<noteq> k"
  then have "look Managed (nn (ss_targetNamespace r) k') (w_env w') =
      look Managed (nn (ss_targetNamespace r) k') (w_env w)"
    by (intro Reconcile_spec_look [OF s]) simp
  moreover have "look Hub (nn hubNamespace k') (w_env w') = look Hub (nn hubNamespace k') (w_env w)"
    by (rule Reconcile_spec_look [OF s]) simp
  ultimately show "in_agreement look r hubNamespace (w_env w') k' \<longleftrightarrow> in_agreement look r hubNamespace (w_env w) k'"
    by (simp add: in_agreement_def split: option.split)
qed

context policy_store
begin

lemma queue_exact:
  assumes "work_off (\<lambda>name. Reconcile_spec False papi r (nn hubNamespace name)) names w = (rs, w')"
    and "set rs \<subseteq> {Done}" and "name \<in> set names"
  shows "in_agreement look r hubNamespace (w_env w') name \<longleftrightarrow>
    \<not> last_lost (\<lambda>name. Reconcile_spec False papi r (nn hubNamespace name))
        (\<lambda>name. update_ignored papi r (nn hubNamespace name)) name names w"
  using assms by (rule spec.work_off_exact)

end

section \<open>Properties\<close>

text \<open>A hub with two policies, one of which is on the managed cluster in an old version next
  to a policy that the hub no longer has.\<close>

definition sample_spec :: "string \<Rightarrow> policy_spec" where
  "sample_spec other = \<lparr>sp_disabled = False, sp_remediationAction = ''inform'',
     sp_dependencies = [], sp_templates = [], sp_other = other\<rparr>"

definition sample_policy :: "string \<Rightarrow> string \<Rightarrow> string \<Rightarrow> policy" where
  "sample_policy ns name other =
     \<lparr>p_name = name, p_namespace = ns, p_uid = ''1'', p_kind = PolicyKind,
      p_apiVersion = APIGroup @ ''/v1'', p_generation = 1, p_resourceVersion = ''7'',
      p_deleting = False,
      p_labels = Map.empty(ClusterNamespaceLabel \<mapsto> ns), p_annotations = Map.empty,
      p_owners = [], p_finalizers = [], p_spec = sample_spec other,
      p_status = \<lparr>s_placement = [], s_clusters = [], s_compliance = [], s_details = []\<rparr>\<rparr>"

definition sample_mem :: mem where
  "sample_mem = mem_put Hub (sample_policy ''c1'' ''a'' ''new'') (mem_put Hub (sample_policy ''c1'' ''b'' ''x'')
     (mem_put Managed (sample_policy ''managed'' ''a'' ''old'')
       (mem_put Managed (sample_policy ''managed'' ''gone'' ''x'') (\<lambda>_ _. None))))"

definition sample_spec_reconciler :: spec_reconciler where
  "sample_spec_reconciler = \<lparr>ss_targetNamespace = ''managed''\<rparr>"

text \<open>C3. Over a hub and a managed cluster that behave as documented, once a queue of requests has
  been worked off without an error, a requested policy is in agreement exactly when the last of its
  reconciles did not ignore an error of its update: the copy on the managed cluster has the
  annotations and the spec of the policy on the hub, and a policy that is not on the hub is not on
  the managed cluster either (or is being deleted there). An ignored error, a conflict for one, is
  the only way to be left behind; the order of the requests and their repetition do not matter
  otherwise.\<close>

theorem spec_sync_converges:
  assumes "policy_store papi look"
    and "work_off (\<lambda>name. Reconcile_spec False papi r (nn hubNamespace name)) names w = (rs, w')"
    and "set rs \<subseteq> {Done}"
    and "name \<in> set names"
  shows "in_agreement look r hubNamespace (w_env w') name \<longleftrightarrow>
    \<not> last_lost (\<lambda>name. Reconcile_spec False papi r (nn hubNamespace name))
        (\<lambda>name. update_ignored papi r (nn hubNamespace name)) name names w"
  by (rule policy_store.queue_exact [OF assms])

lemma sample_spec_sync:
  "fst (work_off (\<lambda>name. Reconcile_spec False mem_papi sample_spec_reconciler (nn ''c1'' name))
     [''gone'', ''a''] \<lparr>w_env = sample_mem, w_log = []\<rparr>) = [Done, Done]"
  "\<not> last_lost (\<lambda>name. Reconcile_spec False mem_papi sample_spec_reconciler (nn ''c1'' name))
     (\<lambda>name. update_ignored mem_papi sample_spec_reconciler (nn ''c1'' name)) ''a''
     [''gone'', ''a''] \<lparr>w_env = sample_mem, w_log = []\<rparr>"
  by (simp_all add: Reconcile_spec_def update_ignored_def ignores_update_def compare_and_update_def call_def
      act_def mem_defs sample_mem_def sample_policy_def sample_spec_def sample_spec_reconciler_def policy_nn_def
      EquivalentReplicatedPolicies_iff)

theorem spec_sync_converges_witness:
  "in_agreement mem_look sample_spec_reconciler ''c1''
     (w_env (snd (work_off
       (\<lambda>name. Reconcile_spec False mem_papi sample_spec_reconciler (nn ''c1'' name))
       [''gone'', ''a''] \<lparr>w_env = sample_mem, w_log = []\<rparr>))) ''a''"
  by (subst spec_sync_converges [OF mem_store.policy_store_axioms prod.collapse [symmetric]])
    (use sample_spec_sync in simp_all)

text \<open>C29. A reconcile of a policy writes to nothing but the managed copy of that policy: the
  hub and every other policy of the managed cluster stay as they are, and every action it
  attempts is a create, an update or a delete of that copy, an event on it, or a request to
  status-sync for it.\<close>

theorem spec_sync_frame:
  assumes "policy_store papi look"
    and "Reconcile_spec b papi r request w = (res, w')"
  shows "look Hub k (w_env w') = look Hub k (w_env w)
    \<and> (k \<noteq> nn (ss_targetNamespace r) (nn_name request) \<longrightarrow>
        look Managed k (w_env w') = look Managed k (w_env w))
    \<and> (\<exists>es. w_log w' = w_log w @ es \<and>
        list_all (about_replica (nn (ss_targetNamespace r) (nn_name request))) es)"
  using policy_store.Reconcile_spec_look [OF assms] policy_store.Reconcile_spec_log [OF assms]
  by simp

theorem spec_sync_frame_witness:
  "mem_look Hub (nn ''c1'' ''b'') (w_env (snd (Reconcile_spec False mem_papi sample_spec_reconciler
       (nn ''c1'' ''a'') \<lparr>w_env = sample_mem, w_log = []\<rparr>))) =
     mem_look Hub (nn ''c1'' ''b'') sample_mem"
  using spec_sync_frame [OF mem_store.policy_store_axioms prod.collapse [symmetric],
      where b = False and r = sample_spec_reconciler and request = "nn ''c1'' ''a''" and w = "\<lparr>w_env = sample_mem, w_log = []\<rparr>"
        and k = "nn ''c1'' ''b''"]
  by simp

text \<open>A reconcile of a policy whose copy agrees already writes nothing to either cluster;
  when the status on the hub differs it asks status-sync to update it, and otherwise it does
  nothing at all. So a second reconcile after a successful one is without effect.\<close>

theorem spec_sync_quiescent:
  assumes "policy_store papi look"
    and "Reconcile_spec b papi r request w = (res, w')"
    and "look Hub request (w_env w) = Some p"
    and "look Managed (nn (ss_targetNamespace r) (nn_name request)) (w_env w) = Some q"
    and "EquivalentReplicatedPolicies p q"
  shows "w_log w' = w_log w @
    (if res = Done \<and> p_status p \<noteq> p_status q then [StatusSyncRequest (policy_nn q)] else [])"
  by (rule policy_store.Reconcile_spec_quiet [OF assms])

definition sample_synced :: mem where
  "sample_synced = mem_put Hub (sample_policy ''c1'' ''a'' ''x'')
     (mem_put Managed (sample_policy ''managed'' ''a'' ''x'') (\<lambda>_ _. None))"

theorem spec_sync_quiescent_witness:
  "w_log (snd (Reconcile_spec False mem_papi sample_spec_reconciler (nn ''c1'' ''a'')
     \<lparr>w_env = sample_synced, w_log = []\<rparr>)) = []"
  using spec_sync_quiescent [OF mem_store.policy_store_axioms prod.collapse [symmetric],
      of "nn ''c1'' ''a''" "\<lparr>w_env = sample_synced, w_log = []\<rparr>"
        "sample_policy ''c1'' ''a'' ''x''" sample_spec_reconciler
        "sample_policy ''managed'' ''a'' ''x''" False]
  by (simp add: sample_synced_def sample_spec_reconciler_def sample_policy_def policy_nn_def
      EquivalentReplicatedPolicies_iff)

text \<open>C31. An update of the managed copy that fails with anything but "not found", a conflict
  for one, is not reported: the reconcile records the event that the policy was updated and
  returns without an error, so the request is not queued again although the managed copy is
  still the old one.\<close>

theorem spec_sync_update_error_swallowed:
  assumes "polGet papi Hub request (w_env w) = (Inr p, c1)"
    and "polGet papi Managed (nn (ss_targetNamespace r) (nn_name request)) c1 = (Inr q, c2)"
    and "\<not> EquivalentReplicatedPolicies p q"
    and "polUpdate papi Managed (q\<lparr>p_annotations := p_annotations p, p_spec := p_spec p\<rparr>) c2
      = (Inl e, c3)"
    and "\<not> IsNotFound e"
  shows "Reconcile_spec False papi r request w =
    (Done, \<lparr>w_env = c3, w_log = w_log w @
       [PolicyUpdate Managed (q\<lparr>p_annotations := p_annotations p, p_spec := p_spec p\<rparr>),
        Recorded Managed (policy_nn q) ''Normal'' ''PolicySpecSync'' (updated_text r p)]\<rparr>)"
  using assms
  by (simp add: Reconcile_spec_def compare_and_update_def callsimps emit_def spec_event_def
      policy_nn_def)

definition conflict_papi :: "mem policy_api" where
  "conflict_papi = mem_papi\<lparr>polUpdate := \<lambda>_ _ m. (Inl (GErr Conflict ''conflict''), m)\<rparr>"

theorem spec_sync_update_error_swallowed_witness:
  "fst (Reconcile_spec False conflict_papi sample_spec_reconciler (nn ''c1'' ''a'')
      \<lparr>w_env = sample_mem, w_log = []\<rparr>) = Done"
  using spec_sync_update_error_swallowed [of conflict_papi "nn ''c1'' ''a''"
      "\<lparr>w_env = sample_mem, w_log = []\<rparr>" "sample_policy ''c1'' ''a'' ''new''" sample_mem
      sample_spec_reconciler "sample_policy ''managed'' ''a'' ''old''" sample_mem
      "GErr Conflict ''conflict''" sample_mem]
  by (simp add: conflict_papi_def mem_papi_def mem_get_look sample_mem_def sample_policy_def
      sample_spec_reconciler_def policy_nn_def EquivalentReplicatedPolicies_iff sample_spec_def
      IsNotFound_def)

end
