(* ===== verification/StatusHistory.thy ===== *)
theory StatusHistory
  imports Utils
begin

text \<open>
  The pure part of the status-sync controller (\<^verbatim>\<open>controllers/statussync/policy_status_sync.go\<close>):
  reading the time, the compliance and the template out of an event, collecting the events of
  a policy and of its templates, and merging them with the history that the policy status
  already has.

  The definitions come first, in the order in which they use each other. The lemmas show that
  the reader of events inverts their sender (\<open>status_events\<close> interprets the contract of theory
  \<open>Utils\<close>), that the merged history is bounded, ordered and made of the candidates only, that
  the bounded loop computes the plain specification \<open>distinct_runs\<close>, and that merging twice
  gives what merging once gives, so that a reconcile with nothing new writes nothing.
\<close>

section \<open>Event names, messages and reasons\<close>

definition policyID :: "string \<Rightarrow> string \<Rightarrow> object_identifier" where
  "policyID name namespace =
     \<lparr>oi_group = APIGroup, oi_version = APIVersion, oi_kind = ''Policy'',
      oi_namespace = namespace, oi_name = name\<rparr>"

definition parseTimestampFromEventName :: "string \<Rightarrow> time option" where
  "parseTimestampFromEventName eventName = ParseInt16 (last (Split eventName CHR ''.''))"

definition combined_prefix :: string where
  "combined_prefix = ''(combined from similar events):''"

definition parseComplianceFromMessage :: "string \<Rightarrow> string" where
  "parseComplianceFromMessage message =
     (let cleanMsg = ToLower (TrimSpace (TrimPrefix message combined_prefix))
      in if HasPrefix cleanMsg ''compliant'' then Compliant
         else if HasPrefix cleanMsg ''pending'' then Pending
         else NonCompliant)"

text \<open>
  The regular expression \<^verbatim>\<open>(?i)^policy:\s*(?:([a-z0-9.-]+)\s*\/)?(.+)\<close>, as the list of its
  matches in order of preference, each with the optional first and the second group.
\<close>

definition rx_namespace :: "char \<Rightarrow> bool" where
  "rx_namespace c \<longleftrightarrow>
     (let n = of_char c :: nat in
      97 \<le> n \<and> n \<le> 122 \<or> 65 \<le> n \<and> n \<le> 90 \<or> 48 \<le> n \<and> n \<le> 57
      \<or> c = CHR ''.'' \<or> c = CHR ''-'')"

definition rgx_group :: "string \<Rightarrow> (string \<times> string) list" where
  "rgx_group s =
     concat (map (\<lambda>(ns, r). concat (map (\<lambda>(_, r).
       (case r of
          [] \<Rightarrow> []
        | c # r \<Rightarrow> if c = CHR ''/'' then map (\<lambda>(m, _). (ns, m)) (greedy1 rx_any r) else []))
       (greedy rx_space r))) (greedy1 rx_namespace s))"

definition rgx :: "string \<Rightarrow> (string option \<times> string) list" where
  "rgx s =
     concat (map (\<lambda>r. concat (map (\<lambda>(_, r).
         map (\<lambda>(ns, m). (Some ns, m)) (rgx_group r)
         @ map (\<lambda>(m, _). (None, m)) (greedy1 rx_any r))
       (greedy rx_space r))) (literal_fold ''policy:'' s))"

text \<open>The second group of \<^verbatim>\<open>FindStringSubmatch\<close>, absent when nothing matches.\<close>

definition reason_template :: "string \<Rightarrow> string option" where
  "reason_template rsn = (case rgx rsn of [] \<Rightarrow> None | (_, templateName) # _ \<Rightarrow> Some templateName)"

definition policiesv1APIVersion :: string where
  "policiesv1APIVersion = APIGroup @ ''/'' @ APIVersion"

section \<open>Collecting events\<close>

type_synonym event_map = "string \<Rightarrow> history list"

definition history_of_event :: "kevent \<Rightarrow> history" where
  "history_of_event event =
     \<lparr>h_time = ev_last event,
      h_message = TrimSpace (TrimPrefix (ev_message event) combined_prefix),
      h_event = ev_name event\<rparr>"

fun events_for_policy :: "string \<Rightarrow> kevent list \<Rightarrow> event_map \<Rightarrow> event_map" where
  "events_for_policy uid [] m = m"
| "events_for_policy uid (event # events) m =
     (case reason_template (ev_reason event) of
        Some templateName \<Rightarrow>
          (if ref_uid (ev_involved event) = uid
           then events_for_policy uid events
                  (m(templateName := m templateName @ [history_of_event event]))
           else events_for_policy uid events m)
      | None \<Rightarrow> events_for_policy uid events m)"

definition getEventsInCluster ::
  "'c event_api \<Rightarrow> policy \<Rightarrow> 'c world \<Rightarrow> (gerr + event_map) \<times> 'c world" where
  "getEventsInCluster eapi inst w =
     (case call (evList eapi (p_namespace inst)) w of
        (Inl err, w) \<Rightarrow> (Inl err, w)
      | (Inr eventList, w) \<Rightarrow> (Inr (events_for_policy (p_uid inst) eventList (\<lambda>_. [])), w))"

fun template_history :: "klib \<Rightarrow> string \<Rightarrow> json list \<Rightarrow> history list" where
  "template_history lib policyName [] = []"
| "template_history lib policyName (ev # evs) =
     (case historyEvent lib ev of
        None \<Rightarrow> template_history lib policyName evs
      | Some (lastTimestamp, message) \<Rightarrow>
          (if lastTimestamp = zero_time \<or> message = [] then template_history lib policyName evs
           else \<lparr>h_time = lastTimestamp, h_message = TrimSpace message,
                 h_event = event_name policyName lastTimestamp\<rparr>
                # template_history lib policyName evs))"

definition getEventsInTemplate :: "klib \<Rightarrow> unstr option \<Rightarrow> string \<Rightarrow> history list" where
  "getEventsInTemplate lib tmplUnstruct policyName =
     (case tmplUnstruct of
        None \<Rightarrow> []
      | Some u \<Rightarrow>
          (case nestedSlice lib (u_content u) [''status'', ''history''] of
             (events, found, err) \<Rightarrow>
               if \<not> found \<or> err then [] else template_history lib policyName events))"

fun policy_owner :: "owner_ref list \<Rightarrow> string" where
  "policy_owner [] = []"
| "policy_owner (r # rs) = (if or_kind r = PolicyKind then or_name r else policy_owner rs)"

definition templateOwnedByPolicy :: "unstr option \<Rightarrow> string \<Rightarrow> bool" where
  "templateOwnedByPolicy obj policyName =
     (case obj of
        None \<Rightarrow> False
      | Some u \<Rightarrow>
          (let refName = policy_owner (u_owners u);
               refName = (if refName = [] then lookup_str (map_of (u_labels u)) ParentPolicyLabel else refName)
           in refName \<noteq> [] \<and> refName = policyName))"

section \<open>Merging the history of a template\<close>

definition timestampsWithin :: "time \<Rightarrow> time \<Rightarrow> int \<Rightarrow> bool" where
  "timestampsWithin ts1 ts2 threshold =
     (let low = ts1 + (- 1) * threshold; high = ts1 + threshold in low < ts2 \<and> ts2 < high)"

text \<open>\<^verbatim>\<open>metav1.Time.Rfc3339Copy\<close>: the instant with the precision of seconds, truncated.\<close>

definition Rfc3339Copy :: "time \<Rightarrow> time" where
  "Rfc3339Copy t = t div Second * Second"

text \<open>The search for existing details: a \<^verbatim>\<open>nil\<close> entry before the match is dereferenced, which
  is the outer \<^term>\<open>None\<close>.\<close>

fun find_details :: "string \<Rightarrow> details option list \<Rightarrow> details option option" where
  "find_details tName [] = Some None"
| "find_details tName (None # dpts) = None"
| "find_details tName (Some dpt # dpts) =
     (if d_name dpt = tName then Some (Some dpt) else find_details tName dpts)"

fun add_old_events :: "history list \<Rightarrow> history list \<Rightarrow> history list" where
  "add_old_events events [] = events"
| "add_old_events events (oldEvent # oldEvents) =
     (if list_ex (\<lambda>foundEvent. h_event foundEvent = h_event oldEvent) events
      then add_old_events events oldEvents
      else add_old_events (events @ [oldEvent]) oldEvents)"

definition precise :: "history \<Rightarrow> history" where
  "precise event =
     (case parseTimestampFromEventName (h_event event) of
        None \<Rightarrow> event
      | Some ts \<Rightarrow> event\<lparr>h_time := ts\<rparr>)"

definition too_similar :: "history \<Rightarrow> history \<Rightarrow> bool" where
  "too_similar previous event \<longleftrightarrow>
     timestampsWithin (h_time event) (h_time previous) (5 * Microsecond)
     \<and> h_message event = h_message previous"

fun dedup_rest :: "history \<Rightarrow> history list \<Rightarrow> history list \<Rightarrow> history list" where
  "dedup_rest previous deduped [] = deduped"
| "dedup_rest previous deduped (event # events) =
     (if length deduped = 10 then deduped
      else if too_similar previous event then dedup_rest event deduped events
      else dedup_rest event (deduped @ [event]) events)"

fun dedup_history :: "history list \<Rightarrow> history list" where
  "dedup_history [] = []"
| "dedup_history (event # events) = dedup_rest event [event] events"

definition truncate_time :: "history \<Rightarrow> history" where
  "truncate_time event = event\<lparr>h_time := Rfc3339Copy (h_time event)\<rparr>"

definition merge_history :: "history list \<Rightarrow> history list \<Rightarrow> history list" where
  "merge_history events oldEvents =
     map truncate_time (dedup_history
       (SortStableDesc h_time (map precise (add_old_events events oldEvents))))"

definition mergeDetails ::
  "history list \<Rightarrow> details option list \<Rightarrow> string \<Rightarrow> details option" where
  "mergeDetails events existingDPTs tName =
     (case find_details tName existingDPTs of
        None \<Rightarrow> None
      | Some existing \<Rightarrow>
          (let details = (case existing of
                 None \<Rightarrow> \<lparr>d_name = tName, d_compliance = [], d_history = []\<rparr>
               | Some dpt \<Rightarrow> dpt);
               hist = merge_history events (d_history details);
               details = details\<lparr>d_history := hist\<rparr>
           in Some (case hist of
                [] \<Rightarrow> details
              | h # _ \<Rightarrow> details\<lparr>d_compliance := parseComplianceFromMessage (h_message h)\<rparr>)))"

section \<open>The reader inverts the sender\<close>

lemma parseTimestamp_event_name:
  "in_int64 t \<Longrightarrow> parseTimestampFromEventName (event_name owner t) = Some t"
  using last_Split_append [OF dot_not_in_fmt_x, of owner t]
  by (simp add: parseTimestampFromEventName_def event_name_def ParseInt16_fmt_x)

lemma ToLower_append: "ToLower (s @ t) = ToLower s @ ToLower t"
  by (simp add: ToLower_def)

lemma ToLower_states [simp]:
  "ToLower (Compliant @ '';'') = ''compliant;''"
  "ToLower (NonCompliant @ '';'') = ''noncompliant;''"
  "ToLower (Pending @ '';'') = ''pending;''"
  by code_simp+

text \<open>Trimming a message keeps the state that it starts with.\<close>

lemma state_prefix_trimmed:
  assumes "c \<in> {Compliant, NonCompliant, Pending}"
  shows "\<exists>t'. TrimSpace (TrimPrefix ((c @ '';'') @ t) combined_prefix) = (c @ '';'') @ t'"
proof -
  have "\<not> HasPrefix ((c @ '';'') @ t) combined_prefix"
    using assms by (auto simp: HasPrefix_def combined_prefix_def compliance_defs)
  then have "TrimPrefix ((c @ '';'') @ t) combined_prefix = (c @ '';'') @ t"
    by (simp add: TrimPrefix_def)
  moreover have "\<exists>t'. TrimSpace ((c @ '';'') @ t) = (c @ '';'') @ t'"
    using assms by (intro TrimSpace_prefix) (auto simp: compliance_defs is_space_def)
  ultimately show ?thesis by simp
qed

lemma parseCompliance_prefix:
  assumes "c \<in> {Compliant, NonCompliant, Pending}"
  shows "parseComplianceFromMessage ((c @ '';'') @ t) = c"
proof -
  obtain t' where "TrimSpace (TrimPrefix ((c @ '';'') @ t) combined_prefix) = (c @ '';'') @ t'"
    using state_prefix_trimmed [OF assms] by blast
  then have "ToLower (TrimSpace (TrimPrefix ((c @ '';'') @ t) combined_prefix)) =
      ToLower (c @ '';'') @ ToLower t'"
    by (simp only: ToLower_append)
  then show ?thesis
    using assms unfolding parseComplianceFromMessage_def by (auto simp: HasPrefix_def)
qed

lemma compliance_message_prefix: "compliance_message c msg = (c @ '';'') @ '' '' @ msg"
  by (simp add: compliance_message_def)

lemma parseCompliance_message:
  "c \<in> {Compliant, NonCompliant, Pending} \<Longrightarrow>
     parseComplianceFromMessage (compliance_message c msg) = c"
  unfolding compliance_message_prefix by (rule parseCompliance_prefix)

lemma parseCompliance_history:
  assumes "c \<in> {Compliant, NonCompliant, Pending}"
    and "ev_message event = compliance_message c msg"
  shows "parseComplianceFromMessage (h_message (history_of_event event)) = c"
  using state_prefix_trimmed [OF assms(1), of "'' '' @ msg"] parseCompliance_prefix [OF assms(1)]
  by (auto simp: history_of_event_def assms(2) compliance_message_prefix)

definition namespace_ok :: "string \<Rightarrow> bool" where
  "namespace_ok ns \<longleftrightarrow> list_all rx_namespace ns"

definition name_ok :: "string \<Rightarrow> bool" where
  "name_ok n \<longleftrightarrow> n \<noteq> [] \<and> \<not> rx_space (hd n) \<and> list_all (\<lambda>c. c \<noteq> CHR ''/'' \<and> rx_any c) n"

lemma rx_namespace_not: "rx_namespace c \<Longrightarrow> \<not> rx_space c \<and> c \<noteq> CHR ''/''"
  by (auto simp: rx_namespace_def rx_space_def Let_def)

lemma greedy_no_match: "s = [] \<or> \<not> P (hd s) \<Longrightarrow> greedy P s = [([], s)]"
  by (cases s) auto

text \<open>Without a slash the group that names a namespace cannot match.\<close>

lemma rgx_group_no_slash: "CHR ''/'' \<notin> set s \<Longrightarrow> rgx_group s = []"
  unfolding rgx_group_def
  by (auto dest!: greedy1_append greedy_append split: list.splits)

lemma rgx_group_slash:
  assumes "list_all rx_namespace ns" and "ns \<noteq> []" and "n \<noteq> []" and "list_all rx_any n"
  shows "\<exists>ms. rgx_group (ns @ CHR ''/'' # n) = (ns, n) # ms"
proof -
  have slash: "\<not> rx_namespace CHR ''/''" "\<not> rx_space CHR ''/''"
    by (simp_all add: rx_namespace_def rx_space_def)
  have tw: "takeWhile rx_namespace (ns @ CHR ''/'' # n) = ns"
      "dropWhile rx_namespace (ns @ CHR ''/'' # n) = CHR ''/'' # n"
    using assms(1) slash(1) by (auto simp: list_all_iff intro: takeWhile_all_stop)
  have any: "takeWhile rx_any n = n" using assms(4) by (simp add: list_all_iff)
  obtain ms where ms: "greedy1 rx_namespace (ns @ CHR ''/'' # n) = (ns, CHR ''/'' # n) # ms"
    using greedy1_first [of rx_namespace "ns @ CHR ''/'' # n"] tw assms(2) by auto
  obtain ms' where ms': "greedy1 rx_any n = (n, dropWhile rx_any n) # ms'"
    using greedy1_first [of rx_any n] any assms(3) by auto
  have "greedy rx_space (CHR ''/'' # n) = [([], CHR ''/'' # n)]"
    using slash(2) by (intro greedy_no_match) simp
  with ms ms' show ?thesis by (simp add: rgx_group_def)
qed

lemma literal_policy: "literal_fold ''policy:'' (''policy: '' @ s) = [CHR '' '' # s]"
  by (simp add: literal_fold_def EqualFold_def)

lemma rgx_after_space:
  assumes "s \<noteq> []" and "\<not> rx_space (hd s)"
  shows "\<exists>ms. rgx (''policy: '' @ s) =
    map (\<lambda>(ns, m). (Some ns, m)) (rgx_group s) @ map (\<lambda>(m, _). (None, m)) (greedy1 rx_any s) @ ms"
proof -
  have sp: "rx_space CHR '' ''" by (simp add: rx_space_def)
  have "greedy rx_space s = [([], s)]" using assms by (intro greedy_no_match) simp
  then have g: "greedy rx_space (CHR '' '' # s) = [('' '', s), ([], CHR '' '' # s)]"
    using sp by simp
  show ?thesis unfolding rgx_def literal_policy by (simp add: g del: greedy.simps)
qed

lemma reason_template_EventReason:
  assumes ns: "namespace_ok ns" and n: "name_ok n"
  shows "reason_template (EventReason ns n) = Some n"
proof (cases "ns = []")
  case True
  from n have "n \<noteq> []" "\<not> rx_space (hd n)" "CHR ''/'' \<notin> set n" "takeWhile rx_any n = n"
    by (auto simp: name_ok_def list_all_iff)
  moreover then obtain ms where "greedy1 rx_any n = (n, dropWhile rx_any n) # ms"
    by (metis greedy1_first)
  ultimately show ?thesis
    using True rgx_after_space [of n] rgx_group_no_slash [of n]
    by (auto simp: EventReason_def reason_template_def)
next
  case False
  from n have nn: "n \<noteq> []" "list_all rx_any n" by (auto simp: name_ok_def list_all_iff)
  obtain ms where ms: "rgx_group (ns @ CHR ''/'' # n) = (ns, n) # ms"
    using rgx_group_slash [OF _ False nn] ns by (auto simp: namespace_ok_def)
  have "\<not> rx_space (hd (ns @ CHR ''/'' # n))"
    using ns False by (cases ns) (auto simp: namespace_ok_def dest: rx_namespace_not)
  then show ?thesis
    using False ms rgx_after_space [of "ns @ CHR ''/'' # n"]
    by (auto simp: EventReason_def reason_template_def)
qed

interpretation status_events: event_protocol event_name parseTimestampFromEventName
  compliance_message parseComplianceFromMessage EventReason reason_template
  "{Compliant, NonCompliant, Pending}" namespace_ok name_ok
  by unfold_locales
    (auto intro: parseTimestamp_event_name parseCompliance_message reason_template_EventReason)

section \<open>The merged history\<close>

lemma timestampsWithin_iff: "timestampsWithin a b d \<longleftrightarrow> \<bar>a - b\<bar> < d"
  by (auto simp: timestampsWithin_def Let_def)

text \<open>The specification of the bounded loop: every event that is not too similar to the one
  just before it in the sorted list.\<close>

fun distinct_runs :: "history \<Rightarrow> history list \<Rightarrow> history list" where
  "distinct_runs previous [] = []"
| "distinct_runs previous (event # events) =
     (if too_similar previous event then [] else [event]) @ distinct_runs event events"

definition kept :: "history list \<Rightarrow> history list" where
  "kept events = (case events of [] \<Rightarrow> [] | event # events \<Rightarrow> event # distinct_runs event events)"

lemma dedup_rest_eq:
  "length acc \<le> 10 \<Longrightarrow> dedup_rest p acc es = take 10 (acc @ distinct_runs p es)"
proof (induction p acc es rule: dedup_rest.induct)
  case (2 p acc e es)
  show ?case
  proof (cases "length acc = 10")
    case False
    with "2.prems" have "length acc < 10" by simp
    then show ?thesis using "2.IH" False by (auto simp: take_Cons')
  qed simp
qed simp

lemma dedup_history_eq: "dedup_history es = take 10 (kept es)"
  by (cases es) (simp_all add: dedup_rest_eq kept_def)

lemma subseq_distinct_runs: "subseq (distinct_runs p es) es"
  by (induction es arbitrary: p) auto

lemma subseq_kept: "subseq (kept es) es"
  by (cases es) (auto simp: kept_def subseq_distinct_runs)

definition candidates :: "history list \<Rightarrow> history list \<Rightarrow> history list" where
  "candidates events oldEvents =
     SortStableDesc h_time (map precise (add_old_events events oldEvents))"

lemma merge_history_eq:
  "merge_history E D = map truncate_time (take 10 (kept (candidates E D)))"
  by (simp add: merge_history_def dedup_history_eq candidates_def)

lemma subseq_take_kept: "subseq (take n (kept es)) es"
  using subseq_kept subseq_order.order_trans list_emb_prefix
  by (meson prefix_imp_subseq subseq_order.trans take_is_prefix)

lemma merge_history_length: "length (merge_history E D) \<le> 10"
  by (simp add: merge_history_eq)

lemma set_add_old_events: "set E \<subseteq> set (add_old_events E D)"
    "set (add_old_events E D) \<subseteq> set E \<union> set D"
  by (induction E D rule: add_old_events.induct) auto

lemma set_candidates: "set (candidates E D) = precise ` set (add_old_events E D)"
  by (simp add: candidates_def)

lemma merge_history_set:
  "set (merge_history E D) \<subseteq> truncate_time ` precise ` (set E \<union> set D)"
proof -
  have "set (take 10 (kept (candidates E D))) \<subseteq> set (candidates E D)"
    by (auto elim: list_emb_set [OF subseq_take_kept])
  also have "\<dots> \<subseteq> precise ` (set E \<union> set D)"
    unfolding set_candidates by (intro image_mono set_add_old_events)
  finally show ?thesis unfolding merge_history_eq list.set_map by (rule image_mono)
qed

lemma Rfc3339Copy_mono: "s \<le> t \<Longrightarrow> Rfc3339Copy s \<le> Rfc3339Copy t"
  by (auto simp: Rfc3339Copy_def Second_def zdiv_mono1)

lemma candidates_sorted: "sorted_wrt (\<lambda>x y. h_time y \<le> h_time x) (candidates E D)"
  unfolding candidates_def by (rule SortStableDesc_sorted)

lemma merge_history_sorted:
  "sorted_wrt (\<lambda>x y. h_time y \<le> h_time x) (merge_history E D)"
  unfolding merge_history_eq
  by (rule sorted_wrt_map_mono [OF subseq_sorted_wrt [OF subseq_take_kept candidates_sorted]])
    (simp add: truncate_time_def Rfc3339Copy_mono)

lemma merge_history_hd:
  assumes "e \<in> set (add_old_events E D)"
  shows "\<exists>h hs. merge_history E D = h # hs \<and> Rfc3339Copy (h_time (precise e)) \<le> h_time h"
proof -
  have "precise e \<in> set (candidates E D)" using assms by (simp add: set_candidates)
  then obtain c cs where c: "candidates E D = c # cs" by (cases "candidates E D") auto
  with candidates_sorted [of E D] \<open>precise e \<in> _\<close> have "h_time (precise e) \<le> h_time c"
    by (auto split: if_splits)
  then show ?thesis
    by (simp add: merge_history_eq c kept_def truncate_time_def Rfc3339Copy_mono)
qed

lemma merge_history_eq_Nil: "merge_history E D = [] \<longleftrightarrow> E = [] \<and> D = []"
proof -
  have "add_old_events E D = [] \<longleftrightarrow> E = [] \<and> D = []"
    by (induction E D rule: add_old_events.induct) auto
  then show ?thesis
    by (cases "candidates E D") (auto simp: merge_history_eq kept_def candidates_def)
qed

section \<open>Merging again changes nothing\<close>

text \<open>
  An event's time survives the truncation when it is coded in the event's name, or when it is
  a whole second. Closeness in time is not transitive in general; \<open>runs_ok\<close> says that it is on
  the events at hand, which fails only if three events with one message lie in a row with
  gaps under five microseconds and a sum of gaps above.
\<close>

definition time_survives :: "history \<Rightarrow> bool" where
  "time_survives e \<longleftrightarrow>
     parseTimestampFromEventName (h_event e) \<noteq> None \<or> Rfc3339Copy (h_time e) = h_time e"

definition runs_ok :: "history list \<Rightarrow> bool" where
  "runs_ok es \<longleftrightarrow>
     (\<forall>a\<in>set es. \<forall>b\<in>set es. \<forall>c\<in>set es. too_similar a b \<longrightarrow> too_similar b c \<longrightarrow> too_similar a c)"

lemma runs_ok_mono: "runs_ok ys \<Longrightarrow> set xs \<subseteq> set ys \<Longrightarrow> runs_ok xs"
  unfolding runs_ok_def by blast

lemma runs_okD:
  "runs_ok es \<Longrightarrow> {a, b, c} \<subseteq> set es \<Longrightarrow> too_similar a b \<Longrightarrow> too_similar b c \<Longrightarrow> too_similar a c"
  unfolding runs_ok_def by blast

lemma too_similar_refl [simp]: "too_similar e e"
  by (simp add: too_similar_def timestampsWithin_iff Microsecond_def)

lemma too_similar_sym: "too_similar a b \<Longrightarrow> too_similar b a"
  by (auto simp: too_similar_def timestampsWithin_iff)

text \<open>Dropping events that the loop would drop anyway does not change what it keeps.\<close>

lemma distinct_runs_filter:
  assumes "runs_ok (p' # p # es)" and "too_similar p' p"
    and "\<forall>e\<in>set (take n (distinct_runs p es)). Q e"
  shows "take n (distinct_runs p' (filter Q es)) = take n (distinct_runs p es)"
  using assms
proof (induction es arbitrary: p p' n)
  case (Cons e es)
  have ok: "runs_ok (p' # e # es)" "runs_ok (e # e # es)"
    by (auto intro: runs_ok_mono [OF Cons.prems(1)])
  have "too_similar p' e" if "too_similar p e"
    by (rule runs_okD [OF Cons.prems(1) _ Cons.prems(2) that]) simp
  moreover have "too_similar p e" if "too_similar p' e"
    by (rule runs_okD [OF Cons.prems(1) _ too_similar_sym [OF Cons.prems(2)] that]) simp
  ultimately have tr: "too_similar p e \<longleftrightarrow> too_similar p' e" by blast
  show ?case
  proof (cases "too_similar p e")
    case True
    then have Q: "\<forall>x\<in>set (take n (distinct_runs e es)). Q x" using Cons.prems(3) by simp
    show ?thesis
    proof (cases "Q e")
      case Qe: True
      with True tr Cons.IH [OF ok(2) _ Q] show ?thesis by simp
    next
      case False
      with True tr Cons.IH [OF ok(1) _ Q] show ?thesis by simp
    qed
  next
    case False
    show ?thesis
    proof (cases n)
      case (Suc m)
      with False Cons.prems(3) have "Q e" "\<forall>x\<in>set (take m (distinct_runs e es)). Q x" by simp_all
      with False tr Suc Cons.IH [OF ok(2)] show ?thesis by simp
    qed simp
  qed
qed simp

lemma kept_filter:
  assumes "runs_ok es" and "\<forall>e\<in>set (take n (kept es)). Q e"
  shows "take n (kept (filter Q es)) = take n (kept es)"
proof (cases es)
  case (Cons e es')
  show ?thesis
  proof (cases n)
    case (Suc m)
    with Cons assms(2) have Q: "Q e" "\<forall>x\<in>set (take m (distinct_runs e es')). Q x"
      by (simp_all add: kept_def)
    have "runs_ok (e # e # es')" by (rule runs_ok_mono [OF assms(1)]) (simp add: Cons)
    from distinct_runs_filter [OF this _ Q(2)] show ?thesis
      using Q(1) Cons Suc by (simp add: kept_def)
  qed simp
qed simp

lemma add_old_events_split:
  "\<exists>N. add_old_events E D = E @ N \<and> set N \<subseteq> set D \<and>
     distinct (map h_event N) \<and> (\<forall>e\<in>set N. h_event e \<notin> h_event ` set E)"
proof (induction E D rule: add_old_events.induct)
  case (2 E d D)
  show ?case
  proof (cases "list_ex (\<lambda>e. h_event e = h_event d) E")
    case True
    with "2.IH"(1) show ?thesis by auto
  next
    case False
    then have d: "h_event d \<notin> h_event ` set E" by (auto simp: list_ex_iff)
    obtain N where "add_old_events (E @ [d]) D = E @ d # N" "set N \<subseteq> set D"
        "distinct (map h_event N)" "\<forall>e\<in>set N. h_event e \<notin> h_event ` set (E @ [d])"
      using "2.IH"(2) [OF False] by auto
    then have "add_old_events E (d # D) = E @ (d # N) \<and> set (d # N) \<subseteq> set (d # D) \<and>
        distinct (map h_event (d # N)) \<and> (\<forall>e\<in>set (d # N). h_event e \<notin> h_event ` set E)"
      using False d by auto
    then show ?thesis by blast
  qed
qed simp

lemma add_old_events_distinct:
  assumes "distinct (map h_event (filter (\<lambda>d. h_event d \<notin> h_event ` set E) D))"
  shows "add_old_events E D = E @ filter (\<lambda>d. h_event d \<notin> h_event ` set E) D"
  using assms
proof (induction E D rule: add_old_events.induct)
  case (2 E d D)
  show ?case
  proof (cases "list_ex (\<lambda>e. h_event e = h_event d) E")
    case True
    then have d: "\<not> h_event d \<notin> h_event ` set E" unfolding list_ex_iff image_iff by metis
    then have "filter (\<lambda>x. h_event x \<notin> h_event ` set E) (d # D) =
        filter (\<lambda>x. h_event x \<notin> h_event ` set E) D"
      by simp
    with True "2.IH"(1) [OF True] "2.prems" show ?thesis by (simp only: add_old_events.simps if_True)
  next
    case False
    then have d: "h_event d \<notin> h_event ` set E" by (auto simp: list_ex_iff)
    with "2.prems" have "filter (\<lambda>x. h_event x \<notin> h_event ` set (E @ [d])) D =
        filter (\<lambda>x. h_event x \<notin> h_event ` set E) D"
      by (intro filter_cong) (auto simp: image_iff)
    with False d "2.IH"(2) "2.prems" show ?thesis by auto
  qed
qed simp

lemma filter_subseq:
  assumes "subseq xs ys" and "distinct (filter P ys)"
  shows "filter P xs = filter (\<lambda>y. P y \<and> y \<in> set xs) ys"
  using assms
proof (induction rule: list_emb.induct)
  case (list_emb_Cons xs ys y)
  show ?case
  proof (cases "P y")
    case True
    with list_emb_Cons.prems have "y \<notin> set xs"
      using list_emb_Cons.hyps by (auto elim!: list_emb_set)
    with list_emb_Cons show ?thesis using True by auto
  qed (use list_emb_Cons in simp)
next
  case (list_emb_Cons2 x y xs ys)
  have "filter (\<lambda>z. P z \<and> z \<in> set (x # xs)) ys = filter (\<lambda>z. P z \<and> z \<in> set xs) ys"
    using list_emb_Cons2.hyps(1) list_emb_Cons2.prems
    by (intro filter_cong) (auto split: if_splits)
  with list_emb_Cons2 show ?case by (cases "P x") auto
qed simp

lemma sort_append_sorted:
  "SortStableDesc key (xs @ SortStableDesc key ys) = SortStableDesc key (xs @ ys)"
proof -
  let ?f = "\<lambda>x. - key x"
  have "foldr (insort_key ?f) (xs @ sort_key ?f ys) [] =
      foldr (insort_key ?f) xs (sort_key ?f (sort_key ?f ys))"
    by (simp add: sort_key_def)
  also have "sort_key ?f (sort_key ?f ys) = sort_key ?f ys"
    by (rule sort_key_id_if_sorted) (rule sorted_sort_key)
  finally show ?thesis by (simp add: SortStableDesc_def sort_key_def)
qed

lemma filter_SortStableDesc: "filter P (SortStableDesc key xs) = SortStableDesc key (filter P xs)"
  by (simp add: SortStableDesc_def filter_sort)

lemma distinct_map_SortStableDesc:
  "distinct (map g (SortStableDesc key xs)) \<longleftrightarrow> distinct (map g xs)"
  by (simp add: distinct_map SortStableDesc_def)

lemma h_event_precise [simp]: "h_event (precise e) = h_event e"
  by (simp add: precise_def split: option.splits)

lemma h_event_truncate [simp]: "h_event (truncate_time e) = h_event e"
  by (simp add: truncate_time_def)

lemma precise_truncate:
  assumes "time_survives e"
  shows "precise (truncate_time (precise e)) = precise e"
  using assms by (auto simp: precise_def truncate_time_def time_survives_def split: option.splits)

text \<open>The events of a history that are not among the events at hand.\<close>

definition unseen :: "history list \<Rightarrow> history \<Rightarrow> bool" where
  "unseen E e \<longleftrightarrow> h_event e \<notin> h_event ` set E"

lemma unseen_simps [simp]:
  "unseen E (precise e) = unseen E e" "unseen E (truncate_time e) = unseen E e"
  by (simp_all add: unseen_def)

text \<open>The candidates are the events at hand and unseen old events with distinct names.\<close>

lemma candidates_parts:
  obtains N where "candidates E D = SortStableDesc h_time (map precise E @ map precise N)"
    and "filter (unseen E) (candidates E D) = SortStableDesc h_time (map precise N)"
    and "distinct (map h_event N)" and "\<forall>e\<in>set N. unseen E e"
proof -
  obtain N where N: "add_old_events E D = E @ N" "distinct (map h_event N)"
      "\<forall>e\<in>set N. unseen E e"
    using add_old_events_split [of E D] by (auto simp: unseen_def)
  then have "filter (unseen E) (map precise (E @ N)) = map precise N"
    by (auto simp: filter_map o_def filter_empty_conv filter_id_iff unseen_def)
  with N show ?thesis
    by (intro that [of N]) (simp_all add: candidates_def filter_SortStableDesc)
qed

lemma candidates_survive:
  assumes "\<forall>e\<in>set E \<union> set D. time_survives e" and "k \<in> set (candidates E D)"
  shows "precise (truncate_time k) = k"
proof -
  from assms(2) obtain e where "e \<in> set E \<union> set D" "k = precise e"
    using set_add_old_events(2) [of E D] by (auto simp: set_candidates)
  then show ?thesis using assms(1) precise_truncate by simp
qed

text \<open>Merging a part \<open>K\<close> of the candidates again, truncated as it is stored, has the candidates
  that are at hand or in \<open>K\<close>.\<close>

lemma candidates_again:
  assumes survives: "\<forall>e\<in>set E \<union> set D. time_survives e" and K: "subseq K (candidates E D)"
  shows "candidates E (map truncate_time K) =
    filter (\<lambda>y. y \<in> precise ` set E \<or> y \<in> set K) (candidates E D)"
proof -
  define L where "L = candidates E D"
  obtain N where L: "L = SortStableDesc h_time (map precise E @ map precise N)"
      "filter (unseen E) L = SortStableDesc h_time (map precise N)"
    and N: "distinct (map h_event N)" "\<forall>e\<in>set N. unseen E e"
    unfolding L_def by (rule candidates_parts)
  have names: "distinct (map h_event (filter (unseen E) L))"
    using N(1) by (simp add: L(2) distinct_map_SortStableDesc o_def)
  have KL: "filter (unseen E) K = filter (\<lambda>y. y \<in> set K) (filter (unseen E) L)"
    using filter_subseq [OF K, of "unseen E"] names by (auto simp: L_def distinct_map)
  have H: "filter (unseen E) (map truncate_time K) = map truncate_time (filter (unseen E) K)"
    by (simp add: filter_map o_def)
  have "distinct (map h_event (filter (unseen E) K))"
    unfolding KL by (rule distinct_map_filter [OF names])
  then have "add_old_events E (map truncate_time K) = E @ map truncate_time (filter (unseen E) K)"
    using add_old_events_distinct [of E "map truncate_time K"] H
    by (simp add: unseen_def [abs_def] o_def)
  moreover have "map (precise \<circ> truncate_time) (filter (unseen E) K) = filter (unseen E) K"
    using K by (intro map_idI) (auto intro: candidates_survive [OF survives] elim: list_emb_set)
  ultimately have "map precise (add_old_events E (map truncate_time K)) =
      map precise E @ SortStableDesc h_time (filter (\<lambda>y. y \<in> set K) (map precise N))"
    by (simp add: KL L(2) filter_SortStableDesc)
  moreover have "precise x \<notin> precise ` set E" if "x \<in> set N" for x
    using N(2) that unfolding unseen_def by (metis h_event_precise imageE imageI)
  then have "filter (\<lambda>y. y \<in> set K) (map precise N) =
      filter (\<lambda>y. y \<in> precise ` set E \<or> y \<in> set K) (map precise N)"
    by (intro filter_cong) auto
  moreover have "filter (\<lambda>y. y \<in> precise ` set E \<or> y \<in> set K) (map precise E) = map precise E"
    by (simp add: filter_id_iff)
  ultimately show ?thesis
    by (simp add: candidates_def [of E "map truncate_time K"] sort_append_sorted L(1)
        filter_SortStableDesc flip: L_def)
qed

lemma merge_history_idem:
  assumes "\<forall>e\<in>set E \<union> set D. time_survives e" and "runs_ok (candidates E D)"
  shows "merge_history E (merge_history E D) = merge_history E D"
proof -
  let ?K = "take 10 (kept (candidates E D))"
  have "candidates E (map truncate_time ?K) =
      filter (\<lambda>y. y \<in> precise ` set E \<or> y \<in> set ?K) (candidates E D)"
    by (rule candidates_again [OF assms(1) subseq_take_kept])
  moreover have "take 10 (kept (filter (\<lambda>y. y \<in> precise ` set E \<or> y \<in> set ?K) (candidates E D)))
      = ?K"
    by (rule kept_filter [OF assms(2)]) simp
  ultimately show ?thesis by (simp add: merge_history_eq)
qed

section \<open>Sample data\<close>

text \<open>A stored entry whose event has expired, a repeated event five hundred nanoseconds after
  it, and a later violation; they exercise the hypotheses of the properties below.\<close>

definition sample_old :: history where
  "sample_old = \<lparr>h_time = 0, h_message = ''Compliant; fine'', h_event = ''pol.77359400''\<rparr>"

definition sample_new :: history where
  "sample_new = \<lparr>h_time = 3000000000, h_message = ''NonCompliant; bad'', h_event = ''pol.b2d05e00''\<rparr>"

definition sample_repeat :: history where
  "sample_repeat = \<lparr>h_time = 2000000000, h_message = ''Compliant; fine'', h_event = ''pol.773595f4''\<rparr>"

definition sample_details :: details where
  "sample_details = \<lparr>d_name = ''t'', d_compliance = Compliant, d_history = [sample_old]\<rparr>"

definition sample_merged :: details where
  "sample_merged = \<lparr>d_name = ''t'', d_compliance = NonCompliant,
     d_history = [sample_new, sample_repeat]\<rparr>"

lemma sample_merge:
  "mergeDetails [sample_new, sample_repeat] [Some sample_details] ''t'' = Some sample_merged"
  by code_simp

section \<open>Properties of the merged details\<close>

lemma mergeDetails_Some:
  assumes "mergeDetails E ex n = Some d"
  obtains old where "find_details n ex = Some old"
    and "d_history d = merge_history E (case old of None \<Rightarrow> [] | Some d \<Rightarrow> d_history d)"
    and "d_name d = (case old of None \<Rightarrow> n | Some d \<Rightarrow> d_name d)"
    and "d_compliance d = (case d_history d of
           [] \<Rightarrow> (case old of None \<Rightarrow> [] | Some d \<Rightarrow> d_compliance d)
         | h # _ \<Rightarrow> parseComplianceFromMessage (h_message h))"
  using assms
  by (fastforce simp: mergeDetails_def Let_def split: option.splits list.splits)

lemma find_details_name: "find_details n ex = Some (Some d) \<Longrightarrow> Some d \<in> set ex \<and> d_name d = n"
  by (induction n ex rule: find_details.induct) (auto split: if_splits)

text \<open>The history that the merge starts from.\<close>

definition existing_history :: "string \<Rightarrow> details option list \<Rightarrow> history list" where
  "existing_history n ex =
     (case find_details n ex of Some (Some d) \<Rightarrow> d_history d | _ \<Rightarrow> [])"

lemma mergeDetails_history:
  "mergeDetails E ex n = Some d \<Longrightarrow> d_history d = merge_history E (existing_history n ex)"
  by (erule mergeDetails_Some) (auto simp: existing_history_def split: option.splits)

lemma mergeDetails_compliance:
  "mergeDetails E ex n = Some d \<Longrightarrow> d_history d = h # hs \<Longrightarrow>
     d_compliance d = parseComplianceFromMessage (h_message h)"
  by (erule mergeDetails_Some) (simp split: list.splits)

text \<open>Merging the same events with details that an earlier merge has produced.\<close>

lemma mergeDetails_again:
  assumes "mergeDetails E ex n = Some d"
    and "\<forall>e\<in>set E \<union> set (existing_history n ex). time_survives e"
    and "runs_ok (candidates E (existing_history n ex))"
    and "find_details n ex' = Some (Some d)"
  shows "mergeDetails E ex' n = Some d"
proof -
  have h: "merge_history E (d_history d) = d_history d"
    using merge_history_idem [OF assms(2,3)] mergeDetails_history [OF assms(1)] by simp
  show ?thesis
    using assms(4) h mergeDetails_compliance [OF assms(1)]
    by (auto simp: mergeDetails_def split: list.splits)
qed

text \<open>
  C6 (status-sync is stable). Merging the events of a template with the details that an
  earlier merge of the same events produced gives these details again: the history, its
  truncated time stamps and the compliance are a fixpoint, so a reconcile with no new event
  finds the stored status equal to the computed one and writes nothing. The hypotheses are
  that every event carries its time in its name or has a time of whole seconds, and that
  closeness in time is transitive on the candidates.
\<close>

theorem mergeDetails_fixpoint:
  assumes "mergeDetails E ex n = Some d"
    and "\<forall>e\<in>set E \<union> set (existing_history n ex). time_survives e"
    and "runs_ok (candidates E (existing_history n ex))"
    and "find_details n ex' = Some (Some d)"
  shows "mergeDetails E ex' n = Some d"
  using assms by (rule mergeDetails_again)

theorem mergeDetails_fixpoint_witness:
  "mergeDetails [sample_new, sample_repeat] [Some sample_merged, None] ''t'' = Some sample_merged"
  by (rule mergeDetails_fixpoint [OF sample_merge]) code_simp+

text \<open>
  C7 (shape of the merged history). The details carry the name of the template, at most ten
  entries with the most recent first, and no event at hand is more recent than the first
  entry; whenever there is an entry, the compliance is read from the message of the first.
\<close>

theorem mergeDetails_shape:
  assumes "mergeDetails E ex n = Some d"
  shows "d_name d = n \<and> length (d_history d) \<le> 10
    \<and> sorted_wrt (\<lambda>x y. h_time y \<le> h_time x) (d_history d)
    \<and> (\<forall>e\<in>set E. d_history d \<noteq> [] \<and> Rfc3339Copy (h_time (precise e)) \<le> h_time (hd (d_history d)))
    \<and> (d_history d \<noteq> [] \<longrightarrow>
        d_compliance d = parseComplianceFromMessage (h_message (hd (d_history d))))"
proof -
  have h: "d_history d = merge_history E (existing_history n ex)"
    using assms by (rule mergeDetails_history)
  have "d_name d = n"
    using assms by (auto elim!: mergeDetails_Some dest: find_details_name split: option.splits)
  moreover have "\<forall>e\<in>set E. d_history d \<noteq> [] \<and>
      Rfc3339Copy (h_time (precise e)) \<le> h_time (hd (d_history d))"
  proof
    fix e assume "e \<in> set E"
    then have "e \<in> set (add_old_events E (existing_history n ex))"
      using set_add_old_events(1) by blast
    from merge_history_hd [OF this] show "d_history d \<noteq> [] \<and>
        Rfc3339Copy (h_time (precise e)) \<le> h_time (hd (d_history d))"
      by (auto simp: h)
  qed
  moreover have "d_compliance d = parseComplianceFromMessage (h_message (hd (d_history d)))"
    if "d_history d \<noteq> []"
    using mergeDetails_compliance [OF assms] that by (cases "d_history d") auto
  ultimately show ?thesis
    using merge_history_length merge_history_sorted by (simp add: h)
qed

theorem mergeDetails_shape_witness:
  "d_name sample_merged = ''t'' \<and> length (d_history sample_merged) \<le> 10
   \<and> Rfc3339Copy (h_time (precise sample_repeat)) \<le> h_time (hd (d_history sample_merged))
   \<and> d_compliance sample_merged =
       parseComplianceFromMessage (h_message (hd (d_history sample_merged)))"
  using mergeDetails_shape [OF sample_merge] by (simp add: sample_merged_def)

text \<open>
  C30 (provenance). Every entry of the merged history is an event at hand or an entry of the
  existing history, with the time of its name if it has one, truncated to seconds: its event
  name and its message are never changed.
\<close>

theorem mergeDetails_provenance:
  assumes "mergeDetails E ex n = Some d" and "h \<in> set (d_history d)"
  shows "\<exists>e\<in>set E \<union> set (existing_history n ex).
    h = truncate_time (precise e) \<and> h_event h = h_event e \<and> h_message h = h_message e"
proof -
  have "h \<in> truncate_time ` precise ` (set E \<union> set (existing_history n ex))"
    using assms(2) merge_history_set [of E "existing_history n ex"]
    unfolding mergeDetails_history [OF assms(1)] by blast
  then obtain e where "e \<in> set E \<union> set (existing_history n ex)" "h = truncate_time (precise e)"
    by blast
  then show ?thesis
    by (intro bexI [of _ e]) (auto simp: truncate_time_def precise_def split: option.splits)
qed

theorem mergeDetails_provenance_witness:
  "\<exists>e\<in>set [sample_new, sample_repeat]
     \<union> set (existing_history ''t'' [Some sample_details]).
     truncate_time sample_repeat = truncate_time (precise e)
     \<and> h_event (truncate_time sample_repeat) = h_event e
     \<and> h_message (truncate_time sample_repeat) = h_message e"
proof -
  have "truncate_time sample_repeat \<in> set (d_history sample_merged)" by code_simp
  with sample_merge show ?thesis by (rule mergeDetails_provenance)
qed

lemma sorted_desc_hd:
  assumes "sorted_wrt (\<lambda>x y. h_time y \<le> h_time x) (c # cs)" and "x \<in> set (c # cs)"
    and "\<forall>y\<in>set (c # cs). y = x \<or> h_time y < h_time x"
  shows "c = x"
  using assms by auto

text \<open>
  C10 (the latest sent event decides). When a controller sends a compliance event through
  \<open>SendEvent\<close> and no other candidate of the template is as recent, the merged details have
  exactly the compliance that was sent, whatever message and history there is.
\<close>

theorem mergeDetails_latest_sent:
  assumes "mergeDetails E ex n = Some d"
    and "c \<in> {Compliant, NonCompliant, Pending}" and "in_int64 now"
    and "event = compliance_event sender inst owner rsn msg c now"
    and "history_of_event event \<in> set E"
    and "\<forall>e\<in>set (add_old_events E (existing_history n ex)).
      e = history_of_event event \<or> h_time (precise e) < now"
  shows "d_compliance d = c \<and> h_event (hd (d_history d)) = ev_name event"
proof -
  let ?e = "precise (history_of_event event)" and ?D = "existing_history n ex"
  have t: "h_time ?e = now"
    using assms(3,4) parseTimestamp_event_name
    by (simp add: precise_def history_of_event_def compliance_event_def)
  have mem: "?e \<in> set (candidates E ?D)"
    using assms(5) set_add_old_events(1) [of E ?D] by (auto simp: set_candidates)
  then obtain h hs where C: "candidates E ?D = h # hs" by (cases "candidates E ?D") auto
  have "\<forall>y\<in>set (h # hs). y = ?e \<or> h_time y < h_time ?e"
    using assms(6) by (auto simp: t set_candidates simp flip: C)
  with candidates_sorted [of E ?D] mem have "h = ?e"
    unfolding C by (intro sorted_desc_hd)
  then obtain hs' where hd: "d_history d = truncate_time ?e # hs'"
    using mergeDetails_history [OF assms(1)] by (simp add: merge_history_eq C kept_def)
  have "parseComplianceFromMessage (h_message (history_of_event event)) = c"
    using assms(2,4) by (intro parseCompliance_history [where msg = msg])
      (simp_all add: compliance_event_def)
  then have "d_compliance d = c"
    using mergeDetails_compliance [OF assms(1) hd]
    by (simp add: truncate_time_def precise_def split: option.splits)
  then show ?thesis using hd by (simp add: history_of_event_def)
qed

definition sample_owner :: owner_ref where
  "sample_owner = \<lparr>or_apiVersion = policiesv1APIVersion, or_kind = PolicyKind, or_name = ''pol'',
     or_uid = ''u1'', or_controller = None, or_blockOwnerDeletion = None\<rparr>"

definition sample_event :: kevent where
  "sample_event = compliance_event \<lparr>es_clusterNamespace = ''ns'', es_instanceName = ''host'',
     es_controllerName = ''ctl''\<rparr> None sample_owner (EventReason ''ns'' ''t'') ''dependencies''
     Pending 4000000000"

theorem mergeDetails_latest_sent_witness:
  "mergeDetails [sample_new, history_of_event sample_event] [Some sample_details] ''t''
     = Some \<lparr>d_name = ''t'', d_compliance = Pending,
         d_history = map truncate_time [history_of_event sample_event, sample_new,
           precise sample_old]\<rparr>
   \<and> h_event (history_of_event sample_event) = ev_name sample_event"
proof -
  let ?d = "\<lparr>d_name = ''t'', d_compliance = Pending,
      d_history = map truncate_time [history_of_event sample_event, sample_new,
        precise sample_old]\<rparr>"
  have m: "mergeDetails [sample_new, history_of_event sample_event] [Some sample_details] ''t''
      = Some ?d"
    by code_simp
  have "d_compliance ?d = Pending \<and> h_event (hd (d_history ?d)) = ev_name sample_event"
    by (rule mergeDetails_latest_sent [OF m _ _ sample_event_def]) code_simp+
  with m show ?thesis by simp
qed

end
