(* ===== verification/StatusSync.thy ===== *)
theory StatusSync
  imports StatusHistory PolicyStore
begin

text \<open>
  The status-sync controller, \<^verbatim>\<open>controllers/statussync\<close>: the details of every template, the
  overall compliance, the two status updates and the reconcile that composes them, with the
  predicate and the mapper that select the events it reacts to.

  In \<open>getDetails\<close> the details and the event lists of different templates are separate values,
  which is exact when the template names of a policy are distinct (the template-sync
  controller refuses a policy whose names are not).
\<close>

section \<open>The details of a policy\<close>

definition template_default_name :: "nat \<Rightarrow> string" where
  "template_default_name i = ''template-'' @ fmt_d (int i)"

text \<open>A kind that does not exist or cannot be watched is not a reason to give up.\<close>

definition should_return :: "gerr option \<Rightarrow> gerr option" where
  "should_return err =
     (case err of
        None \<Rightarrow> None
      | Some e \<Rightarrow> if err_reason e \<noteq> NoVersionedResource \<and> err_reason e \<noteq> ResourceUnwatchable
                  then Some e else None)"

text \<open>One pass of the loop body up to the merge: the name of the template, the event map with
  the events of the template added, and the details that the merge may start from.\<close>

definition resolve_template ::
  "klib \<Rightarrow> 'c watch_api \<Rightarrow> policy \<Rightarrow> nat \<Rightarrow> policy_template \<Rightarrow> event_map \<Rightarrow> 'c world
     \<Rightarrow> (gerr + (string \<times> event_map \<times> details option list)) \<times> 'c world" where
  "resolve_template lib wapi inst i policyT m w =
     (let existingDPTs = s_details (p_status inst);
          policyObjID = policyID (p_name inst) (p_namespace inst)
      in case decodeTemplate lib (t_raw policyT) of
           Inl _ \<Rightarrow> (Inr (template_default_name i, m, existingDPTs), w)
         | Inr (None, _) \<Rightarrow> (Inr (template_default_name i, m, existingDPTs), w)
         | Inr (Some obj, tmplGVK) \<Rightarrow>
             (let tName = u_name obj
              in case call (wGet wapi policyObjID tmplGVK (p_namespace inst) tName) w of
                   ((tmplUnstruct, err), w) \<Rightarrow>
                     (case should_return err of
                        Some err \<Rightarrow> (Inl err, w)
                      | None \<Rightarrow>
                       (let owned = templateOwnedByPolicy tmplUnstruct (oi_name policyObjID);
                            m = (if owned
                                 then m(tName := m tName @
                                   getEventsInTemplate lib tmplUnstruct (oi_name policyObjID))
                                 else m);
                            existingDPTs =
                              (if tmplUnstruct \<noteq> None \<and> \<not> owned then [] else existingDPTs)
                        in (Inr (tName, m, existingDPTs), w)))))"

fun details_loop ::
  "klib \<Rightarrow> 'c watch_api \<Rightarrow> policy \<Rightarrow> nat \<Rightarrow> policy_template list \<Rightarrow> event_map
     \<Rightarrow> details option list \<Rightarrow> 'c world \<Rightarrow> details option list outcome \<times> 'c world" where
  "details_loop lib wapi inst i [] m allDetails w = (Ok allDetails, w)"
| "details_loop lib wapi inst i (policyT # policyTs) m allDetails w =
     (case resolve_template lib wapi inst i policyT m w of
        (Inl err, w) \<Rightarrow> (Err err, w)
      | (Inr (tName, m, existingDPTs), w) \<Rightarrow>
          (case mergeDetails (m tName) existingDPTs tName of
             None \<Rightarrow> (Panic, w)
           | Some templateDetails \<Rightarrow>
               details_loop lib wapi inst (Suc i) policyTs m
                 (allDetails @ [Some templateDetails]) w))"

definition getDetails ::
  "klib \<Rightarrow> 'c event_api \<Rightarrow> 'c watch_api \<Rightarrow> policy \<Rightarrow> 'c world
     \<Rightarrow> details option list outcome \<times> 'c world" where
  "getDetails lib eapi wapi inst w =
     (case getEventsInCluster eapi inst w of
        (Inl err, w) \<Rightarrow> (Err err, w)
      | (Inr eventForPolicyMap, w) \<Rightarrow>
          details_loop lib wapi inst 0 (sp_templates (p_spec inst)) eventForPolicyMap [] w)"

section \<open>The overall compliance and the two status updates\<close>

text \<open>The loop labelled \<^verbatim>\<open>Loop\<close>: the compliance state and \<^verbatim>\<open>isCompliant\<close>; a \<^verbatim>\<open>nil\<close> entry is
  dereferenced.\<close>

fun compliance_loop :: "string \<Rightarrow> bool \<Rightarrow> details option list \<Rightarrow> (string \<times> bool) option" where
  "compliance_loop state isCompliant [] = Some (state, isCompliant)"
| "compliance_loop state isCompliant (None # dpts) = None"
| "compliance_loop state isCompliant (Some dpt # dpts) =
     (if d_compliance dpt = NonCompliant then Some (NonCompliant, False)
      else if d_compliance dpt = Pending then compliance_loop Pending False dpts
      else if d_compliance dpt = Compliant then compliance_loop state isCompliant dpts
      else if d_compliance dpt = [] then compliance_loop state False dpts
      else compliance_loop state isCompliant dpts)"

definition overall_compliance :: "string \<Rightarrow> details option list \<Rightarrow> string option" where
  "overall_compliance state dpts =
     (case compliance_loop state True dpts of
        None \<Rightarrow> None
      | Some (state, isCompliant) \<Rightarrow> Some (if isCompliant then Compliant else state))"

record status_reconciler =
  sr_clusterNamespaceOnHub :: string
  sr_hasSpecSyncRequests :: bool
  sr_onMulticlusterhub :: bool

definition update_hub_status ::
  "'c policy_api \<Rightarrow> status_reconciler \<Rightarrow> policy \<Rightarrow> policy \<Rightarrow> 'c world \<Rightarrow> gerr option \<times> 'c world" where
  "update_hub_status papi r inst hubInstance w =
     (case call (polGet papi Hub (nn (sr_clusterNamespaceOnHub r) (p_name inst))) w of
        (refreshed, w) \<Rightarrow>
          (let hubInstance = (case refreshed of Inl _ \<Rightarrow> hubInstance | Inr updated \<Rightarrow> updated)
           in if p_status hubInstance \<noteq> p_status inst
              then (let hubInstance = hubInstance\<lparr>p_status := p_status inst\<rparr>
                    in case act (PolicyStatusUpdate Hub hubInstance)
                              (polStatusUpdate papi Hub hubInstance) w of
                         (Inl err, w) \<Rightarrow> (Some err, w)
                       | (Inr hubInstance, w) \<Rightarrow>
                           (None, emit (Recorded Hub (policy_nn hubInstance) ''Normal''
                              ''PolicyStatusSync''
                              (''Policy '' @ p_name hubInstance @ '' status was updated to ''
                               @ s_compliance (p_status hubInstance) @ '' in cluster namespace ''
                               @ p_namespace hubInstance)) w))
              else (None, w)))"

definition update_managed_status ::
  "'c policy_api \<Rightarrow> policy \<Rightarrow> policy_status \<Rightarrow> 'c world \<Rightarrow> (gerr + policy) \<times> 'c world" where
  "update_managed_status papi inst oldStatus w =
     (if s_details (p_status inst) = s_details oldStatus
         \<and> s_compliance (p_status inst) = s_compliance oldStatus
      then (Inr inst, w)
      else (case act (PolicyStatusUpdate Managed inst) (polStatusUpdate papi Managed inst) w of
              (Inl err, w) \<Rightarrow> (Inl err, w)
            | (Inr inst, w) \<Rightarrow>
                (Inr inst, emit (Recorded Managed (policy_nn inst) ''Normal'' ''PolicyStatusSync''
                   (''Policy '' @ p_name inst @ '' status was updated in cluster namespace ''
                    @ p_namespace inst)) w)))"

text \<open>The hub instance is a \<^verbatim>\<open>nil\<close> pointer only when the controller runs on the hub.\<close>

definition updateStatuses ::
  "'c policy_api \<Rightarrow> status_reconciler \<Rightarrow> policy \<Rightarrow> policy option \<Rightarrow> policy_status \<Rightarrow> 'c world
     \<Rightarrow> unit outcome \<times> 'c world" where
  "updateStatuses papi r inst hubInstance oldStatus w =
     (case overall_compliance (s_compliance (p_status inst)) (s_details (p_status inst)) of
        None \<Rightarrow> (Panic, w)
      | Some compliance \<Rightarrow>
          (let inst = inst\<lparr>p_status := (p_status inst)\<lparr>s_compliance := compliance\<rparr>\<rparr>
           in case update_managed_status papi inst oldStatus w of
                (Inl err, w) \<Rightarrow> (Err err, w)
              | (Inr inst, w) \<Rightarrow>
                  (if sr_onMulticlusterhub r then (Ok (), w)
                   else (case hubInstance of
                           None \<Rightarrow> (Panic, w)
                         | Some hubInstance \<Rightarrow>
                             (case update_hub_status papi r inst hubInstance w of
                                (Some err, w) \<Rightarrow> (Err err, w)
                              | (None, w) \<Rightarrow> (Ok (), w))))))"

section \<open>The reconcile\<close>

definition triggerSpecSyncReconcile ::
  "status_reconciler \<Rightarrow> namespaced_name \<Rightarrow> 'c world \<Rightarrow> 'c world" where
  "triggerSpecSyncReconcile r request w =
     (if sr_hasSpecSyncRequests r
      then emit (SpecSyncRequest (nn (sr_clusterNamespaceOnHub r) (nn_name request))) w
      else w)"

definition getInstances ::
  "'c policy_api \<Rightarrow> status_reconciler \<Rightarrow> namespaced_name \<Rightarrow> 'c world
     \<Rightarrow> (gerr + (policy option \<times> policy option)) \<times> 'c world" where
  "getInstances papi r request w =
     (let hubName = nn (sr_clusterNamespaceOnHub r) (nn_name request) in
      case call (polGet papi Managed request) w of
        (Inl err, w) \<Rightarrow>
          (if IsNotFound err then
             (if sr_onMulticlusterhub r then (Inr (None, None), w)
              else (case call (polGet papi Hub hubName) w of
                      (Inl err, w) \<Rightarrow>
                        (if IsNotFound err then (Inr (None, None), w) else (Inl err, w))
                    | (Inr _, w) \<Rightarrow> (Inr (None, None), triggerSpecSyncReconcile r request w)))
           else (Inl err, w))
      | (Inr managedInstance, w) \<Rightarrow>
          (if sr_onMulticlusterhub r then (Inr (Some managedInstance, None), w)
           else (case call (polGet papi Hub hubName) w of
                   (Inl err, w) \<Rightarrow>
                     (if IsNotFound err
                      then (Inr (None, None), triggerSpecSyncReconcile r request w)
                      else (Inl err, w))
                 | (Inr hubInstance, w) \<Rightarrow>
                     (if \<not> EquivalentReplicatedPolicies managedInstance hubInstance
                      then (Inr (None, None), triggerSpecSyncReconcile r request w)
                      else (Inr (Some managedInstance, Some hubInstance), w)))))"

definition reconcile_policy_status ::
  "klib \<Rightarrow> 'c policy_api \<Rightarrow> 'c event_api \<Rightarrow> 'c watch_api \<Rightarrow> status_reconciler
     \<Rightarrow> namespaced_name \<Rightarrow> 'c world \<Rightarrow> reconcile_result \<times> 'c world" where
  "reconcile_policy_status lib papi eapi wapi r request w =
     (case getInstances papi r request w of
        (Inl err, w) \<Rightarrow> (Failed err, w)
      | (Inr (None, _), w) \<Rightarrow> (Done, w)
      | (Inr (Some inst, hubInstance), w) \<Rightarrow>
          (if \<not> sr_onMulticlusterhub r \<and> hubInstance = None then (Done, w)
           else
             (let oldStatus = p_status inst
              in case getDetails lib eapi wapi inst w of
                   (Err err, w) \<Rightarrow> (Failed err, w)
                 | (Panic, w) \<Rightarrow> (Panicked, w)
                 | (Ok details, w) \<Rightarrow>
                     (let inst = inst\<lparr>p_status := (p_status inst)\<lparr>s_details := details\<rparr>\<rparr>
                      in case updateStatuses papi r inst hubInstance oldStatus w of
                           (Err err, w) \<Rightarrow> (Failed err, w)
                         | (Panic, w) \<Rightarrow> (Panicked, w)
                         | (Ok _, w) \<Rightarrow> (Done, w)))))"

text \<open>The first argument is the global \<^verbatim>\<open>uninstall.DeploymentIsUninstalling\<close>. The deferred end
  of the query batch runs on every path once the batch has started.\<close>

definition Reconcile_status ::
  "bool \<Rightarrow> klib \<Rightarrow> 'c policy_api \<Rightarrow> 'c event_api \<Rightarrow> 'c watch_api \<Rightarrow> status_reconciler
     \<Rightarrow> namespaced_name \<Rightarrow> 'c world \<Rightarrow> reconcile_result \<times> 'c world" where
  "Reconcile_status deploymentIsUninstalling lib papi eapi wapi r request w =
     (if deploymentIsUninstalling then (RequeueAfter 300, w)
      else
        (let policyObjID = policyID (nn_name request) (nn_namespace request)
         in case call (wStart wapi policyObjID) w of
              (Some err, w) \<Rightarrow> (Failed err, w)
            | (None, w) \<Rightarrow>
                (case reconcile_policy_status lib papi eapi wapi r request w of
                   (result, w) \<Rightarrow> (case call (wEnd wapi policyObjID) w of (_, w) \<Rightarrow> (result, w)))))"

section \<open>Event predicate and mapper\<close>

definition eventMapper :: "kevent \<Rightarrow> namespaced_name list" where
  "eventMapper event =
     [nn (ref_namespace (ev_involved event)) (ref_name (ev_involved event))]"

datatype watch_event = WatchUpdate | WatchCreate | WatchGeneric | WatchDelete

text \<open>The object is an event or, when the type assertion fails, something else.\<close>

definition eventPredicateFuncs :: "watch_event \<Rightarrow> kevent option \<Rightarrow> bool" where
  "eventPredicateFuncs we obj =
     (case we of
        WatchDelete \<Rightarrow> False
      | _ \<Rightarrow> (case obj of
                None \<Rightarrow> False
              | Some event \<Rightarrow>
                  (if ref_kind (ev_involved event) = PolicyKind
                      \<and> ref_apiVersion (ev_involved event) = policiesv1APIVersion
                   then True else False)))"

interpretation status_pause: pausing "\<lambda>b. Reconcile_status b lib papi eapi wapi r"
  for lib papi eapi wapi r
  by unfold_locales (simp add: Reconcile_status_def)

section \<open>The overall compliance as a specification\<close>

text \<open>The priority that the loop implements, said without a loop.\<close>

definition compliance_spec :: "string \<Rightarrow> string set \<Rightarrow> string" where
  "compliance_spec old states =
     (if NonCompliant \<in> states then NonCompliant
      else if Pending \<in> states then Pending
      else if [] \<in> states then old
      else Compliant)"

lemma compliance_loop_Some:
  "compliance_loop st b (map Some ds) =
     Some (if NonCompliant \<in> d_compliance ` set ds then (NonCompliant, False)
           else (if Pending \<in> d_compliance ` set ds then Pending else st,
                 b \<and> Pending \<notin> d_compliance ` set ds \<and> [] \<notin> d_compliance ` set ds))"
proof (induction ds arbitrary: st b)
  case (Cons d ds)
  then show ?case by (simp add: image_iff)
qed simp

lemma overall_compliance_Some:
  "overall_compliance old (map Some ds) = Some (compliance_spec old (d_compliance ` set ds))"
  by (simp add: overall_compliance_def compliance_loop_Some compliance_spec_def)

section \<open>The details, one per template\<close>

text \<open>The name under which the details of a template are kept.\<close>

definition template_name :: "klib \<Rightarrow> nat \<Rightarrow> policy_template \<Rightarrow> string" where
  "template_name lib i t =
     (case decodeTemplate lib (t_raw t) of
        Inr (Some obj, _) \<Rightarrow> u_name obj
      | _ \<Rightarrow> template_default_name i)"

definition good_details :: "string \<Rightarrow> details \<Rightarrow> bool" where
  "good_details n d \<longleftrightarrow> d_name d = n \<and> length (d_history d) \<le> 10
     \<and> sorted_wrt (\<lambda>x y. h_time y \<le> h_time x) (d_history d)
     \<and> (d_history d \<noteq> [] \<longrightarrow>
         d_compliance d = parseComplianceFromMessage (h_message (hd (d_history d))))"

lemma mergeDetails_good:
  assumes "mergeDetails E ex n = Some d"
  shows "good_details n d"
proof -
  have "d_name d = n"
    using assms by (auto elim!: mergeDetails_Some dest: find_details_name split: option.splits)
  moreover have "d_compliance d = parseComplianceFromMessage (h_message (hd (d_history d)))"
    if "d_history d \<noteq> []"
    using mergeDetails_compliance [OF assms] that by (cases "d_history d") auto
  ultimately show ?thesis
    using merge_history_length merge_history_sorted
    by (simp add: good_details_def mergeDetails_history [OF assms])
qed

text \<open>The status that a policy must have after a reconcile: one entry per template, in their
  order, and the overall compliance by priority; the other fields are kept.\<close>

definition recalculated :: "klib \<Rightarrow> policy \<Rightarrow> policy_status \<Rightarrow> bool" where
  "recalculated lib m s \<longleftrightarrow>
     (\<exists>ds. s = (p_status m)\<lparr>s_details := map Some ds,
          s_compliance := compliance_spec (s_compliance (p_status m)) (d_compliance ` set ds)\<rparr> \<and>
        length ds = length (sp_templates (p_spec m)) \<and>
        (\<forall>j < length ds. good_details (template_name lib j (sp_templates (p_spec m) ! j)) (ds ! j)))"

text \<open>One pass of the loop calls the watcher at most once and writes nothing.\<close>

lemma resolve_template_name:
  assumes "resolve_template lib wapi inst i t m w = (Inr (n, m', ex), w')"
  shows "n = template_name lib i t" and "ex \<in> {s_details (p_status inst), []}"
  using assms unfolding resolve_template_def template_name_def Let_def
  by (auto split: sum.splits prod.splits option.splits if_splits)

lemma resolve_template_call:
  assumes "resolve_template lib wapi inst i t m w = (x, w')"
  shows "w' = w \<or> (\<exists>id g ns n. w' = snd (call (wGet wapi id g ns n) w))"
  using assms unfolding resolve_template_def Let_def
  by (auto split: sum.splits prod.splits option.splits if_splits) (metis snd_conv)+

lemma details_loop_Ok:
  assumes "details_loop lib wapi inst i ts m acc w = (Ok ds, w')"
  shows "\<exists>ds'. ds = acc @ map Some ds' \<and> length ds' = length ts \<and>
    (\<forall>j < length ts. good_details (template_name lib (i + j) (ts ! j)) (ds' ! j))"
  using assms
proof (induction ts arbitrary: i m acc w)
  case (Cons t ts)
  obtain n m1 ex w1 d
    where r: "resolve_template lib wapi inst i t m w = (Inr (n, m1, ex), w1)"
      and d: "mergeDetails (m1 n) ex n = Some d"
      and l: "details_loop lib wapi inst (Suc i) ts m1 (acc @ [Some d]) w1 = (Ok ds, w')"
    using Cons.prems by (auto split: prod.splits sum.splits option.splits)
  from Cons.IH [OF l] obtain ds' where ds': "ds = acc @ Some d # map Some ds'"
    "length ds' = length ts"
    "\<forall>j < length ts. good_details (template_name lib (Suc i + j) (ts ! j)) (ds' ! j)"
    by auto
  have "good_details (template_name lib i t) d"
    using mergeDetails_good [OF d] resolve_template_name(1) [OF r] by simp
  then have "good_details (template_name lib (i + j) ((t # ts) ! j)) ((d # ds') ! j)"
    if "j < length (t # ts)" for j
    using that ds'(3) by (cases j) auto
  with ds'(1,2) show ?case by (intro exI [of _ "d # ds'"]) auto
qed simp

lemma find_details_Some_list: "find_details n (map Some ds) \<noteq> None"
  by (induction ds) auto

lemma mergeDetails_total: "None \<notin> set ex \<Longrightarrow> mergeDetails E ex n \<noteq> None"
proof -
  assume "None \<notin> set ex"
  then have "ex = map Some (map the ex)" by (induction ex) auto
  then have "find_details n ex \<noteq> None" using find_details_Some_list by metis
  then show ?thesis by (auto simp: mergeDetails_def Let_def split: option.splits)
qed

text \<open>A status without \<^verbatim>\<open>nil\<close> entries cannot make the loop panic.\<close>

lemma details_loop_no_panic:
  assumes "None \<notin> set (s_details (p_status inst))"
  shows "fst (details_loop lib wapi inst i ts m acc w) \<noteq> Panic"
proof (induction ts arbitrary: i m acc w)
  case (Cons t ts)
  obtain x w1 where r: "resolve_template lib wapi inst i t m w = (x, w1)" by fastforce
  show ?case
  proof (cases x)
    case (Inr y)
    obtain n m1 ex where y: "y = (n, m1, ex)" by (cases y)
    have "None \<notin> set ex" using resolve_template_name(2) r Inr y assms by fastforce
    then obtain d where "mergeDetails (m1 n) ex n = Some d" using mergeDetails_total by blast
    then show ?thesis using Cons.IH r Inr y by simp
  qed (use r in simp)
qed simp

lemma getDetails_no_panic:
  assumes "None \<notin> set (s_details (p_status inst))"
  shows "fst (getDetails lib eapi wapi inst w) \<noteq> Panic"
  by (simp add: getDetails_def details_loop_no_panic [OF assms] split: prod.splits sum.splits)

section \<open>What a reconcile reads and writes\<close>

text \<open>A call that leaves the policies alone.\<close>

definition neutral :: "'c policy_lookup \<Rightarrow> ('c \<Rightarrow> 'r \<times> 'c) \<Rightarrow> bool" where
  "neutral look f \<longleftrightarrow> (\<forall>c cl k. look cl k (snd (f c)) = look cl k c)"

lemma neutral_call:
  "neutral look f \<Longrightarrow> call f w = (x, w') \<Longrightarrow> look cl k (w_env w') = look cl k (w_env w)"
  by (auto simp: neutral_def call_def split: prod.splits) (metis snd_conv)

text \<open>The environment of the controller: the policy clients, and event and watch clients
  that do not write policies.\<close>

locale status_env = policy_store papi look
  for papi :: "'c policy_api" and look :: "'c policy_lookup" +
  fixes eapi :: "'c event_api" and wapi :: "'c watch_api"
  assumes list_neutral: "neutral look (evList eapi ns)"
    and watch_neutral: "neutral look (wGet wapi oid g ns n)"
    and start_neutral: "neutral look (wStart wapi oid)"
    and end_neutral: "neutral look (wEnd wapi oid)"
begin

lemma resolve_template_frame:
  assumes "resolve_template lib wapi inst i t m w = (x, w')"
  shows "look cl k (w_env w') = look cl k (w_env w)" and "w_log w' = w_log w"
  using resolve_template_call [OF assms] neutral_call [OF watch_neutral] call_log
  by (metis prod.collapse)+

lemma details_loop_frame:
  assumes "details_loop lib wapi inst i ts m acc w = (x, w')"
  shows "look cl k (w_env w') = look cl k (w_env w) \<and> w_log w' = w_log w"
  using assms
proof (induction ts arbitrary: i m acc w)
  case (Cons t ts)
  obtain y w1 where r: "resolve_template lib wapi inst i t m w = (y, w1)" by fastforce
  note f = resolve_template_frame [OF r]
  show ?case
  proof (cases y)
    case (Inr z)
    obtain n m1 ex where z: "z = (n, m1, ex)" by (cases z)
    show ?thesis
    proof (cases "mergeDetails (m1 n) ex n")
      case (Some d)
      with Cons.prems r Inr z
      have "details_loop lib wapi inst (Suc i) ts m1 (acc @ [Some d]) w1 = (x, w')" by simp
      from Cons.IH [OF this] f show ?thesis by simp
    qed (use Cons.prems r Inr z f in auto)
  qed (use Cons.prems r f in auto)
qed simp

lemma getDetails_frame:
  assumes "getDetails lib eapi wapi inst w = (x, w')"
  shows "look cl k (w_env w') = look cl k (w_env w)" and "w_log w' = w_log w"
proof -
  obtain y w1 where e: "getEventsInCluster eapi inst w = (y, w1)" by fastforce
  then have f: "look cl k (w_env w1) = look cl k (w_env w)" "w_log w1 = w_log w"
    using neutral_call [OF list_neutral] call_log
    by (fastforce simp: getEventsInCluster_def split: prod.splits sum.splits)+
  have "look cl k (w_env w') = look cl k (w_env w) \<and> w_log w' = w_log w"
  proof (cases y)
    case (Inr m)
    then have "details_loop lib wapi inst 0 (sp_templates (p_spec inst)) m [] w1 = (x, w')"
      using assms e by (simp add: getDetails_def)
    from details_loop_frame [OF this, of cl k] f show ?thesis by simp
  qed (use assms e f in \<open>auto simp: getDetails_def\<close>)
  then show "look cl k (w_env w') = look cl k (w_env w)" and "w_log w' = w_log w" by simp_all
qed

end

section \<open>Which policies a reconcile works on\<close>

text \<open>What \<open>getInstances\<close> finds, from what is stored on the two clusters: the two policies
  when both are there and agree, nothing when neither is, and a request to spec-sync in every
  other case.\<close>

definition hub_key :: "status_reconciler \<Rightarrow> namespaced_name \<Rightarrow> namespaced_name" where
  "hub_key r request = nn (sr_clusterNamespaceOnHub r) (nn_name request)"

definition spec_requests :: "status_reconciler \<Rightarrow> namespaced_name \<Rightarrow> effect list" where
  "spec_requests r request =
     (if sr_hasSpecSyncRequests r then [SpecSyncRequest (hub_key r request)] else [])"

definition instances_spec ::
  "status_reconciler \<Rightarrow> namespaced_name \<Rightarrow> policy option \<Rightarrow> policy option
     \<Rightarrow> policy option \<times> policy option \<times> effect list" where
  "instances_spec r request managed hub =
     (if sr_onMulticlusterhub r then (managed, None, [])
      else (case (managed, hub) of
              (None, None) \<Rightarrow> (None, None, [])
            | (Some m, Some h) \<Rightarrow>
                (if EquivalentReplicatedPolicies m h then (Some m, Some h, [])
                 else (None, None, spec_requests r request))
            | _ \<Rightarrow> (None, None, spec_requests r request)))"

lemma triggerSpecSync_simps [simp]:
  "w_env (triggerSpecSyncReconcile r request w) = w_env w"
  "w_log (triggerSpecSyncReconcile r request w) = w_log w @ spec_requests r request"
  by (simp_all add: triggerSpecSyncReconcile_def spec_requests_def hub_key_def)

context policy_store
begin

lemma getInstances_frame:
  assumes "getInstances papi r request w = (x, w')"
  shows "look cl k (w_env w') = look cl k (w_env w)"
  using assms unfolding getInstances_def Let_def
  by (auto dest!: call_get(1) [where ?cl2.0 = cl and ?k2.0 = k]
      split: prod.splits sum.splits if_splits)

lemma getInstances_Inr:
  assumes "getInstances papi r request w = (Inr (mi, hi), w')"
  shows "\<exists>es. instances_spec r request (look Managed request (w_env w))
      (look Hub (hub_key r request) (w_env w)) = (mi, hi, es) \<and> w_log w' = w_log w @ es"
proof -
  obtain x w1 where g: "call (polGet papi Managed request) w = (x, w1)" by fastforce
  obtain y w2 where h: "call (polGet papi Hub (hub_key r request)) w1 = (y, w2)" by fastforce
  note logs = call_log [OF g] call_log [OF h]
  have lm: "x = Inr m \<Longrightarrow> look Managed request (w_env w) = Some m"
    "x = Inl e \<Longrightarrow> IsNotFound e \<Longrightarrow> look Managed request (w_env w) = None" for m e
    using call_get(2,3) [OF g] by auto
  have lh: "y = Inr p \<Longrightarrow> look Hub (hub_key r request) (w_env w) = Some p"
    "y = Inl e \<Longrightarrow> IsNotFound e \<Longrightarrow> look Hub (hub_key r request) (w_env w) = None" for p e
    using call_get(2,3) [OF h] call_get(1) [OF g] by auto
  show ?thesis
    using assms g h lm lh logs
    by (cases x; cases y; cases "sr_onMulticlusterhub r")
      (auto simp: getInstances_def instances_spec_def hub_key_def Let_def split: if_splits)
qed

lemma getInstances_Inl:
  assumes "getInstances papi r request w = (Inl e, w')"
  shows "w_log w' = w_log w"
  using assms unfolding getInstances_def Let_def
  by (auto dest!: call_log split: prod.splits sum.splits if_splits)

lemma getInstances_found:
  assumes "getInstances papi r request w = (Inr (Some m, hi), w')"
  shows "look Managed request (w_env w) = Some m" and "w_log w' = w_log w"
    and "hi = (if sr_onMulticlusterhub r then None else look Hub (hub_key r request) (w_env w))"
    and "\<not> sr_onMulticlusterhub r \<longrightarrow> hi \<noteq> None"
  using getInstances_Inr [OF assms]
  by (auto simp: instances_spec_def dest: sym [of "Some _"] split: if_splits option.splits)

section \<open>The two status updates\<close>

lemma update_managed_status_Inr:
  assumes "update_managed_status papi inst old w = (Inr inst', w')"
    and "look Managed (policy_nn inst) (w_env w) = Some m" and "p_status m = old"
    and "same_object inst m" and "p_status inst = old\<lparr>s_details := ds, s_compliance := c\<rparr>"
  shows "\<exists>m'. look Managed (policy_nn inst) (w_env w') = Some m' \<and> same_object m m' \<and>
      p_status m' = p_status inst"
    and "p_status inst' = p_status inst" and "same_object inst inst'"
    and "cl \<noteq> Managed \<Longrightarrow> look cl k (w_env w') = look cl k (w_env w)"
proof -
  let ?e = "PolicyStatusUpdate Managed inst"
  obtain x w1 where u: "act ?e (polStatusUpdate papi Managed inst) w = (x, w1)" by fastforce
  have eq: "s_details (p_status inst) = s_details old \<Longrightarrow>
      s_compliance (p_status inst) = s_compliance old \<Longrightarrow> p_status inst = old"
    using assms(5) by simp
  consider (same) "p_status inst = old" "inst' = inst" "w' = w"
    | (written) "x = Inr inst'" "w_env w' = w_env w1"
    using assms(1) u eq
    by (cases x) (auto simp: update_managed_status_def split: if_splits)
  then have "(\<exists>m'. look Managed (policy_nn inst) (w_env w') = Some m' \<and> same_object m m' \<and>
      p_status m' = p_status inst) \<and> p_status inst' = p_status inst \<and> same_object inst inst' \<and>
      (cl \<noteq> Managed \<longrightarrow> look cl k (w_env w') = look cl k (w_env w))"
  proof cases
    case same
    then show ?thesis using assms(2-4) by (auto simp: same_object_def)
  next
    case written
    show ?thesis
      using act_status(1) [OF u written(1)] act_status(2) [OF u, of cl k] written assms(4)
      by (auto simp: same_object_def)
  qed
  then show "\<exists>m'. look Managed (policy_nn inst) (w_env w') = Some m' \<and> same_object m m' \<and>
      p_status m' = p_status inst"
    and "p_status inst' = p_status inst" and "same_object inst inst'"
    and "cl \<noteq> Managed \<Longrightarrow> look cl k (w_env w') = look cl k (w_env w)" by auto
qed

lemma update_hub_status_None:
  assumes "update_hub_status papi r inst hub w = (None, w')"
    and "look Hub (nn (sr_clusterNamespaceOnHub r) (p_name inst)) (w_env w) = Some hub"
  shows "\<exists>h'. look Hub (nn (sr_clusterNamespaceOnHub r) (p_name inst)) (w_env w') = Some h' \<and>
      same_object hub h' \<and> p_status h' = p_status inst"
    and "cl \<noteq> Hub \<Longrightarrow> look cl k (w_env w') = look cl k (w_env w)"
proof -
  let ?k = "nn (sr_clusterNamespaceOnHub r) (p_name inst)"
  obtain x w1 where g: "call (polGet papi Hub ?k) w = (x, w1)" by fastforce
  let ?h = "hub\<lparr>p_status := p_status inst\<rparr>"
  have x: "(case x of Inl _ \<Rightarrow> hub | Inr updated \<Rightarrow> updated) = hub"
    using call_get(2) [OF g] assms(2) by (cases x) auto
  obtain y w2 where u: "act (PolicyStatusUpdate Hub ?h) (polStatusUpdate papi Hub ?h) w1 = (y, w2)"
    by fastforce
  have nn: "policy_nn ?h = ?k" using look_nn [OF assms(2)] by simp
  note g1 = call_get(1) [OF g]
  have "(\<exists>h'. look Hub ?k (w_env w') = Some h' \<and> same_object hub h' \<and> p_status h' = p_status inst) \<and>
    (cl \<noteq> Hub \<longrightarrow> look cl k (w_env w') = look cl k (w_env w))"
  proof (cases "p_status hub = p_status inst")
    case True
    then have "w' = w1" using assms(1) g x by (auto simp: update_hub_status_def Let_def)
    then show ?thesis using True assms(2) g1 by simp
  next
    case False
    then obtain q where q: "y = Inr q" "w_env w' = w_env w2"
      using assms(1) g x u by (cases y) (auto simp: update_hub_status_def Let_def)
    show ?thesis
      using act_status(1) [OF u q(1)] act_status(2) [OF u, of cl k] q(2) nn g1
      by (auto simp: same_object_def)
  qed
  then show "\<exists>h'. look Hub ?k (w_env w') = Some h' \<and> same_object hub h' \<and>
      p_status h' = p_status inst"
    and "cl \<noteq> Hub \<Longrightarrow> look cl k (w_env w') = look cl k (w_env w)" by auto
qed

lemma updateStatuses_Ok:
  assumes "updateStatuses papi r inst (Some hub) old w = (Ok u, w')" and "\<not> sr_onMulticlusterhub r"
    and m: "look Managed (policy_nn inst) (w_env w) = Some m" "p_status m = old" "same_object inst m"
    and h: "look Hub (nn (sr_clusterNamespaceOnHub r) (p_name inst)) (w_env w) = Some hub"
    and inst: "p_status inst = old\<lparr>s_details := ds\<rparr>"
    and c: "overall_compliance (s_compliance old) ds = Some c"
  shows "\<exists>m' h'. look Managed (policy_nn inst) (w_env w') = Some m' \<and> same_object m m' \<and>
    look Hub (nn (sr_clusterNamespaceOnHub r) (p_name inst)) (w_env w') = Some h' \<and>
    same_object hub h' \<and> p_status m' = old\<lparr>s_details := ds, s_compliance := c\<rparr> \<and>
    p_status h' = p_status m'"
proof -
  let ?inst = "inst\<lparr>p_status := (p_status inst)\<lparr>s_compliance := c\<rparr>\<rparr>"
  obtain x w1 where u: "update_managed_status papi ?inst old w = (x, w1)" by fastforce
  have o: "overall_compliance (s_compliance (p_status inst)) (s_details (p_status inst)) = Some c"
    using inst c by simp
  then obtain inst' where x: "x = Inr inst'"
    using assms(1) u by (cases x) (auto simp: updateStatuses_def)
  have hyps: "look Managed (policy_nn ?inst) (w_env w) = Some m" "same_object ?inst m"
    "p_status ?inst = old\<lparr>s_details := ds, s_compliance := c\<rparr>"
    using m(1,3) inst by (simp_all add: same_object_def)
  note U = update_managed_status_Inr [OF u [unfolded x] hyps(1) m(2) hyps(2,3)]
  have name: "p_name inst' = p_name inst" using U(3) by (simp add: same_object_def)
  obtain y w2 where v: "update_hub_status papi r inst' hub w1 = (y, w2)" by fastforce
  then have y: "y = None" "w' = w2"
    using assms(1,2) u o x by (auto simp: updateStatuses_def split: option.splits)
  have "look Hub (nn (sr_clusterNamespaceOnHub r) (p_name inst')) (w_env w1) = Some hub"
    using U(4) [of Hub] h name by simp
  note V = update_hub_status_None [OF v [unfolded y] this]
  show ?thesis using U(1,2) V(1) V(2) [of Managed "policy_nn inst"] name y(2) hyps(3) by auto
qed

end

context status_env
begin

lemma getDetails_Ok:
  assumes "getDetails lib eapi wapi inst w = (Ok details, w')"
  obtains ds where "details = map Some ds" "length ds = length (sp_templates (p_spec inst))"
    "\<forall>j < length ds. good_details (template_name lib j (sp_templates (p_spec inst) ! j)) (ds ! j)"
proof -
  obtain x w1 where e: "getEventsInCluster eapi inst w = (x, w1)" by fastforce
  then obtain m where "x = Inr m" using assms by (cases x) (auto simp: getDetails_def)
  with e assms
  have "details_loop lib wapi inst 0 (sp_templates (p_spec inst)) m [] w1 = (Ok details, w')"
    by (simp add: getDetails_def)
  from details_loop_Ok [OF this] show thesis using that by auto
qed

text \<open>The paths through a reconcile.\<close>

lemma reconcile_policy_status_cases:
  assumes run: "reconcile_policy_status lib papi eapi wapi r request w = (res, w')"
  obtains (fetch_error) e where "getInstances papi r request w = (Inl e, w')" "res = Failed e"
  | (no_work) hi where "getInstances papi r request w = (Inr (None, hi), w')" "res = Done"
  | (no_details) m hi w1 x where "getInstances papi r request w = (Inr (Some m, hi), w1)"
      "getDetails lib eapi wapi m w1 = (x, w')" "x = Panic \<and> res = Panicked \<or> (\<exists>e. x = Err e \<and> res = Failed e)"
  | (written) m hi w1 ds w2 x where "getInstances papi r request w = (Inr (Some m, hi), w1)"
      "getDetails lib eapi wapi m w1 = (Ok ds, w2)"
      "updateStatuses papi r (m\<lparr>p_status := (p_status m)\<lparr>s_details := ds\<rparr>\<rparr>) hi (p_status m) w2 = (x, w')"
      "res = (case x of Err e \<Rightarrow> Failed e | Panic \<Rightarrow> Panicked | Ok _ \<Rightarrow> Done)"
proof -
  obtain x w1 where g: "getInstances papi r request w = (x, w1)" by fastforce
  consider e where "x = Inl e" | hi where "x = Inr (None, hi)" | m hi where "x = Inr (Some m, hi)"
    by (metis option.exhaust prod.collapse sum.exhaust)
  then show thesis
  proof cases
    case 1
    then show thesis using run g fetch_error by (simp add: reconcile_policy_status_def)
  next
    case 2
    then show thesis using run g no_work by (simp add: reconcile_policy_status_def)
  next
    case (3 m hi)
    have hub: "sr_onMulticlusterhub r \<or> hi \<noteq> None" using getInstances_found(4) g 3 by blast
    obtain y w2 where d: "getDetails lib eapi wapi m w1 = (y, w2)" by fastforce
    show thesis
    proof (cases y)
      case (Ok ds)
      obtain z w3 where u: "updateStatuses papi r (m\<lparr>p_status := (p_status m)\<lparr>s_details := ds\<rparr>\<rparr>) hi
          (p_status m) w2 = (z, w3)" by fastforce
      have "w' = w3" "res = (case z of Err e \<Rightarrow> Failed e | Panic \<Rightarrow> Panicked | Ok _ \<Rightarrow> Done)"
        using run g 3 d Ok u hub by (auto simp: reconcile_policy_status_def split: outcome.splits)
      then show thesis using written [of m hi w1 ds w2 z] g 3 d Ok u by simp
    qed (use run g 3 d hub no_details in \<open>auto simp: reconcile_policy_status_def\<close>)
  qed
qed

lemma Reconcile_status_cases:
  assumes "Reconcile_status b lib papi eapi wapi r request w = (res, w')"
  obtains (paused) "b" "res = RequeueAfter 300" "w' = w"
  | (no_batch) e where "\<not> b" "call (wStart wapi (policyID (nn_name request) (nn_namespace request))) w = (Some e, w')"
      "res = Failed e"
  | (ran) w1 w2 z where "\<not> b" "call (wStart wapi (policyID (nn_name request) (nn_namespace request))) w = (None, w1)"
      "reconcile_policy_status lib papi eapi wapi r request w1 = (res, w2)"
      "call (wEnd wapi (policyID (nn_name request) (nn_namespace request))) w2 = (z, w')"
proof -
  let ?id = "policyID (nn_name request) (nn_namespace request)"
  obtain x w1 where s: "call (wStart wapi ?id) w = (x, w1)" by fastforce
  obtain y w2 where p: "reconcile_policy_status lib papi eapi wapi r request w1 = (y, w2)" by fastforce
  obtain z w3 where f: "call (wEnd wapi ?id) w2 = (z, w3)" by fastforce
  show thesis
    using assms s p f paused no_batch ran
    by (cases x) (auto simp: Reconcile_status_def Let_def split: if_splits)
qed

lemma reconcile_policy_status_Done:
  assumes "reconcile_policy_status lib papi eapi wapi r request w = (Done, w')"
    and "\<not> sr_onMulticlusterhub r"
    and "look Managed request (w_env w) = Some m"
    and "look Hub (hub_key r request) (w_env w) = Some h"
    and "EquivalentReplicatedPolicies m h"
  shows "\<exists>m' h'. look Managed request (w_env w') = Some m' \<and> same_object m m' \<and>
    look Hub (hub_key r request) (w_env w') = Some h' \<and> same_object h h' \<and>
    p_status h' = p_status m' \<and> recalculated lib m (p_status m')"
  using assms(1)
proof (cases rule: reconcile_policy_status_cases)
  case no_work
  then show ?thesis using getInstances_Inr [OF no_work(1)] assms(2-5) by (auto simp: instances_spec_def)
next
  case (written m2 hi w1 details w2 x)
  note G = getInstances_found [OF written(1)]
  have inst: "m2 = m" "hi = Some h" using G assms(2-4) by auto
  have x: "x = Ok ()" using written(4) by (cases x) auto
  obtain ds where ds: "details = map Some ds" "length ds = length (sp_templates (p_spec m))"
    "\<forall>j < length ds. good_details (template_name lib j (sp_templates (p_spec m) ! j)) (ds ! j)"
    using getDetails_Ok [OF written(2)] inst by blast
  let ?inst = "m\<lparr>p_status := (p_status m)\<lparr>s_details := details\<rparr>\<rparr>"
  have nnm: "policy_nn ?inst = request" "hub_key r request =
      nn (sr_clusterNamespaceOnHub r) (p_name ?inst)"
    using look_nn [OF assms(3)] by (auto simp: hub_key_def policy_nn_def)
  have l: "look cl k (w_env w2) = look cl k (w_env w)" for cl k
    using getDetails_frame(1) [OF written(2)] getInstances_frame [OF written(1)] by simp
  have so: "same_object ?inst m" by (simp add: same_object_def)
  let ?c = "compliance_spec (s_compliance (p_status m)) (d_compliance ` set ds)"
  have "recalculated lib m ((p_status m)\<lparr>s_details := details, s_compliance := ?c\<rparr>)"
    using ds unfolding recalculated_def by blast
  moreover have "overall_compliance (s_compliance (p_status m)) details = Some ?c"
    using ds(1) overall_compliance_Some by simp
  ultimately show ?thesis
    using updateStatuses_Ok [OF written(3) [unfolded inst x] assms(2), of m details] l assms(3,4) nnm so
    by (simp, metis)
qed simp_all

lemma Reconcile_status_Done:
  assumes "Reconcile_status b lib papi eapi wapi r request w = (Done, w')"
    and "\<not> sr_onMulticlusterhub r"
    and "look Managed request (w_env w) = Some m"
    and "look Hub (hub_key r request) (w_env w) = Some h"
    and "EquivalentReplicatedPolicies m h"
  shows "\<exists>m' h'. look Managed request (w_env w') = Some m' \<and> same_object m m' \<and>
    look Hub (hub_key r request) (w_env w') = Some h' \<and> same_object h h' \<and>
    p_status h' = p_status m' \<and> recalculated lib m (p_status m')"
  using assms(1)
proof (cases rule: Reconcile_status_cases)
  case ran
  then show ?thesis
    using reconcile_policy_status_Done [OF ran(3) assms(2), of m h] assms(3-5)
      neutral_call [OF start_neutral ran(2)] neutral_call [OF end_neutral ran(4)] by simp
qed simp_all

end

section \<open>What a reconcile may write\<close>

text \<open>An action of the controller for a request, given the policies stored at its start: a
  status update that changes the status and nothing else, an event on one of the two
  policies, or a request to spec-sync.\<close>

definition changes_status :: "policy option \<Rightarrow> policy \<Rightarrow> bool" where
  "changes_status stored p \<longleftrightarrow>
     (case stored of None \<Rightarrow> False | Some q \<Rightarrow> same_object q p \<and> p_status q \<noteq> p_status p)"

fun about_status ::
  "status_reconciler \<Rightarrow> namespaced_name \<Rightarrow> policy option \<Rightarrow> policy option \<Rightarrow> effect \<Rightarrow> bool" where
  "about_status r k m h (PolicyStatusUpdate Managed p) \<longleftrightarrow> changes_status m p"
| "about_status r k m h (PolicyStatusUpdate Hub p) \<longleftrightarrow>
     \<not> sr_onMulticlusterhub r \<and> changes_status h p"
| "about_status r k m h (Recorded cl k' ty rsn txt) \<longleftrightarrow>
     rsn = ''PolicyStatusSync'' \<and> (cl, k') \<in> {(Managed, k), (Hub, hub_key r k)}"
| "about_status r k m h (SpecSyncRequest k') \<longleftrightarrow>
     k' = hub_key r k \<and> sr_hasSpecSyncRequests r \<and> \<not> sr_onMulticlusterhub r \<and> (m \<noteq> None \<or> h \<noteq> None)"
| "about_status r k m h _ \<longleftrightarrow> False"

lemma same_object_nn: "same_object p q \<Longrightarrow> policy_nn p = policy_nn q"
  by (simp add: same_object_def policy_nn_def)

context policy_store
begin

lemma update_managed_status_log:
  assumes "update_managed_status papi inst old w = (x, w')"
    and "policy_nn inst = k" and "p_status inst \<noteq> old \<longrightarrow> changes_status m inst"
  shows "\<exists>es. w_log w' = w_log w @ es \<and> list_all (about_status r k m h) es"
proof -
  obtain y w1
    where u: "act (PolicyStatusUpdate Managed inst) (polStatusUpdate papi Managed inst) w = (y, w1)"
    by fastforce
  have nn: "policy_nn q = k" if "y = Inr q" for q
    using act_status(1) [OF u that] assms(2) same_object_nn by metis
  show ?thesis
    using assms u act_log [OF u] nn
    by (cases y) (auto simp: update_managed_status_def split: if_splits)
qed

lemma update_hub_status_log:
  assumes "update_hub_status papi r inst hub w = (x, w')" and "\<not> sr_onMulticlusterhub r"
    and "look Hub (hub_key r k) (w_env w) = Some hub" and "p_name inst = nn_name k"
  shows "\<exists>es. w_log w' = w_log w @ es \<and> list_all (about_status r k m (Some hub)) es"
proof -
  let ?k = "hub_key r k" and ?h = "hub\<lparr>p_status := p_status inst\<rparr>"
  obtain y w1 where g: "call (polGet papi Hub ?k) w = (y, w1)" by fastforce
  have y: "(case y of Inl _ \<Rightarrow> hub | Inr updated \<Rightarrow> updated) = hub"
    using call_get(2) [OF g] assms(3) by (cases y) auto
  obtain z w2 where u: "act (PolicyStatusUpdate Hub ?h) (polStatusUpdate papi Hub ?h) w1 = (z, w2)"
    by fastforce
  have nn: "policy_nn q = ?k" if "z = Inr q" for q
    using act_status(1) [OF u that] look_nn [OF assms(3)] same_object_nn
    by (metis policy_nn_update(1))
  show ?thesis
    using assms(1,2,4) g y u act_log [OF u] call_log [OF g] nn
    by (cases z) (auto simp: update_hub_status_def Let_def hub_key_def changes_status_def
        split: if_splits)
qed

lemma updateStatuses_log:
  assumes "updateStatuses papi r inst hub (p_status m) w = (x, w')"
    and "policy_nn inst = k" and "same_object m inst"
    and "hub = (if sr_onMulticlusterhub r then None else look Hub (hub_key r k) (w_env w))"
    and "look Managed k (w_env w) = Some m" and "p_status inst = (p_status m)\<lparr>s_details := ds\<rparr>"
  shows "\<exists>es. w_log w' = w_log w @ es \<and> list_all (about_status r k (Some m)
    (look Hub (hub_key r k) (w_env w))) es"
proof (cases "overall_compliance (s_compliance (p_status inst)) (s_details (p_status inst))")
  case None
  then show ?thesis using assms(1) by (auto simp: updateStatuses_def)
next
  case (Some c)
  let ?inst = "inst\<lparr>p_status := (p_status inst)\<lparr>s_compliance := c\<rparr>\<rparr>" and ?h = "look Hub (hub_key r k) (w_env w)"
  obtain y w1 where u: "update_managed_status papi ?inst (p_status m) w = (y, w1)" by fastforce
  have so: "same_object ?inst m" using assms(3) by (simp add: same_object_def)
  have "p_status ?inst \<noteq> p_status m \<longrightarrow> changes_status (Some m) ?inst"
    using so by (auto simp: changes_status_def same_object_def)
  from update_managed_status_log [OF u _ this, of k r ?h] assms(2)
  obtain es where es: "w_log w1 = w_log w @ es" "list_all (about_status r k (Some m) ?h) es"
    by auto
  show ?thesis
  proof (cases "(\<exists>e. y = Inl e) \<or> sr_onMulticlusterhub r \<or> hub = None")
    case True
    then have "w' = w1" using assms(1) u Some
      by (auto simp: updateStatuses_def split: sum.splits option.splits if_splits)
    then show ?thesis using es by auto
  next
    case False
    then obtain inst' p where y: "y = Inr inst'" "hub = Some p" "\<not> sr_onMulticlusterhub r"
      by (cases y) auto
    have hp: "?h = Some p" using assms(4) y by simp
    have prems: "look Managed (policy_nn ?inst) (w_env w) = Some m"
      "p_status ?inst = (p_status m)\<lparr>s_details := ds, s_compliance := c\<rparr>"
      using assms(2,5,6) by simp_all
    note U = update_managed_status_Inr [OF u [unfolded y(1)] prems(1) refl so prems(2)]
    have "look Hub (hub_key r k) (w_env w1) = Some p"
      using U(4) [of Hub "hub_key r k"] hp by simp
    moreover have "p_name inst' = nn_name k"
      using U(3) assms(2) by (auto simp: same_object_def policy_nn_def)
    moreover obtain z w2 where v: "update_hub_status papi r inst' p w1 = (z, w2)" by fastforce
    moreover have "w' = w2"
      using assms(1) u Some y v by (auto simp: updateStatuses_def split: option.splits)
    ultimately show ?thesis
      using update_hub_status_log [of r inst' p w1 z w2 k "Some m"] y(3) es hp by auto
  qed
qed

end

context status_env
begin

lemma getInstances_log:
  assumes "getInstances papi r request w = (x, w')"
  shows "\<exists>es. w_log w' = w_log w @ es \<and> list_all (about_status r request
    (look Managed request (w_env w)) (look Hub (hub_key r request) (w_env w))) es"
proof (cases x)
  case (Inr y)
  obtain mi hi where "y = (mi, hi)" by (cases y)
  with getInstances_Inr [of r request w mi hi w'] assms Inr show ?thesis
    by (auto simp: instances_spec_def spec_requests_def split: if_splits option.splits)
qed (use getInstances_Inl assms in auto)

text \<open>A policy that \<open>getInstances\<close> returns is the stored one, and then nothing was logged.\<close>

lemma reconcile_policy_status_log:
  assumes "reconcile_policy_status lib papi eapi wapi r request w = (res, w')"
  shows "\<exists>es. w_log w' = w_log w @ es \<and> list_all (about_status r request
    (look Managed request (w_env w)) (look Hub (hub_key r request) (w_env w))) es"
  using assms
proof (cases rule: reconcile_policy_status_cases)
  case fetch_error
  then show ?thesis using getInstances_log [OF fetch_error(1)] by simp
next
  case no_work
  then show ?thesis using getInstances_log [OF no_work(1)] by simp
next
  case no_details
  then show ?thesis using getInstances_log [OF no_details(1)] getDetails_frame(2) [OF no_details(2)] by simp
next
  case (written m hi w1 ds w2 x)
  note G = getInstances_found [OF written(1)]
  have "policy_nn (m\<lparr>p_status := (p_status m)\<lparr>s_details := ds\<rparr>\<rparr>) = request" using look_nn [OF G(1)] by simp
  then show ?thesis
    using updateStatuses_log [OF written(3), of request ds] G getDetails_frame [OF written(2)]
      getInstances_frame [OF written(1)] by simp
qed

lemma Reconcile_status_log:
  assumes "Reconcile_status b lib papi eapi wapi r request w = (res, w')"
  shows "\<exists>es. w_log w' = w_log w @ es \<and> list_all (about_status r request
    (look Managed request (w_env w)) (look Hub (hub_key r request) (w_env w))) es"
  using assms
proof (cases rule: Reconcile_status_cases)
  case no_batch
  then show ?thesis using call_log [OF no_batch(2)] by simp
next
  case ran
  then show ?thesis
    using reconcile_policy_status_log [OF ran(3)] neutral_call [OF start_neutral ran(2)] call_log [OF ran(2)]
      call_log [OF ran(4)] by simp
qed simp

text \<open>Panic freedom.\<close>

lemma updateStatuses_no_panic:
  assumes "sr_onMulticlusterhub r \<or> hub \<noteq> None" and "s_details (p_status inst) = map Some ds"
  shows "fst (updateStatuses papi r inst hub old w) \<noteq> Panic"
  using assms overall_compliance_Some
  by (auto simp: updateStatuses_def Let_def split: prod.splits sum.splits option.splits)

lemma reconcile_policy_status_no_panic:
  assumes "reconcile_policy_status lib papi eapi wapi r request w = (res, w')"
    and "\<And>m. look Managed request (w_env w) = Some m \<Longrightarrow> None \<notin> set (s_details (p_status m))"
  shows "res \<noteq> Panicked"
  using assms(1)
proof (cases rule: reconcile_policy_status_cases)
  case (no_details m hi w1 x)
  have "x \<noteq> Panic"
    using getDetails_no_panic [OF assms(2) [OF getInstances_found(1) [OF no_details(1)]], of lib eapi wapi w1]
      no_details(2) by simp
  then show ?thesis using no_details(3) by auto
next
  case (written m hi w1 details w2 x)
  obtain ds where ds: "details = map Some ds" using getDetails_Ok [OF written(2)] by blast
  have "fst (updateStatuses papi r (m\<lparr>p_status := (p_status m)\<lparr>s_details := details\<rparr>\<rparr>) hi (p_status m) w2) \<noteq> Panic"
    by (rule updateStatuses_no_panic [where ds = ds]) (use ds getInstances_found(4) [OF written(1)] in auto)
  then show ?thesis using written(3,4) by (cases x) auto
qed simp_all

lemma Reconcile_status_no_panic:
  assumes "\<And>m. look Managed request (w_env w) = Some m \<Longrightarrow> None \<notin> set (s_details (p_status m))"
  shows "fst (Reconcile_status b lib papi eapi wapi r request w) \<noteq> Panicked"
proof -
  obtain res w' where run: "Reconcile_status b lib papi eapi wapi r request w = (res, w')" by fastforce
  then have "res \<noteq> Panicked"
  proof (cases rule: Reconcile_status_cases)
    case ran
    show ?thesis
      by (rule reconcile_policy_status_no_panic [OF ran(3)])
        (use assms neutral_call [OF start_neutral ran(2)] in simp)
  qed simp_all
  with run show ?thesis by simp
qed

end

section \<open>Properties\<close>

text \<open>Event and watch clients over the in-memory store that never write a policy: one stored
  event, and no template objects.\<close>

definition sample_eapi :: "kevent list \<Rightarrow> mem event_api" where
  "sample_eapi evs = \<lparr>evList = \<lambda>_ m. (Inr evs, m), evCreate = \<lambda>_ m. (None, m), clockNow = \<lambda>m. (0, m)\<rparr>"

definition sample_wapi :: "mem watch_api" where
  "sample_wapi = \<lparr>wStart = \<lambda>_ m. (None, m), wEnd = \<lambda>_ m. (None, m),
     wGet = \<lambda>_ _ _ _ m. ((None, None), m), wSet = \<lambda>_ _ m. (None, m), wRemove = \<lambda>_ m. (None, m)\<rparr>"

interpretation mem_status: status_env mem_papi mem_look "sample_eapi evs" sample_wapi for evs
  by unfold_locales (simp_all add: neutral_def sample_eapi_def sample_wapi_def)

text \<open>C13. The overall compliance that status-sync computes from the details: any
  non-compliant template makes the policy non-compliant; otherwise any pending template makes
  it pending; otherwise a template without a compliance keeps the previous value; only when
  every template has one is the policy compliant.\<close>

theorem overall_compliance_priority:
  "overall_compliance old (map Some ds) =
     Some (if NonCompliant \<in> d_compliance ` set ds then NonCompliant
           else if Pending \<in> d_compliance ` set ds then Pending
           else if [] \<in> d_compliance ` set ds then old
           else Compliant)"
  using overall_compliance_Some by (simp add: compliance_spec_def)

text \<open>C2. On a cluster that is not the hub itself, a reconcile of a replicated policy that is
  in agreement with the hub and returns without an error leaves the same status on both
  clusters: one entry per policy template in the order of the templates, each with at most
  ten history entries, most recent first, and the compliance of its first entry, and the
  overall compliance by priority. Nothing but the status of the two policies changes.\<close>

theorem status_sync_converges:
  assumes "status_env papi look eapi wapi"
    and "Reconcile_status b lib papi eapi wapi r request w = (Done, w')"
    and "\<not> sr_onMulticlusterhub r"
    and "look Managed request (w_env w) = Some m"
    and "look Hub (hub_key r request) (w_env w) = Some h"
    and "EquivalentReplicatedPolicies m h"
  shows "\<exists>m' h'. look Managed request (w_env w') = Some m' \<and> same_object m m' \<and>
    look Hub (hub_key r request) (w_env w') = Some h' \<and> same_object h h' \<and>
    p_status h' = p_status m' \<and> recalculated lib m (p_status m')"
  by (rule status_env.Reconcile_status_Done [OF assms])

definition sample_lib :: klib where
  "sample_lib = \<lparr>nestedString = \<lambda>_ _. ([], False, False), nestedInt64 = \<lambda>_ _. (0, False, False),
     nestedBool = \<lambda>_ _. (False, False, False), nestedSlice = \<lambda>_ _. ([], False, False), nestedErrorText = \<lambda>_ _. [],
     setNestedField = \<lambda>c _ _. (c, False), decodeTemplate = \<lambda>_. Inl (GErr OtherReason ''bad''),
     unmarshalObject = \<lambda>_. Inl (GErr OtherReason ''bad''),
     unmarshalMap = \<lambda>_. Inl (GErr OtherReason ''bad''),
     historyEvent = \<lambda>_. None,
     newControllerRef = \<lambda>p. \<lparr>or_apiVersion = p_apiVersion p, or_kind = p_kind p, or_name = p_name p,
       or_uid = p_uid p, or_controller = Some True, or_blockOwnerDeletion = Some True\<rparr>, crdQueryText = []\<rparr>"

definition sample_replica :: "string \<Rightarrow> policy" where
  "sample_replica ns =
     \<lparr>p_name = ''pol'', p_namespace = ns, p_uid = ''u1'', p_kind = PolicyKind,
      p_apiVersion = APIGroup @ ''/v1'', p_generation = 1, p_resourceVersion = ''7'',
      p_deleting = False, p_labels = Map.empty, p_annotations = Map.empty,
      p_owners = [], p_finalizers = [],
      p_spec = \<lparr>sp_disabled = False, sp_remediationAction = ''inform'', sp_dependencies = [],
        sp_templates = [\<lparr>t_raw = ''x'', t_extraDependencies = [], t_ignorePending = False\<rparr>],
        sp_other = []\<rparr>,
      p_status = \<lparr>s_placement = [], s_clusters = [], s_compliance = [], s_details = []\<rparr>\<rparr>"

definition sample_pair :: mem where
  "sample_pair = mem_put Hub (sample_replica ''c1'')
     (mem_put Managed (sample_replica ''managed'') (\<lambda>_ _. None))"

definition sample_status_reconciler :: status_reconciler where
  "sample_status_reconciler =
     \<lparr>sr_clusterNamespaceOnHub = ''c1'', sr_hasSpecSyncRequests = True, sr_onMulticlusterhub = False\<rparr>"

abbreviation sample_status_run :: "reconcile_result \<times> mem world" where
  "sample_status_run \<equiv> Reconcile_status False sample_lib mem_papi (sample_eapi []) sample_wapi
     sample_status_reconciler (nn ''managed'' ''pol'') \<lparr>w_env = sample_pair, w_log = []\<rparr>"

lemma sample_pair_look:
  "mem_look Managed (nn ''managed'' ''pol'') sample_pair = Some (sample_replica ''managed'')"
  "mem_look Hub (hub_key sample_status_reconciler (nn ''managed'' ''pol'')) sample_pair =
     Some (sample_replica ''c1'')"
  by (simp_all add: sample_pair_def sample_replica_def policy_nn_def hub_key_def
      sample_status_reconciler_def)

lemmas status_run_defs = Reconcile_status_def reconcile_policy_status_def getInstances_def
  getDetails_def getEventsInCluster_def resolve_template_def updateStatuses_def
  update_managed_status_def update_hub_status_def overall_compliance_def Let_def

lemma sample_merge_nothing:
  "mergeDetails [] [] (template_default_name 0) =
     Some \<lparr>d_name = template_default_name 0, d_compliance = [], d_history = []\<rparr>"
  by code_simp

lemma sample_status_Done: "fst sample_status_run = Done"
  by (simp add: status_run_defs call_def act_def mem_defs sample_lib_def sample_eapi_def
      sample_wapi_def sample_status_reconciler_def sample_pair_def sample_replica_def policy_nn_def
      EquivalentReplicatedPolicies_iff sample_merge_nothing)

theorem status_sync_converges_witness:
  "\<exists>m' h'. mem_look Managed (nn ''managed'' ''pol'') (w_env (snd sample_status_run)) = Some m' \<and>
     same_object (sample_replica ''managed'') m' \<and>
     mem_look Hub (hub_key sample_status_reconciler (nn ''managed'' ''pol''))
       (w_env (snd sample_status_run)) = Some h' \<and>
     same_object (sample_replica ''c1'') h' \<and> p_status h' = p_status m' \<and>
     recalculated sample_lib (sample_replica ''managed'') (p_status m')"
proof -
  have "sample_status_run = (Done, snd sample_status_run)"
    using sample_status_Done prod.collapse by metis
  from status_sync_converges [OF mem_status.status_env_axioms this] show ?thesis
    using sample_pair_look
    by (simp add: sample_status_reconciler_def sample_replica_def EquivalentReplicatedPolicies_iff)
qed

text \<open>C14. Whatever a reconcile of a policy attempts, and whatever it returns, it writes a
  status only where the new status differs from the stored one and never changes anything but
  the status, it never writes to the hub when it runs on the hub, it records events only on
  the two copies of that policy, and it calls on spec-sync only for the hub copy of that
  policy when one of the two copies exists.\<close>

theorem status_sync_writes:
  assumes "status_env papi look eapi wapi"
    and "Reconcile_status b lib papi eapi wapi r request w = (res, w')"
  shows "\<exists>es. w_log w' = w_log w @ es \<and> list_all (about_status r request
    (look Managed request (w_env w)) (look Hub (hub_key r request) (w_env w))) es"
  using assms by (rule status_env.Reconcile_status_log)

theorem status_sync_writes_witness:
  "\<exists>es. w_log (snd sample_status_run) = es \<and> list_all (about_status sample_status_reconciler
     (nn ''managed'' ''pol'') (Some (sample_replica ''managed'')) (Some (sample_replica ''c1''))) es"
  using status_sync_writes [OF mem_status.status_env_axioms [of "[]"] prod.collapse [symmetric],
      where b = False and lib = sample_lib and r = sample_status_reconciler
        and request = "nn ''managed'' ''pol''" and w = "\<lparr>w_env = sample_pair, w_log = []\<rparr>"] sample_pair_look
  by simp

text \<open>A reconcile does not dereference a \<^verbatim>\<open>nil\<close> pointer as long as the stored status of
  the managed policy has no \<^verbatim>\<open>nil\<close> details entry, whatever the events, the templates and the
  hub are.\<close>

theorem status_sync_no_panic:
  assumes "status_env papi look eapi wapi"
    and "\<And>m. look Managed request (w_env w) = Some m \<Longrightarrow> None \<notin> set (s_details (p_status m))"
  shows "fst (Reconcile_status b lib papi eapi wapi r request w) \<noteq> Panicked"
  using assms by (rule status_env.Reconcile_status_no_panic)

theorem status_sync_no_panic_witness:
  "fst sample_status_run \<noteq> Panicked"
  by (rule status_sync_no_panic [OF mem_status.status_env_axioms])
    (use sample_pair_look in \<open>auto simp: sample_replica_def\<close>)

text \<open>The fetch at the start of a reconcile, from what the two clusters hold: both
  policies when they agree, nothing when neither is there, and otherwise a request to
  spec-sync for the hub policy; when it fails it has requested nothing.\<close>

theorem getInstances_requests:
  assumes "policy_store papi look"
    and "getInstances papi r request w = (res, w')"
  shows "case res of
      Inl e \<Rightarrow> w_log w' = w_log w
    | Inr (mi, hi) \<Rightarrow>
        (\<exists>es. instances_spec r request (look Managed request (w_env w))
           (look Hub (hub_key r request) (w_env w)) = (mi, hi, es) \<and> w_log w' = w_log w @ es)"
  using policy_store.getInstances_Inl [OF assms(1)] policy_store.getInstances_Inr [OF assms(1)]
    assms(2)
  by (cases res) (auto split: prod.splits)

theorem getInstances_requests_witness:
  "w_log (snd (getInstances mem_papi sample_status_reconciler (nn ''managed'' ''gone'')
      \<lparr>w_env = mem_put Hub (sample_replica ''c1''\<lparr>p_name := ''gone''\<rparr>) (\<lambda>_ _. None), w_log = []\<rparr>))
    = [SpecSyncRequest (nn ''c1'' ''gone'')]"
  using getInstances_requests [OF mem_store.policy_store_axioms prod.collapse [symmetric],
      where r = sample_status_reconciler and request = "nn ''managed'' ''gone''"
        and w = "\<lparr>w_env = mem_put Hub (sample_replica ''c1''\<lparr>p_name := ''gone''\<rparr>) (\<lambda>_ _. None),
          w_log = []\<rparr>"]
  by (simp add: getInstances_def call_def mem_defs instances_spec_def spec_requests_def hub_key_def
      policy_nn_def sample_replica_def sample_status_reconciler_def split: sum.splits prod.splits)

end
