(* ===== verification/SecretSync.thy ===== *)
theory SecretSync
  imports PolicyStore
begin

text \<open>
  The secret-sync controller, \<^verbatim>\<open>controllers/secretsync/secret_sync.go\<close>: it keeps the data of the
  encryption key secret on the managed cluster equal to the data of the one on the hub. The
  laws of the secret clients are the locale \<open>secret_store\<close>; over them the controller meets the
  contract \<open>replicator\<close>.
\<close>

section \<open>The controller\<close>

definition SecretName :: string where
  "SecretName = ''policy-encryption-key''"

record secret_reconciler =
  se_targetNamespace :: string

text \<open>The copy has the data and no annotation of the original.\<close>

definition secret_copy :: "secret_reconciler \<Rightarrow> namespaced_name \<Rightarrow> secret \<Rightarrow> secret" where
  "secret_copy r request hubSecret =
     \<lparr>sec_name = nn_name request, sec_namespace = se_targetNamespace r, sec_deleting = False,
      sec_labels = Map.empty, sec_annotations = Map.empty, sec_data = sec_data hubSecret\<rparr>"

definition Reconcile_secret ::
  "bool \<Rightarrow> 'c secret_api \<Rightarrow> secret_reconciler \<Rightarrow> namespaced_name \<Rightarrow> 'c world
     \<Rightarrow> reconcile_result \<times> 'c world" where
  "Reconcile_secret deploymentIsUninstalling sapi r request w =
     (if deploymentIsUninstalling then (RequeueAfter 300, w)
      else if nn_name request \<noteq> SecretName then (Done, w)
      else
        (let managedName = nn (se_targetNamespace r) (nn_name request) in
         case call (secGet sapi Hub request) w of
           (Inl err, w) \<Rightarrow>
             (if \<not> IsNotFound err then (Failed err, w)
              else (case act (SecretDelete managedName) (secDelete sapi managedName) w of
                      (None, w) \<Rightarrow> (Done, w)
                    | (Some err, w) \<Rightarrow> (if \<not> IsNotFound err then (Failed err, w) else (Done, w))))
         | (Inr hubEncryptionSecret, w) \<Rightarrow>
             (case call (secGet sapi Managed managedName) w of
                (Inl err, w) \<Rightarrow>
                  (if \<not> IsNotFound err then (Failed err, w)
                   else
                     (let managedEncryptionSecret = secret_copy r request hubEncryptionSecret
                      in case act (SecretCreate managedEncryptionSecret)
                                (secCreate sapi managedEncryptionSecret) w of
                           (Some err, w) \<Rightarrow> (Failed err, w)
                         | (None, w) \<Rightarrow> (Done, w)))
              | (Inr managedEncryptionSecret, w) \<Rightarrow>
                  (if sec_data hubEncryptionSecret \<noteq> sec_data managedEncryptionSecret
                   then
                     (let managedEncryptionSecret =
                            managedEncryptionSecret\<lparr>sec_data := sec_data hubEncryptionSecret\<rparr>
                      in case act (SecretUpdate managedEncryptionSecret)
                                (secUpdate sapi managedEncryptionSecret) w of
                           (Some err, w) \<Rightarrow> (Failed err, w)
                         | (None, w) \<Rightarrow> (Done, w))
                   else (Done, w)))))"

interpretation secret_pause: pausing "\<lambda>b. Reconcile_secret b sapi r" for sapi r
  by unfold_locales (simp add: Reconcile_secret_def)

section \<open>The laws of the secret clients\<close>

type_synonym 'c secret_lookup = "cluster \<Rightarrow> namespaced_name \<Rightarrow> 'c \<Rightarrow> secret option"

locale secret_store =
  fixes sapi :: "'c secret_api" and slook :: "'c secret_lookup"
  assumes sget_look: "secGet sapi cl k c = (x, c') \<Longrightarrow> slook cl2 k2 c' = slook cl2 k2 c"
    and sget_Inr: "secGet sapi cl k c = (Inr s, c') \<Longrightarrow> slook cl k c = Some s"
    and sget_Inl: "secGet sapi cl k c = (Inl e, c') \<Longrightarrow> IsNotFound e \<Longrightarrow> slook cl k c = None"
    and slook_nn: "slook cl k c = Some s \<Longrightarrow> secret_nn s = k"
    and screate_None: "secCreate sapi s c = (None, c') \<Longrightarrow>
      \<exists>q. slook Managed (secret_nn s) c' = Some q \<and> sec_data q = sec_data s"
    and screate_look: "secCreate sapi s c = (d, c') \<Longrightarrow> (cl2, k2) \<noteq> (Managed, secret_nn s) \<Longrightarrow>
      slook cl2 k2 c' = slook cl2 k2 c"
    and supdate_None: "secUpdate sapi s c = (None, c') \<Longrightarrow>
      \<exists>q. slook Managed (secret_nn s) c' = Some q \<and> sec_data q = sec_data s"
    and supdate_look: "secUpdate sapi s c = (d, c') \<Longrightarrow> (cl2, k2) \<noteq> (Managed, secret_nn s) \<Longrightarrow>
      slook cl2 k2 c' = slook cl2 k2 c"
    and sdelete_None: "secDelete sapi k c = (None, c') \<Longrightarrow>
      (case slook Managed k c' of None \<Rightarrow> True | Some q \<Rightarrow> sec_deleting q)"
    and sdelete_Some: "secDelete sapi k c = (Some e, c') \<Longrightarrow>
      slook Managed k c' = slook Managed k c \<and> (IsNotFound e \<longrightarrow> slook Managed k c = None)"
    and sdelete_look: "secDelete sapi k c = (d, c') \<Longrightarrow> (cl2, k2) \<noteq> (Managed, k) \<Longrightarrow>
      slook cl2 k2 c' = slook cl2 k2 c"
begin

lemma call_sget:
  assumes "call (secGet sapi cl k) w = (x, w')"
  shows "slook cl2 k2 (w_env w') = slook cl2 k2 (w_env w)"
    and "x = Inr s \<Longrightarrow> slook cl k (w_env w) = Some s"
    and "x = Inl e \<Longrightarrow> IsNotFound e \<Longrightarrow> slook cl k (w_env w) = None"
  using assms sget_look sget_Inr sget_Inl by (auto simp: call_def split: prod.splits)

lemma act_screate:
  assumes "act eff (secCreate sapi s) w = (x, w')"
  shows "x = None \<Longrightarrow> \<exists>q. slook Managed (secret_nn s) (w_env w') = Some q \<and> sec_data q = sec_data s"
    and "(cl2, k2) \<noteq> (Managed, secret_nn s) \<Longrightarrow> slook cl2 k2 (w_env w') = slook cl2 k2 (w_env w)"
  using assms screate_None screate_look by (auto simp: act_def split: prod.splits)

lemma act_supdate:
  assumes "act eff (secUpdate sapi s) w = (x, w')"
  shows "x = None \<Longrightarrow> \<exists>q. slook Managed (secret_nn s) (w_env w') = Some q \<and> sec_data q = sec_data s"
    and "(cl2, k2) \<noteq> (Managed, secret_nn s) \<Longrightarrow> slook cl2 k2 (w_env w') = slook cl2 k2 (w_env w)"
  using assms supdate_None supdate_look by (auto simp: act_def split: prod.splits)

lemma act_sdelete:
  assumes "act eff (secDelete sapi k) w = (x, w')"
  shows "x = None \<or> (\<exists>e. x = Some e \<and> IsNotFound e) \<Longrightarrow>
      (case slook Managed k (w_env w') of None \<Rightarrow> True | Some q \<Rightarrow> sec_deleting q)"
    and "(cl2, k2) \<noteq> (Managed, k) \<Longrightarrow> slook cl2 k2 (w_env w') = slook cl2 k2 (w_env w)"
  using assms sdelete_None sdelete_Some sdelete_look
  by (auto simp: act_def split: prod.splits)

end

section \<open>The contract\<close>

text \<open>What the replica must be, given the hub.\<close>

definition secret_agrees ::
  "'c secret_lookup \<Rightarrow> secret_reconciler \<Rightarrow> string \<Rightarrow> 'c \<Rightarrow> string \<Rightarrow> bool" where
  "secret_agrees slook r hubNamespace c name \<longleftrightarrow>
     name = SecretName \<longrightarrow>
     (case slook Hub (nn hubNamespace name) c of
        None \<Rightarrow> (case slook Managed (nn (se_targetNamespace r) name) c of
                   None \<Rightarrow> True | Some q \<Rightarrow> sec_deleting q)
      | Some p \<Rightarrow> (case slook Managed (nn (se_targetNamespace r) name) c of
                   None \<Rightarrow> False | Some q \<Rightarrow> sec_data q = sec_data p))"

text \<open>What it may write: the bare copy where there is none, the stored secret with new data
  where the data differ, and the deletion of the copy where the original is gone.\<close>

fun secret_write ::
  "secret_reconciler \<Rightarrow> secret option \<Rightarrow> secret option \<Rightarrow> effect \<Rightarrow> bool" where
  "secret_write r hub managed (SecretCreate s) \<longleftrightarrow>
     managed = None \<and> (\<exists>p. hub = Some p \<and> s = secret_copy r (nn [] SecretName) p)"
| "secret_write r hub managed (SecretUpdate s) \<longleftrightarrow>
     (\<exists>p q. hub = Some p \<and> managed = Some q \<and> sec_data p \<noteq> sec_data q \<and> s = q\<lparr>sec_data := sec_data p\<rparr>)"
| "secret_write r hub managed (SecretDelete k) \<longleftrightarrow>
     hub = None \<and> k = nn (se_targetNamespace r) SecretName"
| "secret_write r hub managed _ \<longleftrightarrow> False"

lemma secret_nn_simps [simp]:
  "secret_nn (q\<lparr>sec_data := d\<rparr>) = secret_nn q"
  "secret_nn (secret_copy r k p) = nn (se_targetNamespace r) (nn_name k)"
  "sec_data (secret_copy r k p) = sec_data p"
  by (simp_all add: secret_nn_def secret_copy_def)

lemma secret_copy_name: "nn_name k = nn_name k' \<Longrightarrow> secret_copy r k p = secret_copy r k' p"
  by (simp add: secret_copy_def)

context secret_store
begin

lemma Reconcile_secret_step:
  assumes "Reconcile_secret b sapi r (nn ns name) w = (res, w')"
  shows "(res = Done \<longrightarrow> secret_agrees slook r ns (w_env w') name)
    \<and> ((cl2, k2) \<noteq> (Managed, nn (se_targetNamespace r) name) \<or> name \<noteq> SecretName \<longrightarrow>
        slook cl2 k2 (w_env w') = slook cl2 k2 (w_env w))
    \<and> (\<exists>es. w_log w' = w_log w @ es \<and> list_all (secret_write r (slook Hub (nn ns name) (w_env w))
         (slook Managed (nn (se_targetNamespace r) name) (w_env w))) es)"
proof (cases "b \<or> name \<noteq> SecretName")
  case True
  then have "w' = w \<and> (res = Done \<longrightarrow> name \<noteq> SecretName)"
    using assms by (cases b) (auto simp: Reconcile_secret_def)
  then show ?thesis by (simp add: secret_agrees_def split: option.split)
next
  case name: False
  let ?m = "nn (se_targetNamespace r) name"
  obtain x w1 where g: "call (secGet sapi Hub (nn ns name)) w = (x, w1)" by fastforce
  note G = call_sget [OF g] call_log [OF g]
  show ?thesis
  proof (cases x)
    case (Inl e)
    obtain d w2 where d: "act (SecretDelete ?m) (secDelete sapi ?m) w1 = (d, w2)" by fastforce
    note D = act_sdelete [OF d] act_log [OF d]
    show ?thesis using assms name g Inl d G D
      by (cases d) (auto simp: Reconcile_secret_def secret_agrees_def Let_def split: if_splits)
  next
    case (Inr p)
    obtain y w2 where h: "call (secGet sapi Managed ?m) w1 = (y, w2)" by fastforce
    note H = call_sget [OF h] call_log [OF h]
    show ?thesis
    proof (cases y)
      case (Inl e)
      let ?c = "secret_copy r (nn ns name) p"
      obtain d w3 where c: "act (SecretCreate ?c) (secCreate sapi ?c) w2 = (d, w3)" by fastforce
      note C = act_screate [OF c] act_log [OF c]
      show ?thesis using assms name g Inr h Inl c G H C
          secret_copy_name [of "nn ns name" "nn [] SecretName" r p]
        by (cases d) (auto simp: Reconcile_secret_def secret_agrees_def Let_def split: if_splits)
    next
      case q: (Inr q)
      let ?q = "q\<lparr>sec_data := sec_data p\<rparr>"
      have nn: "secret_nn q = ?m" using slook_nn H(2) q by auto
      obtain d w3 where u: "act (SecretUpdate ?q) (secUpdate sapi ?q) w2 = (d, w3)" by fastforce
      note U = act_supdate [OF u] act_log [OF u]
      show ?thesis using assms name g Inr h q u G H U nn
        by (cases d) (auto simp: Reconcile_secret_def secret_agrees_def Let_def split: if_splits)
    qed
  qed
qed

lemmas Reconcile_secret_Done = Reconcile_secret_step [THEN conjunct1, rule_format]
lemmas Reconcile_secret_look = Reconcile_secret_step [THEN conjunct2, THEN conjunct1, rule_format]
lemmas Reconcile_secret_log = Reconcile_secret_step [THEN conjunct2, THEN conjunct2]

end

locale secret_sync_env = secret_store sapi slook
  for sapi :: "'c secret_api" and slook :: "'c secret_lookup" +
  fixes r :: secret_reconciler and hubNamespace :: string

sublocale secret_sync_env \<subseteq> secret: replicator
  "\<lambda>name. Reconcile_secret False sapi r (nn hubNamespace name)" "secret_agrees slook r hubNamespace"
proof
  fix k w w'
  assume s: "Reconcile_secret False sapi r (nn hubNamespace k) w = (Done, w')"
  show "secret_agrees slook r hubNamespace (w_env w') k \<longleftrightarrow> \<not> False" using Reconcile_secret_Done [OF s] by simp
next
  fix k w res w' k'
  assume s: "Reconcile_secret False sapi r (nn hubNamespace k) w = (res, w')" and "k' \<noteq> k"
  show "secret_agrees slook r hubNamespace (w_env w') k' \<longleftrightarrow> secret_agrees slook r hubNamespace (w_env w) k'"
  proof (cases "k' = SecretName")
    case True
    then have "slook cl k2 (w_env w') = slook cl k2 (w_env w)" for cl k2
      using Reconcile_secret_look [OF s] \<open>k' \<noteq> k\<close> by simp
    then show ?thesis by (simp add: secret_agrees_def split: option.split)
  qed (simp add: secret_agrees_def)
qed

section \<open>An in-memory store of secrets\<close>

type_synonym smem = "cluster \<Rightarrow> namespaced_name \<Rightarrow> secret option"

definition smem_look :: "smem secret_lookup" where
  "smem_look cl k m = (case m cl k of Some s \<Rightarrow> if secret_nn s = k then Some s else None | None \<Rightarrow> None)"

definition smem_put :: "cluster \<Rightarrow> secret \<Rightarrow> smem \<Rightarrow> smem" where
  "smem_put cl s m = m(cl := (m cl)(secret_nn s \<mapsto> s))"

definition smem_sapi :: "smem secret_api" where
  "smem_sapi = \<lparr>
     secGet = \<lambda>cl k m. (case smem_look cl k m of None \<Rightarrow> Inl mem_missing | Some s \<Rightarrow> Inr s, m),
     secCreate = \<lambda>s m. (case smem_look Managed (secret_nn s) m of
         Some _ \<Rightarrow> (Some (GErr Conflict ''already exists''), m)
       | None \<Rightarrow> (None, smem_put Managed s m)),
     secUpdate = \<lambda>s m. (case smem_look Managed (secret_nn s) m of
         None \<Rightarrow> (Some mem_missing, m)
       | Some _ \<Rightarrow> (None, smem_put Managed s m)),
     secDelete = \<lambda>k m. (case smem_look Managed k m of
         None \<Rightarrow> (Some mem_missing, m)
       | Some _ \<Rightarrow> (None, m(Managed := (m Managed)(k := None))))\<rparr>"

lemma smem_look_simps [simp]:
  "smem_look cl2 k2 (smem_put cl s m) =
     (if cl2 = cl \<and> k2 = secret_nn s then Some s else smem_look cl2 k2 m)"
  "smem_look cl2 k2 (m(cl := (m cl)(k := None))) =
     (if cl2 = cl \<and> k2 = k then None else smem_look cl2 k2 m)"
  "smem_look cl2 k2 (\<lambda>_ _. None) = None"
  by (auto simp: smem_look_def smem_put_def)

lemma smem_look_nn: "smem_look cl k m = Some s \<Longrightarrow> secret_nn s = k"
  by (auto simp: smem_look_def split: option.splits if_splits)

interpretation smem_store: secret_store smem_sapi smem_look
  by unfold_locales
    (auto simp: smem_sapi_def mem_missing_def IsNotFound_def dest: smem_look_nn split: option.splits)

interpretation smem_sync: secret_sync_env smem_sapi smem_look r hubNamespace for r hubNamespace ..

context secret_sync_env
begin

lemma secret_queue_agrees:
  assumes "work_off (\<lambda>name. Reconcile_secret False sapi r (nn hubNamespace name)) names w = (rs, w')"
    and "set rs \<subseteq> {Done}" and "name \<in> set names"
  shows "secret_agrees slook r hubNamespace (w_env w') name"
  using assms by (rule secret.work_off_agrees)

end

section \<open>Properties\<close>

definition sample_secret :: "string \<Rightarrow> string \<Rightarrow> secret" where
  "sample_secret ns v = \<lparr>sec_name = SecretName, sec_namespace = ns, sec_deleting = False,
     sec_labels = Map.empty, sec_annotations = Map.empty(''backup'' \<mapsto> ''yes''),
     sec_data = Map.empty(''key'' \<mapsto> v)\<rparr>"

definition sample_smem :: smem where
  "sample_smem = smem_put Hub (sample_secret ''c1'' ''k2'')
     (smem_put Managed (sample_secret ''managed'' ''k1'') (\<lambda>_ _. None))"

abbreviation sample_secret_run :: "reconcile_result list \<times> smem world" where
  "sample_secret_run \<equiv>
     work_off (\<lambda>name. Reconcile_secret False smem_sapi \<lparr>se_targetNamespace = ''managed''\<rparr> (nn ''c1'' name))
       [''other'', SecretName] \<lparr>w_env = sample_smem, w_log = []\<rparr>"

text \<open>C26. Once the requests of a queue have been worked off without an error, the encryption
  key on the managed cluster has the data of the one on the hub, and it is gone (or being
  deleted) when the hub has none.\<close>

theorem secret_sync_converges:
  assumes "secret_sync_env sapi slook"
    and "work_off (\<lambda>name. Reconcile_secret False sapi r (nn hubNamespace name)) names w = (rs, w')"
    and "set rs \<subseteq> {Done}" and "name \<in> set names"
  shows "secret_agrees slook r hubNamespace (w_env w') name"
  by (rule secret_sync_env.secret_queue_agrees [OF assms])

lemma sample_secret_Done: "fst sample_secret_run = [Done, Done]"
  by (simp add: Reconcile_secret_def call_def act_def Let_def smem_sapi_def sample_smem_def
      sample_secret_def secret_nn_def SecretName_def)

theorem secret_sync_converges_witness:
  "secret_agrees smem_look \<lparr>se_targetNamespace = ''managed''\<rparr> ''c1''
     (w_env (snd sample_secret_run)) SecretName"
  by (rule secret_sync_converges [OF smem_sync.secret_sync_env_axioms prod.collapse [symmetric]])
    (simp_all only: sample_secret_Done, simp_all)

text \<open>A reconcile only ever writes the encryption key in the target namespace: it creates
  a copy with the data and without the labels and annotations of the original when there is
  none, it replaces the data of an existing copy and keeps its metadata when the data differ,
  and it deletes the copy only when the original is gone. Everything else stays as it is.\<close>

theorem secret_sync_writes:
  assumes "secret_store sapi slook"
    and "Reconcile_secret b sapi r (nn ns name) w = (res, w')"
  shows "((cl, k) \<noteq> (Managed, nn (se_targetNamespace r) SecretName) \<longrightarrow>
      slook cl k (w_env w') = slook cl k (w_env w))
    \<and> (\<exists>es. w_log w' = w_log w @ es \<and> list_all (secret_write r (slook Hub (nn ns name) (w_env w))
         (slook Managed (nn (se_targetNamespace r) name) (w_env w))) es)"
  using secret_store.Reconcile_secret_look [OF assms] secret_store.Reconcile_secret_log [OF assms]
  by (cases "name = SecretName") simp_all

theorem secret_sync_writes_witness:
  "smem_look Hub (nn ''c1'' SecretName) (w_env (snd (Reconcile_secret False smem_sapi
      \<lparr>se_targetNamespace = ''managed''\<rparr> (nn ''c1'' SecretName) \<lparr>w_env = sample_smem, w_log = []\<rparr>)))
    = smem_look Hub (nn ''c1'' SecretName) sample_smem"
  using secret_sync_writes [OF smem_store.secret_store_axioms prod.collapse [symmetric],
      where b = False and r = "\<lparr>se_targetNamespace = ''managed''\<rparr>" and ns = "''c1''"
        and name = SecretName and w = "\<lparr>w_env = sample_smem, w_log = []\<rparr>"
        and cl = Hub and k = "nn ''c1'' SecretName"]
  by simp

end
