(* ===== verification/Sha1.thy ===== *)
theory Sha1
  imports Prelude "HOL-Library.Word"
begin

text \<open>
  \<^verbatim>\<open>crypto/sha1\<close> of the Go library, which the gatekeeper-sync controller uses to remember the
  messages it has sent: the digest of a byte string as its five 32-bit words, with wrapping
  addition and rotation on \<^typ>\<open>32 word\<close>.
\<close>

unbundle bit_operations_syntax

type_synonym digest = "32 word list"

definition rotl :: "nat \<Rightarrow> 32 word \<Rightarrow> 32 word" where
  "rotl n w = push_bit n w OR drop_bit (32 - n) w"

fun be_bytes :: "nat \<Rightarrow> nat \<Rightarrow> nat list" where
  "be_bytes 0 n = []"
| "be_bytes (Suc k) n = be_bytes k (n div 256) @ [n mod 256]"

definition pad :: "nat list \<Rightarrow> nat list" where
  "pad m = m @ 128 # replicate ((119 - length m mod 64) mod 64) 0 @ be_bytes 8 (8 * length m)"

fun words :: "nat list \<Rightarrow> 32 word list" where
  "words (a # b # c # d # bs) =
     (((of_nat a * 256 + of_nat b) * 256 + of_nat c) * 256 + of_nat d) # words bs"
| "words _ = []"

text \<open>The message schedule, from the most recent word backwards.\<close>

fun extend :: "nat \<Rightarrow> 32 word list \<Rightarrow> 32 word list" where
  "extend 0 ws = ws"
| "extend (Suc n) ws =
     extend n (rotl 1 (ws ! 2 XOR ws ! 7 XOR ws ! 13 XOR ws ! 15) # ws)"

definition schedule :: "32 word list \<Rightarrow> 32 word list" where
  "schedule block = rev (extend 64 (rev block))"

definition round_f :: "nat \<Rightarrow> 32 word \<Rightarrow> 32 word \<Rightarrow> 32 word \<Rightarrow> 32 word" where
  "round_f t b c d =
     (if t < 20 then (b AND c) OR (NOT b AND d)
      else if t < 40 then b XOR c XOR d
      else if t < 60 then ((b OR c) AND d) OR (b AND c)
      else b XOR c XOR d)"

definition round_k :: "nat \<Rightarrow> 32 word" where
  "round_k t = (if t < 20 then 0x5A827999 else if t < 40 then 0x6ED9EBA1
     else if t < 60 then 0x8F1BBCDC else 0xCA62C1D6)"

type_synonym sha_state = "32 word \<times> 32 word \<times> 32 word \<times> 32 word \<times> 32 word"

fun rounds :: "nat \<Rightarrow> 32 word list \<Rightarrow> sha_state \<Rightarrow> sha_state" where
  "rounds t [] st = st"
| "rounds t (w # ws) (a, b, c, d, e) =
     rounds (Suc t) ws (rotl 5 a + round_f t b c d + e + w + round_k t, a, rotl 30 b, c, d)"

fun blocks :: "nat \<Rightarrow> 32 word list \<Rightarrow> sha_state \<Rightarrow> sha_state" where
  "blocks 0 ws st = st"
| "blocks (Suc n) ws (a, b, c, d, e) =
     (case rounds 0 (schedule (take 16 ws)) (a, b, c, d, e) of
        (a', b', c', d', e') \<Rightarrow> blocks n (drop 16 ws) (a + a', b + b', c + c', d + d', e + e'))"

text \<open>The message is cut into as many blocks as its padded length has.\<close>

definition sha1_Sum :: "string \<Rightarrow> digest" where
  "sha1_Sum s =
     (let ws = words (pad (map of_char s))
      in case blocks (length ws div 16) ws
           (0x67452301, 0xEFCDAB89, 0x98BADCFE, 0x10325476, 0xC3D2E1F0) of
           (a, b, c, d, e) \<Rightarrow> [a, b, c, d, e])"

lemma length_be_bytes [simp]: "length (be_bytes k n) = k"
  by (induction k arbitrary: n) auto

text \<open>The padded message is a whole number of blocks.\<close>

lemma length_pad: "64 dvd length (pad m)"
proof -
  define r q where "r = length m mod 64" and "q = length m div 64"
  have m: "length m = 64 * q + r" by (simp add: r_def q_def)
  have "length (pad m) = length m + 9 + (119 - r) mod 64" by (simp add: pad_def r_def)
  then have len: "length (pad m) = 64 * q + (r + 9 + (119 - r) mod 64)" using m by linarith
  show ?thesis
  proof (cases "r \<le> 55")
    case True
    then have "119 - r = 64 + (55 - r)" by simp
    then have "(119 - r) mod 64 = (55 - r) mod 64" by (simp only: mod_add_self1)
    then have e: "r + 9 + (119 - r) mod 64 = 64" using True by simp
    show ?thesis unfolding len e by simp
  next
    case False
    moreover have "r < 64" by (simp add: r_def)
    ultimately have e: "r + 9 + (119 - r) mod 64 = 64 * 2" by simp
    show ?thesis unfolding len e by (intro dvd_add) simp_all
  qed
qed

lemma length_sha1_Sum [simp]: "length (sha1_Sum s) = 5"
  by (simp add: sha1_Sum_def Let_def split: prod.splits)

end
