(* ===== verification/GatekeeperSync.thy ===== *)
theory GatekeeperSync
  imports StatusHistory PolicyStore Sha1 "HOL-Library.Sublist"
begin

text \<open>
  The gatekeeper-sync controller, \<^verbatim>\<open>controllers/gatekeepersync\<close>: it relays the audit results of
  the Gatekeeper constraints of a policy as compliance events, once per message, and keeps a
  cache of the digests of the messages it has sent (\<^verbatim>\<open>lastSentMessages\<close>, a map that is passed
  through the definitions). A type assertion that fails and a dereferenced \<^verbatim>\<open>nil\<close> are panics.

  What a reconcile sends and caches is specified over the cluster it reads: the locale
  \<open>gatekeeper_view\<close> says that the watcher, the webhook configuration and the policy read the same
  throughout a reconcile, and \<open>audited_constraint\<close>, \<open>report_text\<close> and \<open>verdict\<close> say what the constraint of
  a template gives.
\<close>

section \<open>Data\<close>

definition GatekeeperWebhookName :: string where
  "GatekeeperWebhookName = ''gatekeeper-validating-webhook-configuration''"

definition crdGVK :: gvk where
  "crdGVK = \<lparr>g_group = ''apiextensions.k8s.io'', g_version = ''v1'',
     g_kind = ''CustomResourceDefinition''\<rparr>"

record policy_kind_name =
  pk_policy :: string
  pk_kind :: string
  pk_name :: string

type_synonym sent_messages = "policy_kind_name \<rightharpoonup> digest"

text \<open>The clients of the controller: the policy cache, the webhook configuration (the names of
  its webhooks), the events and the watcher of the constraints.\<close>

record 'c gatekeeper_api =
  gkPolicies :: "'c policy_api"
  gkWebhooks :: "namespaced_name \<Rightarrow> 'c \<Rightarrow> (gerr + string list) \<times> 'c"
  gkEvents :: "'c event_api"
  gkWatcher :: "'c watch_api"

section \<open>Sending a compliance event\<close>

text \<open>The action, and whether it is not a string; then the action is empty.\<close>

definition getEnforcementAction :: "klib \<Rightarrow> unstr \<Rightarrow> string \<times> bool" where
  "getEnforcementAction lib constraint =
     (case nestedString lib (u_content constraint) [''spec'', ''enforcementAction''] of
        (action, found, err) \<Rightarrow>
          if err then ([], True)
          else if \<not> found then (''deny'', False)
          else (action, False))"

definition webhookEnabled ::
  "'c gatekeeper_api \<Rightarrow> 'c world \<Rightarrow> (gerr + bool) \<times> 'c world" where
  "webhookEnabled gapi w =
     (case call (gkWebhooks gapi (nn [] GatekeeperWebhookName)) w of
        (Inr webhooks, w) \<Rightarrow>
          (Inr (list_ex (\<lambda>name. name = ''validation.gatekeeper.sh'') webhooks), w)
      | (Inl err, w) \<Rightarrow> if IsNotFound err then (Inr False, w) else (Inl err, w))"

definition webhook_disabled_message :: "string \<Rightarrow> string \<Rightarrow> string" where
  "webhook_disabled_message enforcementAction msg =
     ''The Gatekeeper validating webhook is disabled but the constraint's spec.enforcementAction is ''
     @ enforcementAction @ ''. '' @ msg"

text \<open>The first part of \<open>sendComplianceEvent\<close>: the message and the compliance to send.\<close>

definition adjusted_compliance ::
  "klib \<Rightarrow> 'c gatekeeper_api \<Rightarrow> unstr \<Rightarrow> string \<Rightarrow> string \<Rightarrow> 'c world
     \<Rightarrow> (gerr + (string \<times> string)) \<times> 'c world" where
  "adjusted_compliance lib gapi constraint msg compliance w =
     (case getEnforcementAction lib constraint of
        (enforcementAction, _) \<Rightarrow>
          if enforcementAction = ''deny''
          then (case webhookEnabled gapi w of
                  (Inl err, w) \<Rightarrow> (Inl err, w)
                | (Inr enabled, w) \<Rightarrow>
                    if \<not> enabled
                    then (Inr (webhook_disabled_message enforcementAction msg, NonCompliant), w)
                    else (Inr (msg, compliance), w))
          else (Inr (msg, compliance), w))"

text \<open>Whether the message is not yet the latest one of the template; absent when the entry is
  a \<^verbatim>\<open>nil\<close> pointer.\<close>

definition status_differs :: "policy \<Rightarrow> nat \<Rightarrow> string \<Rightarrow> bool option" where
  "status_differs pol templateIndex message =
     (let dpts = s_details (p_status pol) in
      if length dpts < templateIndex + 1 then Some True
      else (case dpts ! templateIndex of
              None \<Rightarrow> None
            | Some dpt \<Rightarrow>
                (case d_history dpt of
                   [] \<Rightarrow> Some True
                 | h # _ \<Rightarrow> Some (h_message h \<noteq> message))))"

definition policy_owner_ref :: "policy \<Rightarrow> owner_ref" where
  "policy_owner_ref p =
     \<lparr>or_apiVersion = p_apiVersion p, or_kind = p_kind p, or_name = p_name p, or_uid = p_uid p,
      or_controller = None, or_blockOwnerDeletion = None\<rparr>"

definition sent_key :: "policy \<Rightarrow> unstr \<Rightarrow> policy_kind_name" where
  "sent_key pol constraint =
     \<lparr>pk_policy = p_name pol, pk_kind = g_kind (u_gvk constraint), pk_name = u_name constraint\<rparr>"

definition sendComplianceEvent ::
  "klib \<Rightarrow> 'c gatekeeper_api \<Rightarrow> event_sender \<Rightarrow> policy \<Rightarrow> unstr \<Rightarrow> nat \<Rightarrow> string \<Rightarrow> string
     \<Rightarrow> sent_messages \<Rightarrow> 'c world \<Rightarrow> unit outcome \<times> sent_messages \<times> 'c world" where
  "sendComplianceEvent lib gapi sender pol constraint templateIndex msg compliance sent w =
     (case adjusted_compliance lib gapi constraint msg compliance w of
        (Inl err, w) \<Rightarrow> (Err err, sent, w)
      | (Inr (msg, compliance), w) \<Rightarrow>
          (case call (polGet (gkPolicies gapi) Managed (nn (p_namespace pol) (p_name pol))) w of
             (refreshed, w) \<Rightarrow>
               (let refreshedPolicy = (case refreshed of Inl _ \<Rightarrow> pol | Inr p \<Rightarrow> p);
                    owner = policy_owner_ref refreshedPolicy;
                    kn = sent_key pol constraint
                in case status_differs refreshedPolicy templateIndex (compliance_message compliance msg) of
                     None \<Rightarrow> (Panic, sent, w)
                   | Some True \<Rightarrow>
                       (let msgSHA1 = sha1_Sum msg in
                        if sent kn = Some msgSHA1 then (Ok (), sent, w)
                        else
                          (let rsn = EventReason (u_namespace constraint) (u_name constraint)
                           in case SendEvent (gkEvents gapi) sender (Some constraint) owner rsn msg
                                     compliance w of
                                (Some err, w) \<Rightarrow> (Err err, sent, w)
                              | (None, w) \<Rightarrow> (Ok (), sent(kn \<mapsto> msgSHA1), w)))
                   | Some False \<Rightarrow> (Ok (), sent(kn := None), w))))"

section \<open>The message for the violations of a constraint\<close>

text \<open>The named type assertions on a member of a violation.\<close>

definition jstring :: "json option \<Rightarrow> string option" where
  "jstring v = (case v of Some (JStr s) \<Rightarrow> Some s | _ \<Rightarrow> None)"

definition violation_name :: "jobj \<Rightarrow> string option" where
  "violation_name violation =
     (case jget violation ''namespace'' of
        None \<Rightarrow> jstring (jget violation ''name'')
      | Some ns \<Rightarrow>
          (case (jstring (Some ns), jstring (jget violation ''name'')) of
             (Some ns, Some name) \<Rightarrow> Some (ns @ ''/'' @ name)
           | _ \<Rightarrow> None))"

definition violation_text :: "jobj \<Rightarrow> string \<Rightarrow> string" where
  "violation_text violation name =
     fmt_s (jget violation ''enforcementAction'') @ '' - '' @ fmt_s (jget violation ''message'')
     @ '' (on '' @ fmt_s (jget violation ''kind'') @ '' '' @ name @ '')''"

fun violations_message :: "string \<Rightarrow> json list \<Rightarrow> string option" where
  "violations_message msg [] = Some msg"
| "violations_message msg (JObj violation # vs) =
     (let msg = (if msg \<noteq> [] then msg @ ''; '' else msg)
      in case violation_name violation of
           None \<Rightarrow> None
         | Some name \<Rightarrow> violations_message (msg @ violation_text violation name) vs)"
| "violations_message msg (_ # vs) = violations_message msg vs"

section \<open>The reconcile\<close>

text \<open>\<^verbatim>\<open>Range\<close> over the cache with a \<^verbatim>\<open>Delete\<close> of the keys that a test selects.\<close>

definition delete_sent :: "(policy_kind_name \<Rightarrow> bool) \<Rightarrow> sent_messages \<Rightarrow> sent_messages" where
  "delete_sent test sent = (\<lambda>k. if test k then None else sent k)"

definition crd_name :: "string \<Rightarrow> string" where
  "crd_name kind = ToLower kind @ ''.'' @ GConstraint"

text \<open>What one pass over a constraint that was audited reports: the message and the
  compliance; absent when building the message panics.\<close>

definition audit_report :: "klib \<Rightarrow> unstr \<Rightarrow> (string \<times> string) option" where
  "audit_report lib constraint =
     (case nestedSlice lib (u_content constraint) [''status'', ''violations''] of
        (violations, _, err) \<Rightarrow>
          if err then Some (''The constraint status is invalid'', NonCompliant)
          else if violations = [] then Some (''The constraint has no violations'', Compliant)
          else (case violations_message [] violations of
                  None \<Rightarrow> None
                | Some msg \<Rightarrow> Some (msg, NonCompliant)))"

text \<open>One pass of the loop over the templates: an early return of the reconcile, or the set
  of constraints and the cache for the next pass. The template is the decoded one.\<close>

datatype gk_step = GkReturn reconcile_result | GkNext

definition constraint_step ::
  "klib \<Rightarrow> 'c gatekeeper_api \<Rightarrow> event_sender \<Rightarrow> policy \<Rightarrow> nat \<Rightarrow> unstr \<Rightarrow> sent_messages \<Rightarrow> 'c world
     \<Rightarrow> gk_step \<times> sent_messages \<times> 'c world" where
  "constraint_step lib gapi sender pol templateIndex template sent w =
     (let policyObjID = policyID (p_name pol) (p_namespace pol);
          templateGVK = u_gvk template; constraintName = u_name template
      in case call (wGet (gkWatcher gapi) policyObjID crdGVK [] (crd_name (g_kind templateGVK))) w of
           ((_, Some err), w) \<Rightarrow> (GkReturn (Failed err), sent, w)
         | ((None, None), w) \<Rightarrow> (GkNext, sent, w)
         | ((Some crd, None), w) \<Rightarrow>
             (case call (wGet (gkWatcher gapi) policyObjID templateGVK (u_namespace template)
                     constraintName) w of
                ((_, Some err), w) \<Rightarrow> (GkReturn (Failed err), sent, w)
              | ((None, None), w) \<Rightarrow> (GkNext, sent, w)
              | ((Some constraint, None), w) \<Rightarrow>
                  (case nestedInt64 lib (u_content constraint) [''status'', ''totalViolations''] of
                     (_, auditRan, _) \<Rightarrow>
                       if \<not> auditRan then (GkNext, sent, w)
                       else (case audit_report lib constraint of
                               None \<Rightarrow> (GkReturn Panicked, sent, w)
                             | Some (msg, compliance) \<Rightarrow>
                                 (case sendComplianceEvent lib gapi sender pol constraint
                                         templateIndex msg compliance sent w of
                                    (Ok _, sent, w) \<Rightarrow> (GkNext, sent, w)
                                  | (Err err, sent, w) \<Rightarrow> (GkReturn (Failed err), sent, w)
                                  | (Panic, sent, w) \<Rightarrow> (GkReturn Panicked, sent, w))))))"

fun constraints_loop ::
  "klib \<Rightarrow> 'c gatekeeper_api \<Rightarrow> event_sender \<Rightarrow> policy \<Rightarrow> nat \<Rightarrow> policy_template list
     \<Rightarrow> policy_kind_name list \<Rightarrow> sent_messages \<Rightarrow> 'c world
     \<Rightarrow> (reconcile_result + policy_kind_name list) \<times> sent_messages \<times> 'c world" where
  "constraints_loop lib gapi sender pol i [] constraintsSet sent w = (Inr constraintsSet, sent, w)"
| "constraints_loop lib gapi sender pol i (template # ts) constraintsSet sent w =
     (case unmarshalMap lib (t_raw template) of
        Inl _ \<Rightarrow> constraints_loop lib gapi sender pol (Suc i) ts constraintsSet sent w
      | Inr templateUnstructured \<Rightarrow>
          (if g_group (u_gvk templateUnstructured) \<noteq> GConstraint
           then constraints_loop lib gapi sender pol (Suc i) ts constraintsSet sent w
           else
             (let pkn = \<lparr>pk_policy = p_name pol, pk_kind = g_kind (u_gvk templateUnstructured),
                         pk_name = u_name templateUnstructured\<rparr>;
                  constraintsSet = pkn # constraintsSet
              in case constraint_step lib gapi sender pol i templateUnstructured sent w of
                   (GkReturn result, sent, w) \<Rightarrow> (Inl result, sent, w)
                 | (GkNext, sent, w) \<Rightarrow>
                     constraints_loop lib gapi sender pol (Suc i) ts constraintsSet sent w)))"

definition Reconcile_gatekeeper ::
  "bool \<Rightarrow> klib \<Rightarrow> 'c gatekeeper_api \<Rightarrow> event_sender \<Rightarrow> namespaced_name \<Rightarrow> sent_messages \<Rightarrow> 'c world
     \<Rightarrow> reconcile_result \<times> sent_messages \<times> 'c world" where
  "Reconcile_gatekeeper deploymentIsUninstalling lib gapi sender request sent w =
     (if deploymentIsUninstalling then (RequeueAfter 300, sent, w)
      else
        (let policyObjID = policyID (nn_name request) (nn_namespace request) in
         case call (polGet (gkPolicies gapi) Managed request) w of
           (Inl err, w) \<Rightarrow>
             (if IsNotFound err then
                (let sent = delete_sent (\<lambda>k. pk_policy k = nn_name request) sent
                 in case act (WatchRemove policyObjID) (wRemove (gkWatcher gapi) policyObjID) w of
                      (None, w) \<Rightarrow> (Done, sent, w)
                    | (Some err, w) \<Rightarrow>
                        (if err_reason err = InvalidInput then (Done, sent, w)
                         else (Failed err, sent, w)))
              else (Failed err, sent, w))
         | (Inr pol, w) \<Rightarrow>
             (case call (wStart (gkWatcher gapi) policyObjID) w of
                (Some err, w) \<Rightarrow> (Failed err, sent, w)
              | (None, w) \<Rightarrow>
                  (case constraints_loop lib gapi sender pol 0 (sp_templates (p_spec pol)) [] sent w of
                     (outcome, sent, w) \<Rightarrow>
                       (case outcome of
                          Inl result \<Rightarrow>
                            (case call (wEnd (gkWatcher gapi) policyObjID) w of
                               (_, w) \<Rightarrow> (result, sent, w))
                        | Inr constraintsSet \<Rightarrow>
                            (let sent = delete_sent (\<lambda>k. pk_policy k = p_name pol
                                   \<and> k \<notin> set constraintsSet) sent
                             in case call (wEnd (gkWatcher gapi) policyObjID) w of
                                  (_, w) \<Rightarrow> (Done, sent, w)))))))"

section \<open>Predicate\<close>

fun has_constraint :: "klib \<Rightarrow> policy_template list \<Rightarrow> bool" where
  "has_constraint lib [] \<longleftrightarrow> False"
| "has_constraint lib (template # ts) \<longleftrightarrow>
     (case unmarshalMap lib (t_raw template) of
        Inl _ \<Rightarrow> has_constraint lib ts
      | Inr u \<Rightarrow> if g_group (u_gvk u) = GConstraint then True else has_constraint lib ts)"

definition hasGatekeeperConstraints :: "klib \<Rightarrow> policy \<Rightarrow> bool" where
  "hasGatekeeperConstraints lib pol = has_constraint lib (sp_templates (p_spec pol))"

datatype policy_event = PolCreated policy | PolUpdated policy policy | PolDeleted policy

fun policyPredicates :: "klib \<Rightarrow> policy_event \<Rightarrow> bool" where
  "policyPredicates lib (PolCreated pol) = hasGatekeeperConstraints lib pol"
| "policyPredicates lib (PolUpdated oldPolicy updatedPolicy) =
     (if p_generation oldPolicy = p_generation updatedPolicy then False
      else hasGatekeeperConstraints lib oldPolicy \<or> hasGatekeeperConstraints lib updatedPolicy)"
| "policyPredicates lib (PolDeleted _) = True"

interpretation gatekeeper_pause: pausing
  "\<lambda>b k w. case Reconcile_gatekeeper b lib gapi sender k sent w of (res, _, w') \<Rightarrow> (res, w')"
  for lib gapi sender sent
  by unfold_locales (simp add: Reconcile_gatekeeper_def)

section \<open>The message is the joined list of violations\<close>

definition violation_objects :: "json list \<Rightarrow> jobj list" where
  "violation_objects vs = List.map_filter (\<lambda>v. case v of JObj m \<Rightarrow> Some m | _ \<Rightarrow> None) vs"

definition violation_texts :: "json list \<Rightarrow> string list" where
  "violation_texts vs = map (\<lambda>m. violation_text m (the (violation_name m))) (violation_objects vs)"

lemma violation_objects_simps [simp]:
  "violation_objects [] = []"
  "violation_objects (JObj m # vs) = m # violation_objects vs"
  "(\<And>m. v \<noteq> JObj m) \<Longrightarrow> violation_objects (v # vs) = violation_objects vs"
  by (auto simp: violation_objects_def List.map_filter_simps split: json.splits)

lemma violation_text_nonempty [simp]: "violation_text v n \<noteq> []" "[] \<noteq> violation_text v n"
  by (simp_all add: violation_text_def)

lemma violation_texts_simps [simp]:
  "violation_texts [] = []"
  "violation_name m = Some n \<Longrightarrow>
     violation_texts (JObj m # vs) = violation_text m n # violation_texts vs"
  "(\<And>m. v \<noteq> JObj m) \<Longrightarrow> violation_texts (v # vs) = violation_texts vs"
  by (simp_all add: violation_texts_def)

lemma Join_append1: "ss \<noteq> [] \<Longrightarrow> Join (ss @ [s]) sep = Join ss sep @ sep @ s"
  by (induction ss sep rule: Join.induct) auto

text \<open>The accumulator is the joined prefix; it is empty only before the first violation,
  because the text of a violation never is.\<close>

lemma violations_message_Join:
  assumes "[] \<notin> set acc"
  shows "violations_message (Join acc ''; '') vs =
    (if \<forall>m\<in>set (violation_objects vs). violation_name m \<noteq> None
     then Some (Join (acc @ violation_texts vs) ''; '') else None)"
  using assms
proof (induction vs arbitrary: acc)
  case Nil
  then show ?case by simp
next
  case (Cons v vs)
  have empty: "Join acc ''; '' = [] \<longleftrightarrow> acc = []"
    using Cons.prems by (cases acc rule: remdups_adj.cases) auto
  show ?case
  proof (cases "\<exists>m. v = JObj m")
    case False
    then have "violations_message (Join acc ''; '') (v # vs) = violations_message (Join acc ''; '') vs"
      by (cases v) auto
    then show ?thesis using False Cons.IH [OF Cons.prems] by simp
  next
    case True
    then obtain m where v: "v = JObj m" by blast
    show ?thesis
    proof (cases "violation_name m")
      case (Some n)
      let ?acc = "acc @ [violation_text m n]"
      have "(if Join acc ''; '' \<noteq> [] then Join acc ''; '' @ ''; '' else Join acc ''; '')
          @ violation_text m n = Join ?acc ''; ''"
        using empty by (cases "acc = []") (simp_all add: Join_append1)
      then have "violations_message (Join acc ''; '') (v # vs) =
          violations_message (Join ?acc ''; '') vs"
        by (simp add: v Some Let_def)
      then show ?thesis using Cons.IH [of ?acc] Cons.prems by (simp add: v Some)
    qed (simp add: v Let_def)
  qed
qed

section \<open>What a reconcile sends and caches\<close>

lemma adjusted_compliance_log:
  "adjusted_compliance lib gapi con msg c w = (x, w') \<Longrightarrow> w_log w' = w_log w"
  by (auto simp: adjusted_compliance_def webhookEnabled_def call_def
      split: prod.splits sum.splits if_splits)

text \<open>The event that the controller sends for a constraint.\<close>

definition constraint_event ::
  "event_sender \<Rightarrow> policy \<Rightarrow> unstr \<Rightarrow> string \<Rightarrow> string \<Rightarrow> time \<Rightarrow> kevent" where
  "constraint_event sender pol con msg c now =
     compliance_event sender (Some con) (policy_owner_ref pol)
       (EventReason (u_namespace con) (u_name con)) msg c now"

text \<open>The same call once more, with the policy and the webhook unchanged, sends nothing.\<close>

definition steady ::
  "'c gatekeeper_api \<Rightarrow> policy \<Rightarrow> (gerr + string list) \<Rightarrow> (gerr + policy) \<Rightarrow> bool" where
  "steady gapi pol webhooks stored \<longleftrightarrow>
     (\<forall>c. fst (gkWebhooks gapi (nn [] GatekeeperWebhookName) c) = webhooks) \<and>
     (\<forall>c. fst (polGet (gkPolicies gapi) Managed (nn (p_namespace pol) (p_name pol)) c) = stored)"

lemma fst_call: "fst (call f w) = fst (f (w_env w))"
  by (simp add: call_def split: prod.splits)

lemma adjusted_compliance_steady:
  assumes "steady gapi pol webhooks stored"
  shows "fst (adjusted_compliance lib gapi con msg c w) =
    fst (adjusted_compliance lib gapi con msg c w2)"
proof -
  have "fst (call (gkWebhooks gapi (nn [] GatekeeperWebhookName)) w) = webhooks" for w
    using assms by (simp add: steady_def fst_call)
  then have "fst (webhookEnabled gapi w) = fst (webhookEnabled gapi w2)"
    unfolding webhookEnabled_def by (auto split: prod.splits sum.splits) (metis fst_conv sum.inject sum.distinct)+
  then show ?thesis
    unfolding adjusted_compliance_def by (auto split: prod.splits sum.splits)
qed

lemma sendComplianceEvent_again:
  assumes st: "steady gapi pol webhooks stored"
    and first: "sendComplianceEvent lib gapi sender pol con i msg c sent w = (Ok u, sent', w')"
    and second: "sendComplianceEvent lib gapi sender pol con i msg c sent' w2 = (x, sent'', w2')"
  shows "x = Ok () \<and> w_log w2' = w_log w2"
proof -
  let ?get = "polGet (gkPolicies gapi) Managed (nn (p_namespace pol) (p_name pol))"
  obtain y w3 where a: "adjusted_compliance lib gapi con msg c w = (y, w3)" by fastforce
  obtain y' w4 where a': "adjusted_compliance lib gapi con msg c w2 = (y', w4)" by fastforce
  have y': "y' = y" using adjusted_compliance_steady [OF st, of lib con msg c w w2] a a' by simp
  obtain msg' c' where y: "y = Inr (msg', c')"
    using first a by (cases y) (auto simp: sendComplianceEvent_def)
  have "fst (call ?get v) = stored" for v using st by (simp add: steady_def fst_call)
  then obtain w5 w6 where g: "call ?get w3 = (stored, w5)" "call ?get w4 = (stored, w6)"
    by (metis prod.collapse)
  let ?p = "case stored of Inl _ \<Rightarrow> pol | Inr p \<Rightarrow> p" and ?k = "sent_key pol con"
  have log2: "w_log w6 = w_log w2"
    using call_log [OF g(2)] adjusted_compliance_log [OF a'] by simp
  show ?thesis
  proof (cases "status_differs ?p i (compliance_message c' msg')")
    case None
    then show ?thesis using first a y g(1) by (simp add: sendComplianceEvent_def)
  next
    case (Some b)
    have "b \<Longrightarrow> sent' ?k = Some (sha1_Sum msg')"
      using first a y g(1) Some
      by (auto simp: sendComplianceEvent_def Let_def split: if_splits prod.splits option.splits)
    then show ?thesis using second a' y' y g(2) Some log2
      by (cases b) (auto simp: sendComplianceEvent_def Let_def)
  qed
qed

section \<open>The cache\<close>

text \<open>The keys of the constraints in the templates of a policy.\<close>

definition constraint_keys :: "klib \<Rightarrow> policy \<Rightarrow> policy_template list \<Rightarrow> policy_kind_name set" where
  "constraint_keys lib pol ts =
     {\<lparr>pk_policy = p_name pol, pk_kind = g_kind (u_gvk u), pk_name = u_name u\<rparr> | u.
        g_group (u_gvk u) = GConstraint \<and> (\<exists>t\<in>set ts. unmarshalMap lib (t_raw t) = Inr u)}"

lemma constraint_step_early:
  "constraint_step lib gapi sender pol i t sent w = (GkReturn r, sent', w') \<Longrightarrow> r \<noteq> Done"
  by (auto simp: constraint_step_def Let_def
      split: prod.splits option.splits if_splits outcome.splits)

lemma constraints_loop_early:
  "constraints_loop lib gapi sender pol i ts cs sent w = (Inl r, sent', w') \<Longrightarrow> r \<noteq> Done"
proof (induction ts arbitrary: i cs sent w)
  case (Cons t ts)
  then show ?case
    by (auto simp: Let_def dest: constraint_step_early
        split: sum.splits if_splits prod.splits gk_step.splits)
qed simp

lemma constraint_keys_simps:
  "constraint_keys lib pol [] = {}"
  "constraint_keys lib pol (t # ts) =
     (case unmarshalMap lib (t_raw t) of
        Inl _ \<Rightarrow> {}
      | Inr u \<Rightarrow> if g_group (u_gvk u) = GConstraint
          then {\<lparr>pk_policy = p_name pol, pk_kind = g_kind (u_gvk u), pk_name = u_name u\<rparr>} else {})
     \<union> constraint_keys lib pol ts"
  by (auto simp: constraint_keys_def split: sum.split)

lemma constraints_loop_set:
  "constraints_loop lib gapi sender pol i ts cs sent w = (Inr cs', sent', w') \<Longrightarrow>
     set cs' = set cs \<union> constraint_keys lib pol ts"
proof (induction ts arbitrary: i cs sent w)
  case (Cons t ts)
  show ?case
  proof (cases "unmarshalMap lib (t_raw t)")
    case (Inl e)
    then show ?thesis using Cons by (simp add: constraint_keys_simps)
  next
    case (Inr u)
    obtain y sent1 w1 where s: "constraint_step lib gapi sender pol i u sent w = (y, sent1, w1)"
      using prod_cases3 by blast
    show ?thesis
    proof (cases "g_group (u_gvk u) = GConstraint")
      case True
      let ?k = "\<lparr>pk_policy = p_name pol, pk_kind = g_kind (u_gvk u), pk_name = u_name u\<rparr>"
      have "constraints_loop lib gapi sender pol (Suc i) ts (?k # cs) sent1 w1 = (Inr cs', sent', w')"
        using Cons.prems Inr True s by (cases y) (simp_all add: Let_def)
      from Cons.IH [OF this] show ?thesis using Inr True by (simp add: constraint_keys_simps)
    qed (use Cons Inr in \<open>simp add: constraint_keys_simps\<close>)
  qed
qed (simp add: constraint_keys_simps)

section \<open>What a constraint gives\<close>

text \<open>The text of the audit: the violations, separated by semicolons, in their order.\<close>

definition audit_text :: "klib \<Rightarrow> unstr \<Rightarrow> string" where
  "audit_text lib con =
     (case nestedSlice lib (u_content con) [''status'', ''violations''] of
        (violations, _, err) \<Rightarrow>
          if err then ''The constraint status is invalid''
          else if violations = [] then ''The constraint has no violations''
          else Join (violation_texts violations) ''; '')"

text \<open>No violation is listed, and a constraint that denies has a webhook to do so.\<close>

definition clean :: "klib \<Rightarrow> bool \<Rightarrow> unstr \<Rightarrow> bool" where
  "clean lib enabled con \<longleftrightarrow>
     (case nestedSlice lib (u_content con) [''status'', ''violations''] of
        (violations, _, err) \<Rightarrow> violations = [] \<and> \<not> err) \<and>
     (fst (getEnforcementAction lib con) = ''deny'' \<longrightarrow> enabled)"

definition verdict :: "klib \<Rightarrow> bool \<Rightarrow> unstr \<Rightarrow> string" where
  "verdict lib enabled con = (if clean lib enabled con then Compliant else NonCompliant)"

definition report_text :: "klib \<Rightarrow> bool \<Rightarrow> unstr \<Rightarrow> string" where
  "report_text lib enabled con =
     (if fst (getEnforcementAction lib con) = ''deny'' \<and> \<not> enabled
      then webhook_disabled_message ''deny'' (audit_text lib con) else audit_text lib con)"

type_synonym watched_objects = "object_identifier \<Rightarrow> gvk \<Rightarrow> string \<Rightarrow> string \<Rightarrow> unstr option"

text \<open>The constraint of a template, if it is on the cluster together with its kind and was audited.\<close>

definition found_constraint :: "klib \<Rightarrow> watched_objects \<Rightarrow> policy \<Rightarrow> unstr \<Rightarrow> unstr option" where
  "found_constraint lib T pol u =
     (let oid = policyID (p_name pol) (p_namespace pol) in
      case (T oid crdGVK [] (crd_name (g_kind (u_gvk u))), T oid (u_gvk u) (u_namespace u) (u_name u)) of
        (Some _, Some con) \<Rightarrow>
          if fst (snd (nestedInt64 lib (u_content con) [''status'', ''totalViolations''])) then Some con else None
      | _ \<Rightarrow> None)"

definition audited_constraint :: "klib \<Rightarrow> watched_objects \<Rightarrow> policy \<Rightarrow> policy_template \<Rightarrow> unstr option" where
  "audited_constraint lib T pol t =
     (case unmarshalMap lib (t_raw t) of
        Inl _ \<Rightarrow> None
      | Inr u \<Rightarrow> if g_group (u_gvk u) = GConstraint then found_constraint lib T pol u else None)"

text \<open>An event reports a template when it is about the template's constraint with its text and verdict.\<close>

definition relays ::
  "klib \<Rightarrow> watched_objects \<Rightarrow> bool \<Rightarrow> event_sender \<Rightarrow> policy \<Rightarrow> policy_template \<Rightarrow> effect \<Rightarrow> bool" where
  "relays lib T enabled sender pol t eff \<longleftrightarrow>
     (\<exists>con now. audited_constraint lib T pol t = Some con \<and>
        eff = EventCreate (constraint_event sender pol con (report_text lib enabled con) (verdict lib enabled con) now))"

text \<open>The entry of the cache for a report: the digest of the text, or none when the status of the
  policy shows the message already.\<close>

definition report_entry :: "klib \<Rightarrow> bool \<Rightarrow> policy \<Rightarrow> nat \<Rightarrow> unstr \<Rightarrow> digest option" where
  "report_entry lib enabled pol i con =
     (if status_differs pol i (compliance_message (verdict lib enabled con) (report_text lib enabled con)) = Some False
      then None else Some (sha1_Sum (report_text lib enabled con)))"

text \<open>The entry of a key after the templates from index \<open>i\<close> on: the last report of the constraint
  decides, and without a report the entry stays.\<close>

fun entry_after ::
  "klib \<Rightarrow> watched_objects \<Rightarrow> bool \<Rightarrow> policy \<Rightarrow> policy_kind_name \<Rightarrow> nat \<Rightarrow> policy_template list
     \<Rightarrow> digest option \<Rightarrow> digest option" where
  "entry_after lib T enabled pol k i [] old = old"
| "entry_after lib T enabled pol k i (t # ts) old =
     entry_after lib T enabled pol k (Suc i) ts
       (case audited_constraint lib T pol t of
          None \<Rightarrow> old
        | Some con \<Rightarrow> if sent_key pol con = k then report_entry lib enabled pol i con else old)"

lemma audit_report_spec:
  assumes "audit_report lib con = Some (msg, c)"
  shows "msg = audit_text lib con"
    and "c = (if clean lib True con then Compliant else NonCompliant)"
proof -
  have "violations_message [] vs = Some m \<Longrightarrow> m = Join (violation_texts vs) ''; ''" for vs m
    using violations_message_Join [of "[]" vs] by (simp split: if_splits)
  then show "msg = audit_text lib con" and "c = (if clean lib True con then Compliant else NonCompliant)"
    using assms by (auto simp: audit_report_def audit_text_def clean_def split: prod.splits if_splits option.splits)
qed

section \<open>A reconcile over an unchanged cluster\<close>

text \<open>While a reconcile runs, the watcher answers from the same objects, which have the names that were
  asked for, the webhook is there or not, and the policies stay; every call may fail.\<close>

locale gatekeeper_view =
  fixes gapi :: "'c gatekeeper_api" and T :: watched_objects and enabled :: bool
    and policies :: "namespaced_name \<rightharpoonup> policy"
  assumes watched: "wGet (gkWatcher gapi) oid g ns n c = ((x, None), c') \<Longrightarrow> x = T oid g ns n"
    and watched_name: "T oid g ns n = Some u \<Longrightarrow> g_kind (u_gvk u) = g_kind g \<and> u_name u = n"
    and webhook: "gkWebhooks gapi (nn [] GatekeeperWebhookName) c = (Inr names, c') \<Longrightarrow>
        enabled \<longleftrightarrow> ''validation.gatekeeper.sh'' \<in> set names"
      "gkWebhooks gapi (nn [] GatekeeperWebhookName) c = (Inl e, c') \<Longrightarrow> IsNotFound e \<Longrightarrow> \<not> enabled"
    and stored: "polGet (gkPolicies gapi) Managed k c = (Inr p, c') \<Longrightarrow> policies k = Some p"
    and stored_nn: "policies k = Some p \<Longrightarrow> policy_nn p = k"
begin

lemma call_watched:
  "call (wGet (gkWatcher gapi) oid g ns n) w = ((u, None), w') \<Longrightarrow> u = T oid g ns n"
  using watched by (auto simp: call_def split: prod.splits)

lemma call_stored:
  "call (polGet (gkPolicies gapi) Managed k) w = (Inr p, w') \<Longrightarrow> policies k = Some p"
  using stored by (auto simp: call_def split: prod.splits)

lemma webhookEnabled_view: "webhookEnabled gapi w = (Inr b, w') \<Longrightarrow> b = enabled"
  using webhook by (auto simp: webhookEnabled_def call_def list_ex_iff split: prod.splits sum.splits if_splits)

lemma adjusted_view:
  assumes "adjusted_compliance lib gapi con msg c w = (Inr (msg', c'), w')"
    and "audit_report lib con = Some (msg, c)"
  shows "msg' = report_text lib enabled con" and "c' = verdict lib enabled con"
proof -
  note r = audit_report_spec [OF assms(2)]
  consider (other) "fst (getEnforcementAction lib con) \<noteq> ''deny''" "msg' = msg" "c' = c"
    | (deny) "fst (getEnforcementAction lib con) = ''deny''"
        "(msg', c') = (if enabled then (msg, c) else (webhook_disabled_message ''deny'' msg, NonCompliant))"
    using assms(1) webhookEnabled_view [of w]
    by (auto simp: adjusted_compliance_def split: prod.splits sum.splits if_splits)
  then show "msg' = report_text lib enabled con" and "c' = verdict lib enabled con"
    using r by (cases; auto simp: report_text_def verdict_def clean_def split: if_splits)+
qed

text \<open>One report: at most one event, and the entry of the cache.\<close>

lemma sendComplianceEvent_view:
  assumes run: "sendComplianceEvent lib gapi sender pol con i msg c sent w = (x, sent', w')"
    and audit: "audit_report lib con = Some (msg, c)" and pol: "policies (policy_nn pol) = Some pol"
  shows "w_log w' = w_log w \<or> (\<exists>now. w_log w' = w_log w @
      [EventCreate (constraint_event sender pol con (report_text lib enabled con) (verdict lib enabled con) now)])"
    and "x = Ok u \<Longrightarrow> sent' = sent(sent_key pol con := report_entry lib enabled pol i con)"
    and "k \<noteq> sent_key pol con \<Longrightarrow> sent' k = sent k"
proof -
  let ?msg = "report_text lib enabled con" and ?c = "verdict lib enabled con"
  let ?get = "polGet (gkPolicies gapi) Managed (nn (p_namespace pol) (p_name pol))"
  obtain y w1 where a: "adjusted_compliance lib gapi con msg c w = (y, w1)" by fastforce
  obtain rp w2 where g: "call ?get w1 = (rp, w2)" by fastforce
  have "(case rp of Inl _ \<Rightarrow> pol | Inr p \<Rightarrow> p) = pol"
    using call_stored [of _ w1] g pol by (cases rp) (auto simp: policy_nn_def)
  note refreshed = this
  obtain d w3 where s: "SendEvent (gkEvents gapi) sender (Some con) (policy_owner_ref pol)
      (EventReason (u_namespace con) (u_name con)) ?msg ?c w2 = (d, w3)" by fastforce
  obtain now where log: "w_log w3 = w_log w2 @ [EventCreate (constraint_event sender pol con ?msg ?c now)]"
    using SendEvent_log [OF s] by (auto simp: constraint_event_def)
  note logs = adjusted_compliance_log [OF a] call_log [OF g] log
  have "(w_log w' = w_log w \<or> (\<exists>now. w_log w' = w_log w @ [EventCreate (constraint_event sender pol con ?msg ?c now)])) \<and>
    (x = Ok u \<longrightarrow> sent' = sent(sent_key pol con := report_entry lib enabled pol i con)) \<and>
    (k \<noteq> sent_key pol con \<longrightarrow> sent' k = sent k)"
  proof (cases y)
    case (Inl e)
    then show ?thesis using run a logs by (auto simp: sendComplianceEvent_def)
  next
    case (Inr z)
    then have z: "z = (?msg, ?c)" using adjusted_view [OF _ audit] a by (cases z) blast
    have "w_log w' \<in> {w_log w2, w_log w3}"
      using run a Inr z g refreshed s
      by (auto simp: sendComplianceEvent_def Let_def split: option.splits bool.splits if_splits)
    moreover have "x = Ok u \<longrightarrow> sent' = sent(sent_key pol con := report_entry lib enabled pol i con)"
      using run a Inr z g refreshed s
      by (auto simp: sendComplianceEvent_def report_entry_def Let_def fun_upd_idem_iff
          split: option.splits bool.splits if_splits)
    moreover have "k \<noteq> sent_key pol con \<longrightarrow> sent' k = sent k"
      using run a Inr z g refreshed s
      by (auto simp: sendComplianceEvent_def Let_def split: option.splits bool.splits if_splits)
    ultimately show ?thesis using logs by auto
  qed
  then show "w_log w' = w_log w \<or> (\<exists>now. w_log w' = w_log w @ [EventCreate (constraint_event sender pol con ?msg ?c now)])"
    and "x = Ok u \<Longrightarrow> sent' = sent(sent_key pol con := report_entry lib enabled pol i con)"
    and "k \<noteq> sent_key pol con \<Longrightarrow> sent' k = sent k" by blast+
qed

text \<open>One template.\<close>

lemma constraint_step_view:
  assumes run: "constraint_step lib gapi sender pol i u sent w = (x, sent', w')"
    and pol: "policies (policy_nn pol) = Some pol"
  shows "w_log w' = w_log w \<or> (\<exists>con now. found_constraint lib T pol u = Some con \<and> w_log w' = w_log w @
      [EventCreate (constraint_event sender pol con (report_text lib enabled con) (verdict lib enabled con) now)])"
    and "x = GkNext \<Longrightarrow> sent' = (case found_constraint lib T pol u of
        None \<Rightarrow> sent | Some con \<Rightarrow> sent(sent_key pol con := report_entry lib enabled pol i con))"
    and "k \<noteq> \<lparr>pk_policy = p_name pol, pk_kind = g_kind (u_gvk u), pk_name = u_name u\<rparr> \<Longrightarrow> sent' k = sent k"
proof -
  let ?id = "policyID (p_name pol) (p_namespace pol)"
  let ?key = "\<lparr>pk_policy = p_name pol, pk_kind = g_kind (u_gvk u), pk_name = u_name u\<rparr>"
  obtain a ea w1 where g: "call (wGet (gkWatcher gapi) ?id crdGVK [] (crd_name (g_kind (u_gvk u)))) w
      = ((a, ea), w1)" by (metis prod.exhaust)
  obtain b eb w2 where h: "call (wGet (gkWatcher gapi) ?id (u_gvk u) (u_namespace u) (u_name u)) w1
      = ((b, eb), w2)" by (metis prod.exhaust)
  note logs = call_log [OF g] call_log [OF h]
  have T: "ea = None \<Longrightarrow> a = T ?id crdGVK [] (crd_name (g_kind (u_gvk u)))"
    "eb = None \<Longrightarrow> b = T ?id (u_gvk u) (u_namespace u) (u_name u)"
    using call_watched g h by blast+
  have "(w_log w' = w_log w \<or> (\<exists>con now. found_constraint lib T pol u = Some con \<and> w_log w' = w_log w @
      [EventCreate (constraint_event sender pol con (report_text lib enabled con) (verdict lib enabled con) now)])) \<and>
    (x = GkNext \<longrightarrow> sent' = (case found_constraint lib T pol u of
        None \<Rightarrow> sent | Some con \<Rightarrow> sent(sent_key pol con := report_entry lib enabled pol i con))) \<and>
    (k \<noteq> ?key \<longrightarrow> sent' k = sent k)"
  proof (cases "\<exists>crd con msg c. a = Some crd \<and> ea = None \<and> b = Some con \<and> eb = None \<and>
      fst (snd (nestedInt64 lib (u_content con) [''status'', ''totalViolations''])) \<and>
      audit_report lib con = Some (msg, c)")
    case False
    then have "w_log w' = w_log w" "sent' = sent" "x = GkNext \<Longrightarrow> found_constraint lib T pol u = None"
      using run g h logs T
      by (auto simp: constraint_step_def found_constraint_def Let_def split: option.splits prod.splits if_splits)
    then show ?thesis by simp
  next
    case True
    then obtain crd con msg c where c: "a = Some crd" "ea = None" "b = Some con" "eb = None"
      "fst (snd (nestedInt64 lib (u_content con) [''status'', ''totalViolations'']))"
      "audit_report lib con = Some (msg, c)" by blast
    have found: "found_constraint lib T pol u = Some con"
      using c T by (simp add: found_constraint_def)
    have key: "sent_key pol con = ?key"
      using watched_name [of ?id "u_gvk u" "u_namespace u" "u_name u" con] c T by (simp add: sent_key_def)
    obtain y sent2 w3
      where s: "sendComplianceEvent lib gapi sender pol con i msg c sent w2 = (y, sent2, w3)"
      using prod_cases3 by blast
    have r: "w' = w3" "sent' = sent2" "x = GkNext \<Longrightarrow> y = Ok ()" using run g h c s
      by (cases y; auto simp: constraint_step_def Let_def split: prod.splits)+
    show ?thesis
      using sendComplianceEvent_view [OF s c(6) pol] found key r logs by auto
  qed
  then show "w_log w' = w_log w \<or> (\<exists>con now. found_constraint lib T pol u = Some con \<and> w_log w' = w_log w @
      [EventCreate (constraint_event sender pol con (report_text lib enabled con) (verdict lib enabled con) now)])"
    and "x = GkNext \<Longrightarrow> sent' = (case found_constraint lib T pol u of
        None \<Rightarrow> sent | Some con \<Rightarrow> sent(sent_key pol con := report_entry lib enabled pol i con))"
    and "k \<noteq> ?key \<Longrightarrow> sent' k = sent k" by blast+
qed

lemma template_view:
  assumes t: "unmarshalMap lib (t_raw t) = Inr u" "g_group (u_gvk u) = GConstraint"
    and s: "constraint_step lib gapi sender pol i u sent w = (y, sent1, w1)"
    and pol: "policies (policy_nn pol) = Some pol"
  shows "\<exists>ts1 es1. w_log w1 = w_log w @ es1 \<and> ts1 \<in> {[], [t]} \<and> list_all2 (relays lib T enabled sender pol) ts1 es1"
    and "y = GkNext \<Longrightarrow> sent1 k = (case audited_constraint lib T pol t of None \<Rightarrow> sent k
      | Some con \<Rightarrow> if sent_key pol con = k then report_entry lib enabled pol i con else sent k)"
    and "k \<notin> constraint_keys lib pol (t # ts) \<Longrightarrow> k \<notin> constraint_keys lib pol ts \<and> sent1 k = sent k"
proof -
  note S = constraint_step_view [OF s pol]
  have found: "audited_constraint lib T pol t = found_constraint lib T pol u"
    using t by (simp add: audited_constraint_def)
  from S(1) show "\<exists>ts1 es1. w_log w1 = w_log w @ es1 \<and> ts1 \<in> {[], [t]} \<and>
      list_all2 (relays lib T enabled sender pol) ts1 es1"
  proof (elim disjE exE conjE)
    assume "w_log w1 = w_log w"
    then show ?thesis by (intro exI [of _ "[]"]) simp
  next
    fix con now
    let ?e = "EventCreate (constraint_event sender pol con (report_text lib enabled con) (verdict lib enabled con) now)"
    assume "found_constraint lib T pol u = Some con" and "w_log w1 = w_log w @ [?e]"
    then show ?thesis by (intro exI [of _ "[t]"] exI [of _ "[?e]"]) (auto simp: relays_def found)
  qed
  show "sent1 k = (case audited_constraint lib T pol t of None \<Rightarrow> sent k
      | Some con \<Rightarrow> if sent_key pol con = k then report_entry lib enabled pol i con else sent k)" if "y = GkNext"
    using S(2) [OF that] found by (auto split: option.splits)
  show "k \<notin> constraint_keys lib pol ts \<and> sent1 k = sent k" if "k \<notin> constraint_keys lib pol (t # ts)"
    using that t S(3) by (auto simp: constraint_keys_def)
qed

text \<open>All templates.\<close>

lemma relayed_append:
  assumes "w_log w1 = w_log w @ es1" and "ts1 \<in> {[], [t]}" and "list_all2 R ts1 es1"
    and "w_log w' = w_log w1 @ es2" and "subseq ts2 ts" and "list_all2 R ts2 es2"
  shows "\<exists>ts' es. w_log w' = w_log w @ es \<and> subseq ts' (t # ts) \<and> list_all2 R ts' es"
  using assms by (intro exI [of _ "ts1 @ ts2"] exI [of _ "es1 @ es2"]) (auto intro: list_all2_appendI)

lemma constraints_loop_view:
  assumes run: "constraints_loop lib gapi sender pol i ts cs sent w = (x, sent', w')"
    and pol: "policies (policy_nn pol) = Some pol"
  shows "(\<exists>ts' es. w_log w' = w_log w @ es \<and> subseq ts' ts \<and> list_all2 (relays lib T enabled sender pol) ts' es) \<and>
    (\<forall>cs'. x = Inr cs' \<longrightarrow> sent' k = entry_after lib T enabled pol k i ts (sent k)) \<and>
    (k \<notin> constraint_keys lib pol ts \<longrightarrow> sent' k = sent k)"
  using run
proof (induction ts arbitrary: i cs sent w)
  case Nil
  then show ?case by (auto intro!: exI [of _ "[]"])
next
  case (Cons t ts)
  consider (skipped) "\<And>u. unmarshalMap lib (t_raw t) = Inr u \<Longrightarrow> g_group (u_gvk u) \<noteq> GConstraint"
    | (constraint) u where "unmarshalMap lib (t_raw t) = Inr u" "g_group (u_gvk u) = GConstraint" by blast
  then show ?case
  proof cases
    case skipped
    then have "audited_constraint lib T pol t = None"
      "constraints_loop lib gapi sender pol (Suc i) ts cs sent w = (x, sent', w')"
      using Cons.prems by (cases "unmarshalMap lib (t_raw t)"; simp add: audited_constraint_def)+
    note a = this(1) and IH = Cons.IH [OF this(2)]
    have "k \<notin> constraint_keys lib pol (t # ts) \<Longrightarrow> k \<notin> constraint_keys lib pol ts"
      by (auto simp: constraint_keys_def)
    moreover have "entry_after lib T enabled pol k i (t # ts) (sent k) = entry_after lib T enabled pol k (Suc i) ts (sent k)"
      using a by simp
    ultimately show ?thesis using IH list_emb_Cons by metis
  next
    case constraint
    obtain y sent1 w1 where s: "constraint_step lib gapi sender pol i u sent w = (y, sent1, w1)"
      using prod_cases3 by blast
    note S = template_view [OF constraint s pol]
    obtain ts1 es1 where es1: "w_log w1 = w_log w @ es1" "ts1 \<in> {[], [t]}"
      "list_all2 (relays lib T enabled sender pol) ts1 es1" using S(1) by blast
    show ?thesis
    proof (cases y)
      case (GkReturn r)
      then have "x = Inl r" "sent' = sent1" "w' = w1"
        using Cons.prems constraint s by (auto simp: Let_def)
      then show ?thesis using es1 S(3) by auto
    next
      case GkNext
      then obtain cs1 where l: "constraints_loop lib gapi sender pol (Suc i) ts cs1 sent1 w1 = (x, sent', w')"
        using Cons.prems constraint s by (auto simp: Let_def)
      note IH = Cons.IH [OF l]
      have "\<exists>ts' es. w_log w' = w_log w @ es \<and> subseq ts' (t # ts) \<and> list_all2 (relays lib T enabled sender pol) ts' es"
        using IH relayed_append [OF es1] by blast
      moreover have "\<forall>cs'. x = Inr cs' \<longrightarrow> sent' k = entry_after lib T enabled pol k i (t # ts) (sent k)"
        using IH S(2) [OF GkNext] unfolding entry_after.simps(2) by simp
      moreover have "k \<notin> constraint_keys lib pol (t # ts) \<longrightarrow> sent' k = sent k"
        using IH S(3) [of k ts] by simp
      ultimately show ?thesis by blast
    qed
  qed
qed

end

text \<open>The paths through a reconcile.\<close>

lemma Reconcile_gatekeeper_cases:
  assumes "Reconcile_gatekeeper b lib gapi sender request sent w = (res, sent', w')"
  defines "answer \<equiv> fst (polGet (gkPolicies gapi) Managed request (w_env w))"
    and "oid \<equiv> policyID (nn_name request) (nn_namespace request)"
  obtains (paused) "b" "sent' = sent" "w' = w"
  | (no_policy) e where "\<not> b" "answer = Inl e"
      "sent' = (if IsNotFound e then delete_sent (\<lambda>k. pk_policy k = nn_name request) sent else sent)"
      "w_log w' = w_log w @ (if IsNotFound e then [WatchRemove oid] else [])"
  | (no_batch) pol e where "\<not> b" "answer = Inr pol" "res = Failed e" "sent' = sent" "w_log w' = w_log w"
  | (early) pol w3 w4 where "\<not> b" "answer = Inr pol" "w_log w3 = w_log w" "w_log w' = w_log w4"
      "constraints_loop lib gapi sender pol 0 (sp_templates (p_spec pol)) [] sent w3 = (Inl res, sent', w4)"
  | (full) pol cs sent1 w3 w4 where "\<not> b" "answer = Inr pol" "w_log w3 = w_log w" "w_log w' = w_log w4"
      "constraints_loop lib gapi sender pol 0 (sp_templates (p_spec pol)) [] sent w3 = (Inr cs, sent1, w4)"
      "res = Done" "sent' = delete_sent (\<lambda>k. pk_policy k = p_name pol \<and> k \<notin> set cs) sent1"
proof (cases b)
  case True
  then show thesis using assms(1) paused by (simp add: Reconcile_gatekeeper_def)
next
  case b: False
  obtain x w1 where g: "call (polGet (gkPolicies gapi) Managed request) w = (x, w1)" by fastforce
  then have x: "answer = x" unfolding answer_def by (metis fst_call fst_conv)
  obtain d w2 where r: "act (WatchRemove oid) (wRemove (gkWatcher gapi) oid) w1 = (d, w2)" by fastforce
  obtain st w3 where st: "call (wStart (gkWatcher gapi) oid) w1 = (st, w3)" by fastforce
  note logs = call_log [OF g] act_log [OF r] call_log [OF st]
  show thesis
  proof (cases x)
    case (Inl e)
    then show thesis using assms(1) b g r x logs no_policy [of e] unfolding oid_def
      by (auto simp: Reconcile_gatekeeper_def Let_def split: option.splits if_splits)
  next
    case (Inr pol)
    obtain y sent1 w4 where l: "constraints_loop lib gapi sender pol 0 (sp_templates (p_spec pol))
        [] sent w3 = (y, sent1, w4)" using prod_cases3 by blast
    obtain e w5 where f: "call (wEnd (gkWatcher gapi) oid) w4 = (e, w5)" by fastforce
    show thesis
    proof (cases st)
      case (Some err)
      then show thesis using assms(1) b g Inr st x logs no_batch [of pol err]
        unfolding oid_def by (simp add: Reconcile_gatekeeper_def Let_def)
    next
      case None
      note run = assms(1) [unfolded Reconcile_gatekeeper_def Let_def, folded oid_def]
      show thesis
      proof (cases y)
        case (Inl z)
        then have "res = z" "sent' = sent1" "w' = w5" using run b g Inr st None l f by simp_all
        then show thesis using early [of pol w3 w4] b x Inr logs l Inl call_log [OF f] by simp
      next
        case y: (Inr cs)
        then have "res = Done" "sent' = delete_sent (\<lambda>k. pk_policy k = p_name pol \<and> k \<notin> set cs) sent1" "w' = w5"
          using run b g Inr st None l f by simp_all
        then show thesis using full [of pol w3 w4 cs sent1] b x Inr logs l y call_log [OF f] by simp
      qed
    qed
  qed
qed

context gatekeeper_view
begin

lemma answer_stored:
  assumes "fst (polGet (gkPolicies gapi) Managed request c) = Inr pol"
  shows "policies request = Some pol" and "policies (policy_nn pol) = Some pol"
  using stored [of request c pol "snd (polGet (gkPolicies gapi) Managed request c)"] stored_nn [of request pol] assms
  by (auto simp: prod_eq_iff)

lemma reconcile_relays:
  assumes "Reconcile_gatekeeper b lib gapi sender request sent w = (res, sent', w')"
  shows "\<exists>es. w_log w' = w_log w @ es \<and>
    (es \<in> {[], [WatchRemove (policyID (nn_name request) (nn_namespace request))]} \<or>
     (\<exists>pol ts. policies request = Some pol \<and> subseq ts (sp_templates (p_spec pol)) \<and>
        list_all2 (relays lib T enabled sender pol) ts es))"
  using assms
proof (cases rule: Reconcile_gatekeeper_cases)
  case (early pol w3 w4)
  note A = answer_stored [OF early(2)]
  from constraints_loop_view [OF early(5) A(2), THEN conjunct1] A(1) early(3,4) show ?thesis by auto
next
  case (full pol cs sent1 w3 w4)
  note A = answer_stored [OF full(2)]
  from constraints_loop_view [OF full(5) A(2), THEN conjunct1] A(1) full(3,4) show ?thesis by auto
qed auto

lemma reconcile_caches:
  assumes "Reconcile_gatekeeper False lib gapi sender request sent w = (res, sent', w')"
    and pol: "fst (polGet (gkPolicies gapi) Managed request (w_env w)) = Inr pol"
  shows "k \<notin> constraint_keys lib pol (sp_templates (p_spec pol)) \<Longrightarrow>
      sent' k = (if res = Done \<and> pk_policy k = p_name pol then None else sent k)"
    and "k \<in> constraint_keys lib pol (sp_templates (p_spec pol)) \<Longrightarrow> res = Done \<Longrightarrow>
      sent' k = entry_after lib T enabled pol k 0 (sp_templates (p_spec pol)) (sent k)"
proof -
  let ?ts = "sp_templates (p_spec pol)"
  have "(k \<notin> constraint_keys lib pol ?ts \<longrightarrow> sent' k = (if res = Done \<and> pk_policy k = p_name pol then None else sent k)) \<and>
    (k \<in> constraint_keys lib pol ?ts \<and> res = Done \<longrightarrow> sent' k = entry_after lib T enabled pol k 0 ?ts (sent k))"
    using assms(1)
  proof (cases rule: Reconcile_gatekeeper_cases)
    case (early p w3 w4)
    then have "p = pol" "res \<noteq> Done" using pol constraints_loop_early [OF early(5)] by auto
    then show ?thesis using constraints_loop_view [OF early(5)] answer_stored(2) [OF pol] by simp
  next
    case (full p cs sent1 w3 w4)
    then have p: "p = pol" using pol by simp
    have "set cs = constraint_keys lib pol ?ts" using constraints_loop_set [OF full(5)] p by simp
    then show ?thesis
      using constraints_loop_view [OF full(5), of k] answer_stored(2) [OF pol] full(6,7) p
      by (auto simp: delete_sent_def constraint_keys_def)
  qed (use pol in auto)
  then show "k \<notin> constraint_keys lib pol ?ts \<Longrightarrow> sent' k = (if res = Done \<and> pk_policy k = p_name pol then None else sent k)"
    and "k \<in> constraint_keys lib pol ?ts \<Longrightarrow> res = Done \<Longrightarrow> sent' k = entry_after lib T enabled pol k 0 ?ts (sent k)"
    by blast+
qed

end

section \<open>Properties\<close>

definition sample_constraint :: unstr where
  "sample_constraint = \<lparr>u_gvk = \<lparr>g_group = GConstraint, g_version = ''v1'', g_kind = ''K''\<rparr>,
     u_name = ''c'', u_namespace = [], u_uid = ''1'', u_resourceVersion = ''1'',
     u_labels = [], u_annotations = [], u_owners = [], u_content = []\<rparr>"

text \<open>A library that finds one constraint in every template and no violation in any
  constraint, and clients with an empty event store.\<close>

definition gk_lib :: klib where
  "gk_lib = \<lparr>nestedString = \<lambda>_ _. (''warn'', True, False), nestedInt64 = \<lambda>_ _. (0, True, False),
     nestedBool = \<lambda>_ _. (False, False, False), nestedSlice = \<lambda>_ _. ([], True, False), nestedErrorText = \<lambda>_ _. [],
     setNestedField = \<lambda>c _ _. (c, False),
     decodeTemplate = \<lambda>_. Inr (Some sample_constraint, u_gvk sample_constraint),
     unmarshalObject = \<lambda>_. Inr sample_constraint, unmarshalMap = \<lambda>_. Inr sample_constraint,
     historyEvent = \<lambda>_. None,
     newControllerRef = policy_owner_ref, crdQueryText = []\<rparr>"

definition gk_sample_api :: "(gerr + policy) \<Rightarrow> mem gatekeeper_api" where
  "gk_sample_api stored = \<lparr>gkPolicies = mem_papi\<lparr>polGet := \<lambda>_ _ m. (stored, m)\<rparr>,
     gkWebhooks = \<lambda>_ m. (Inr [''validation.gatekeeper.sh''], m),
     gkEvents = \<lparr>evList = \<lambda>_ m. (Inr [], m), evCreate = \<lambda>_ m. (None, m), clockNow = \<lambda>m. (5, m)\<rparr>,
     gkWatcher = \<lparr>wStart = \<lambda>_ m. (None, m), wEnd = \<lambda>_ m. (None, m),
       wGet = \<lambda>_ _ _ _ m. ((Some sample_constraint, None), m),
       wSet = \<lambda>_ _ m. (None, m), wRemove = \<lambda>_ m. (None, m)\<rparr>\<rparr>"

definition gk_policy :: policy where
  "gk_policy =
     \<lparr>p_name = ''pol'', p_namespace = ''managed'', p_uid = ''u1'', p_kind = PolicyKind,
      p_apiVersion = APIGroup @ ''/v1'', p_generation = 1, p_resourceVersion = ''7'',
      p_deleting = False, p_labels = Map.empty, p_annotations = Map.empty,
      p_owners = [], p_finalizers = [],
      p_spec = \<lparr>sp_disabled = False, sp_remediationAction = ''inform'', sp_dependencies = [],
        sp_templates = [\<lparr>t_raw = ''x'', t_extraDependencies = [], t_ignorePending = False\<rparr>],
        sp_other = []\<rparr>,
      p_status = \<lparr>s_placement = [], s_clusters = [], s_compliance = [], s_details = []\<rparr>\<rparr>"

definition gk_sender :: event_sender where
  "gk_sender = \<lparr>es_clusterNamespace = ''managed'', es_instanceName = ''host'',
     es_controllerName = ''gatekeeper-constraint-status-sync''\<rparr>"

definition gk_world :: "mem world" where
  "gk_world = \<lparr>w_env = \<lambda>_ _. None, w_log = []\<rparr>"

lemmas gk_run_defs = Reconcile_gatekeeper_def constraint_step_def audit_report_def
  sendComplianceEvent_def adjusted_compliance_def getEnforcementAction_def status_differs_def
  SendEvent_def call_def act_def Let_def gk_lib_def gk_sample_api_def gk_policy_def gk_world_def
  sample_constraint_def

text \<open>A cluster with two constraints of a policy, of which one has a violation; the source of a template is
  the name of its constraint.\<close>

definition view_object :: "gvk \<Rightarrow> string \<Rightarrow> string \<Rightarrow> unstr" where
  "view_object g ns n = sample_constraint\<lparr>u_gvk := g, u_name := n, u_namespace := ns,
     u_content := (if n = ''bad'' then [(''violations'', JArr [JObj [(''name'', JStr ''x'')]])] else [])\<rparr>"

definition view_lib :: klib where
  "view_lib = gk_lib\<lparr>
     nestedSlice := \<lambda>c _. (case jget c ''violations'' of Some (JArr vs) \<Rightarrow> (vs, True, False) | _ \<Rightarrow> ([], False, False)),
     unmarshalMap := \<lambda>raw. Inr (sample_constraint\<lparr>u_name := raw\<rparr>)\<rparr>"

definition view_policy :: policy where
  "view_policy = gk_policy\<lparr>p_spec := (p_spec gk_policy)\<lparr>sp_templates :=
     [\<lparr>t_raw = ''bad'', t_extraDependencies = [], t_ignorePending = False\<rparr>,
      \<lparr>t_raw = ''good'', t_extraDependencies = [], t_ignorePending = False\<rparr>]\<rparr>\<rparr>"

definition view_policies :: "namespaced_name \<rightharpoonup> policy" where
  "view_policies = [nn ''managed'' ''pol'' \<mapsto> view_policy]"

definition view_api :: "mem gatekeeper_api" where
  "view_api = (gk_sample_api (Inr view_policy))\<lparr>
     gkPolicies := mem_papi\<lparr>polGet := \<lambda>_ k m.
       (case view_policies k of None \<Rightarrow> Inl (GErr NotFound ''gone'') | Some p \<Rightarrow> Inr p, m)\<rparr>,
     gkWatcher := (gkWatcher (gk_sample_api (Inr view_policy)))\<lparr>
       wGet := \<lambda>_ g ns n m. ((Some (view_object g ns n), None), m)\<rparr>\<rparr>"

lemmas view_defs = view_api_def view_policies_def view_policy_def view_object_def view_lib_def gk_run_defs

interpretation view: gatekeeper_view view_api "\<lambda>_ g ns n. Some (view_object g ns n)" True view_policies
  by unfold_locales
    (auto simp: view_api_def view_policies_def view_policy_def view_object_def gk_sample_api_def gk_policy_def
      policy_nn_def IsNotFound_def split: option.splits if_splits)

text \<open>C15. What gatekeeper-sync sends in a reconcile is true of the constraints on the cluster. While the
  cluster reads the same throughout the reconcile, the actions of the reconcile are the removal of the
  watch of a policy that is gone, or events that report some of the templates of the policy, each once
  and in their order. The event for a template is about the constraint that the watcher has for that
  template, whose audit has run; it says compliant exactly when that constraint lists no violation and has
  the validating webhook enabled if its enforcement action is (or defaults to) deny, and its message lists
  the violations and names a disabled webhook.\<close>

theorem gatekeeper_relays_truthfully:
  assumes "gatekeeper_view gapi T enabled policies"
    and "Reconcile_gatekeeper b lib gapi sender request sent w = (res, sent', w')"
  shows "\<exists>es. w_log w' = w_log w @ es \<and>
    (es \<in> {[], [WatchRemove (policyID (nn_name request) (nn_namespace request))]} \<or>
     (\<exists>pol ts. policies request = Some pol \<and> subseq ts (sp_templates (p_spec pol)) \<and>
        list_all2 (relays lib T enabled sender pol) ts es))"
  using assms by (rule gatekeeper_view.reconcile_relays)

lemma sample_view_run:
  "\<exists>sent e1 e2. Reconcile_gatekeeper False view_lib view_api gk_sender (nn ''managed'' ''pol'') Map.empty gk_world
     = (Done, sent, \<lparr>w_env = \<lambda>_ _. None, w_log = [EventCreate e1, EventCreate e2]\<rparr>)"
  by (simp add: view_defs violation_name_def violation_text_def jget_def jstring_def webhookEnabled_def sent_key_def)

theorem gatekeeper_relays_truthfully_witness:
  "\<exists>ts e1 e2. subseq ts (sp_templates (p_spec view_policy)) \<and>
     list_all2 (relays view_lib (\<lambda>_ g ns n. Some (view_object g ns n)) True gk_sender view_policy) ts
       [EventCreate e1, EventCreate e2]"
proof -
  obtain sent e1 e2 where run: "Reconcile_gatekeeper False view_lib view_api gk_sender (nn ''managed'' ''pol'')
      Map.empty gk_world = (Done, sent, \<lparr>w_env = \<lambda>_ _. None, w_log = [EventCreate e1, EventCreate e2]\<rparr>)"
    using sample_view_run by blast
  from gatekeeper_relays_truthfully [OF view.gatekeeper_view_axioms run] show ?thesis
    by (auto simp: gk_world_def view_policies_def)
qed

text \<open>C27. A message is sent once: after a call that succeeded, the same report for the same
  constraint sends no event, whether the first one was sent, had been sent before or was
  already in the status, as long as the policy and the webhook read the same.\<close>

theorem gatekeeper_sends_once:
  assumes "steady gapi pol webhooks stored"
    and "sendComplianceEvent lib gapi sender pol con i msg c sent w = (Ok u, sent', w')"
    and "sendComplianceEvent lib gapi sender pol con i msg c sent' w2 = (x, sent'', w2')"
  shows "x = Ok () \<and> w_log w2' = w_log w2"
  using assms by (rule sendComplianceEvent_again)

lemma gk_steady:
  "steady (gk_sample_api stored) gk_policy (Inr [''validation.gatekeeper.sh'']) stored"
  by (simp add: steady_def gk_sample_api_def)

lemma gk_send_Ok:
  "fst (sendComplianceEvent gk_lib (gk_sample_api (Inr gk_policy)) gk_sender gk_policy
     sample_constraint 0 ''m'' Compliant Map.empty gk_world) = Ok ()"
  by (simp add: gk_run_defs)

theorem gatekeeper_sends_once_witness:
  "\<exists>sent'. sent' \<noteq> Map.empty \<and>
     w_log (snd (snd (sendComplianceEvent gk_lib (gk_sample_api (Inr gk_policy)) gk_sender
       gk_policy sample_constraint 0 ''m'' Compliant sent' gk_world))) = []"
proof -
  let ?f = "\<lambda>sent. sendComplianceEvent gk_lib (gk_sample_api (Inr gk_policy)) gk_sender gk_policy
     sample_constraint 0 ''m'' Compliant sent gk_world"
  let ?s = "fst (snd (?f Map.empty))"
  have "?f Map.empty = (Ok (), ?s, snd (snd (?f Map.empty)))" using gk_send_Ok by (simp add: prod_eq_iff)
  from gatekeeper_sends_once [OF gk_steady this, of gk_world "fst (?f ?s)" "fst (snd (?f ?s))"
      "snd (snd (?f ?s))"]
  have "w_log (snd (snd (?f ?s))) = []" by (simp add: gk_world_def)
  moreover have "?s \<noteq> Map.empty" by (simp add: gk_run_defs)
  ultimately show ?thesis by blast
qed

text \<open>C28. The cache of sent messages is exact for its policy. When a reconcile ends without an error,
  while the cluster reads the same, the policy has entries for no other constraints than those of its
  templates. The entry of a constraint that was audited is the digest of its current report, or it is
  removed when the status of the policy shows that report already; the entry of one that is not on the
  cluster or not audited stays (a constraint in several templates has the entry of the last). A reconcile
  that ends early touches only entries of the constraints of its templates. The entries of a policy that is
  gone are removed, and those of other policies are never touched.\<close>

theorem gatekeeper_cache:
  assumes "gatekeeper_view gapi T enabled policies"
    and "Reconcile_gatekeeper False lib gapi sender request sent w = (res, sent', w')"
  shows "case fst (polGet (gkPolicies gapi) Managed request (w_env w)) of
      Inr pol \<Rightarrow>
        (\<forall>k. if k \<in> constraint_keys lib pol (sp_templates (p_spec pol))
             then res = Done \<longrightarrow> sent' k = entry_after lib T enabled pol k 0 (sp_templates (p_spec pol)) (sent k)
             else sent' k = (if res = Done \<and> pk_policy k = p_name pol then None else sent k))
    | Inl err \<Rightarrow>
        sent' = (if IsNotFound err then delete_sent (\<lambda>k. pk_policy k = nn_name request) sent else sent)"
proof (cases "fst (polGet (gkPolicies gapi) Managed request (w_env w))")
  case (Inl e)
  from assms(2) have "sent' = (if IsNotFound e then delete_sent (\<lambda>k. pk_policy k = nn_name request) sent else sent)"
    by (cases rule: Reconcile_gatekeeper_cases) (use Inl in simp_all)
  then show ?thesis using Inl by simp
next
  case (Inr pol)
  then show ?thesis using gatekeeper_view.reconcile_caches [OF assms Inr] by simp
qed

text \<open>The stale entry goes, and the report of the constraint that is new in the cache gets its digest.\<close>

theorem gatekeeper_cache_witness:
  "\<exists>sent'. Reconcile_gatekeeper False view_lib view_api gk_sender (nn ''managed'' ''pol'')
       (Map.empty(\<lparr>pk_policy = ''pol'', pk_kind = ''K'', pk_name = ''old''\<rparr> \<mapsto> [])) gk_world
     = (Done, sent', snd (snd (Reconcile_gatekeeper False view_lib view_api gk_sender (nn ''managed'' ''pol'')
       (Map.empty(\<lparr>pk_policy = ''pol'', pk_kind = ''K'', pk_name = ''old''\<rparr> \<mapsto> [])) gk_world))) \<and>
     sent' \<lparr>pk_policy = ''pol'', pk_kind = ''K'', pk_name = ''old''\<rparr> = None \<and>
     sent' \<lparr>pk_policy = ''pol'', pk_kind = ''K'', pk_name = ''good''\<rparr> =
       Some (sha1_Sum ''The constraint has no violations'')"
proof -
  let ?old = "\<lparr>pk_policy = ''pol'', pk_kind = ''K'', pk_name = ''old''\<rparr>"
  let ?good = "\<lparr>pk_policy = ''pol'', pk_kind = ''K'', pk_name = ''good''\<rparr>"
  let ?run = "Reconcile_gatekeeper False view_lib view_api gk_sender (nn ''managed'' ''pol'')
    (Map.empty(?old \<mapsto> [])) gk_world"
  let ?sent = "fst (snd ?run)"
  have run: "?run = (Done, ?sent, snd (snd ?run))"
    by (simp add: view_defs violation_name_def violation_text_def jget_def jstring_def webhookEnabled_def sent_key_def)
  have pol: "fst (polGet (gkPolicies view_api) Managed (nn ''managed'' ''pol'') (w_env gk_world)) = Inr view_policy"
    by (simp add: view_api_def view_policies_def)
  have keys: "?old \<notin> constraint_keys view_lib view_policy (sp_templates (p_spec view_policy))"
    "?good \<in> constraint_keys view_lib view_policy (sp_templates (p_spec view_policy))"
    by (simp_all add: constraint_keys_simps view_lib_def view_policy_def gk_policy_def sample_constraint_def)
  have "\<forall>k. if k \<in> constraint_keys view_lib view_policy (sp_templates (p_spec view_policy))
      then ?sent k = entry_after view_lib (\<lambda>_ g ns n. Some (view_object g ns n)) True view_policy k 0
        (sp_templates (p_spec view_policy)) ((Map.empty(?old \<mapsto> [])) k)
      else ?sent k = (if pk_policy k = p_name view_policy then None else (Map.empty(?old \<mapsto> [])) k)"
    using gatekeeper_cache [OF view.gatekeeper_view_axioms run] unfolding pol by simp
  note C = this [rule_format]
  have "entry_after view_lib (\<lambda>_ g ns n. Some (view_object g ns n)) True view_policy ?good 0
      (sp_templates (p_spec view_policy)) None = Some (sha1_Sum ''The constraint has no violations'')"
    by (simp add: view_defs audited_constraint_def found_constraint_def sent_key_def report_entry_def
        report_text_def audit_text_def verdict_def jget_def compliance_message_def)
  then have "?sent ?good = Some (sha1_Sum ''The constraint has no violations'')"
    using C [of ?good] keys(2) by (simp del: entry_after.simps)
  moreover have "?sent ?old = None"
    using C [of ?old] keys(1) by (simp add: view_policy_def gk_policy_def del: entry_after.simps)
  ultimately show ?thesis using run by blast
qed

text \<open>The message of a non-compliant report is the list of the violations, separated by
  semicolons, in their order and without those that are not objects; building it panics
  exactly when an object has no string name or a namespace that is not a string.\<close>

theorem violations_message_lists:
  "violations_message [] vs =
     (if list_all (\<lambda>m. violation_name m \<noteq> None) (violation_objects vs)
      then Some (Join (violation_texts vs) ''; '') else None)"
  using violations_message_Join [of "[]" vs] by (simp add: list_all_iff)

end
