(* ===== verification/TemplateUtil.thy ===== *)
theory TemplateUtil
  imports Utils StatusHistory PolicyStore "HOL-Library.AList" "HOL-Library.Char_ord" "HOL-Library.Multiset"
    "HOL-Library.List_Lexorder"
begin

text \<open>
  The helpers of the template-sync controller (\<^verbatim>\<open>controllers/templatesync\<close>): the labels and the
  remediation action that a template gets from its policy, the comparison of a template with
  the object on the cluster, dependencies, finalizers, duplicate names, and the predicate.

  A Go map that the code ranges over is an association list with each key once; where the
  order of iteration could matter, the model takes the order of insertion.
\<close>

section \<open>JSON objects\<close>

text \<open>\<^verbatim>\<open>m[key] = value\<close>; the members stay in the order of their keys.\<close>

fun jput :: "string \<Rightarrow> json \<Rightarrow> jobj \<Rightarrow> jobj" where
  "jput k v [] = [(k, v)]"
| "jput k v ((k', v') # ms) =
     (if k = k' then (k, v) # ms
      else if k < k' then (k, v) # (k', v') # ms
      else (k', v') # jput k v ms)"

text \<open>\<^verbatim>\<open>json.Marshal\<close> of a decoded value. Strings are escaped as the encoder does it for HTML
  safety; numbers are written as they are kept.\<close>

definition hex_digit :: "nat \<Rightarrow> char" where
  "hex_digit n = ''0123456789abcdef'' ! n"

definition escape_char :: "char \<Rightarrow> string" where
  "escape_char c =
     (let n = of_char c :: nat in
      if n = 34 \<or> n = 92 then [char_of (92 :: nat), c]
      else if n = 8 then [char_of (92 :: nat), CHR ''b'']
      else if n = 12 then [char_of (92 :: nat), CHR ''f'']
      else if n = 10 then [char_of (92 :: nat), CHR ''n'']
      else if n = 13 then [char_of (92 :: nat), CHR ''r'']
      else if n = 9 then [char_of (92 :: nat), CHR ''t'']
      else if n < 32 \<or> n = 60 \<or> n = 62 \<or> n = 38
      then char_of (92 :: nat) # ''u00'' @ [hex_digit (n div 16), hex_digit (n mod 16)]
      else [c])"

definition quote :: "string \<Rightarrow> string" where
  "quote s = char_of (34 :: nat) # concat (map escape_char s) @ [char_of (34 :: nat)]"

fun Marshal :: "json \<Rightarrow> string" and marshal_members :: "jobj \<Rightarrow> string list" where
  "Marshal JNull = ''null''"
| "Marshal (JBool b) = (if b then ''true'' else ''false'')"
| "Marshal (JInt i) = fmt_d i"
| "Marshal (JFloat t) = t"
| "Marshal (JStr s) = quote s"
| "Marshal (JArr js) = ''['' @ Join (map Marshal js) '','' @ '']''"
| "Marshal (JObj ms) = ''{'' @ Join (marshal_members ms) '','' @ ''}''"
| "marshal_members [] = []"
| "marshal_members ((k, v) # ms) = (quote k @ '':'' @ Marshal v) # marshal_members ms"

text \<open>Indexing the content with a field that may be missing gives \<^verbatim>\<open>nil\<close>.\<close>

definition field :: "unstr \<Rightarrow> string \<Rightarrow> json" where
  "field u k = (case jget (u_content u) k of None \<Rightarrow> JNull | Some v \<Rightarrow> v)"

section \<open>Labels and remediation action\<close>

record template_reconciler =
  tr_clusterNamespace :: string
  tr_instanceName :: string
  tr_disableGkSync :: bool

definition desired_labels :: "template_reconciler \<Rightarrow> policy \<Rightarrow> (string \<times> string) list" where
  "desired_labels r inst =
     [(ParentPolicyLabel, p_name inst),
      (''cluster-name'', lookup_str (p_labels inst) ClusterNameLabel),
      (ClusterNameLabel, lookup_str (p_labels inst) ClusterNameLabel),
      (''cluster-namespace'', tr_clusterNamespace r),
      (ClusterNamespaceLabel, tr_clusterNamespace r)]"

fun put_all :: "(string \<times> string) list \<Rightarrow> (string \<times> string) list \<Rightarrow> (string \<times> string) list" where
  "put_all [] labels = labels"
| "put_all ((key, label) # desired) labels = put_all desired (AList.update key label labels)"

definition setDefaultTemplateLabels ::
  "template_reconciler \<Rightarrow> policy \<Rightarrow> (string \<times> string) list \<Rightarrow> (string \<times> string) list" where
  "setDefaultTemplateLabels r inst labels = put_all (desired_labels r inst) labels"

definition put_spec :: "unstr \<Rightarrow> string \<Rightarrow> string \<Rightarrow> unstr" where
  "put_spec u key v =
     (case jget (u_content u) ''spec'' of
        Some (JObj specObject) \<Rightarrow>
          u\<lparr>u_content := jput ''spec'' (JObj (jput key (JStr v) specObject)) (u_content u)\<rparr>
      | _ \<Rightarrow> u)"

definition overrideRemediationAction :: "policy \<Rightarrow> unstr \<Rightarrow> unstr" where
  "overrideRemediationAction inst u =
     (let action = sp_remediationAction (p_spec inst) in
      if g_group (u_gvk u) = GConstraint then
        (if ToLower action = ''inform'' then put_spec u ''enforcementAction'' ''warn''
         else if ToLower action = ''enforce'' then put_spec u ''enforcementAction'' ''deny''
         else u)
      else if g_group (u_gvk u) = ConstraintTemplateGroup then u
      else
        (case jget (u_content u) ''spec'' of
           Some (JObj specObject) \<Rightarrow>
             (case jget specObject ''remediationAction'' of
                Some (JStr own) \<Rightarrow>
                  (if EqualFold own ''informonly'' then put_spec u ''remediationAction'' ''inform''
                   else if action \<noteq> [] then put_spec u ''remediationAction'' action else u)
              | _ \<Rightarrow> if action \<noteq> [] then put_spec u ''remediationAction'' action else u)
         | _ \<Rightarrow> u))"

section \<open>Comparison of a template with the object on the cluster\<close>

text \<open>A default for a nested string; an error of setting it is only logged.\<close>

definition default_string :: "klib \<Rightarrow> string list \<Rightarrow> string \<Rightarrow> jobj \<Rightarrow> jobj" where
  "default_string lib path v content =
     (case nestedString lib content path of
        (current, _, _) \<Rightarrow>
          if current = [] then fst (setNestedField lib content (JStr v) path) else content)"

fun default_recreate :: "json list \<Rightarrow> json list \<times> bool" where
  "default_recreate [] = ([], False)"
| "default_recreate (JObj m # js) =
     (case default_recreate js of
        (js', updated) \<Rightarrow>
          if jget m ''recreateOption'' = None
          then (JObj (jput ''recreateOption'' (JStr ''None'') m) # js', True)
          else (JObj m # js', updated))"
| "default_recreate (j # js) =
     (case default_recreate js of (js', updated) \<Rightarrow> (j # js', updated))"

definition configuration_policy_defaults :: "klib \<Rightarrow> jobj \<Rightarrow> jobj" where
  "configuration_policy_defaults lib content =
     (let content = default_string lib [''spec'', ''pruneObjectBehavior''] ''None'' content
      in case nestedSlice lib content [''spec'', ''object-templates''] of
           (objectTemplates, _, _) \<Rightarrow>
             (case default_recreate objectTemplates of
                (objectTemplates, updatedObjectTemplates) \<Rightarrow>
                  if updatedObjectTemplates
                  then fst (setNestedField lib content (JArr objectTemplates)
                         [''spec'', ''object-templates''])
                  else content))"

definition operator_policy_defaults :: "klib \<Rightarrow> jobj \<Rightarrow> jobj" where
  "operator_policy_defaults lib content =
     (let path = (\<lambda>key. [''spec'', ''complianceConfig'', key]);
          content = default_string lib (path ''catalogSourceUnhealthy'') ''Compliant'' content;
          content = default_string lib (path ''deploymentsUnavailable'') ''NonCompliant'' content
      in default_string lib (path ''upgradesAvailable'') ''Compliant'' content)"

definition template_defaults :: "klib \<Rightarrow> unstr \<Rightarrow> unstr" where
  "template_defaults lib tObject =
     (let tObject = (if g_kind (u_gvk tObject) = ''ConfigurationPolicy''
             then tObject\<lparr>u_content := configuration_policy_defaults lib (u_content tObject)\<rparr>
             else tObject)
      in if g_kind (u_gvk tObject) = ''OperatorPolicy''
         then tObject\<lparr>u_content := operator_policy_defaults lib (u_content tObject)\<rparr>
         else tObject)"

definition covered_by :: "(string \<times> string) list \<Rightarrow> (string \<times> string) list \<Rightarrow> bool" where
  "covered_by wanted existing = list_all (\<lambda>(key, val). map_of existing key = Some val) wanted"

text \<open>The result and the template with the defaults filled in, which the caller goes on with.\<close>

definition equivalentTemplates :: "klib \<Rightarrow> unstr \<Rightarrow> unstr \<Rightarrow> bool \<times> unstr" where
  "equivalentTemplates lib eObject tObject =
     (let tObject = template_defaults lib tObject
      in (if Marshal (field eObject ''spec'') \<noteq> Marshal (field tObject ''spec'') then False
          else if \<not> covered_by (u_annotations tObject) (u_annotations eObject) then False
          else if \<not> covered_by (u_labels tObject) (u_labels eObject) then False
          else u_owners eObject = u_owners tObject, tObject))"

section \<open>Finalizers and duplicate names\<close>

definition hasClusterwideFinalizer :: "policy \<Rightarrow> bool" where
  "hasClusterwideFinalizer pol = list_ex (\<lambda>finalizer. finalizer = ClusterwideFinalizer) (p_finalizers pol)"

text \<open>The loop over the index, with the length that shrinks when an element is cut out.\<close>

function remove_from :: "nat \<Rightarrow> string list \<Rightarrow> string \<Rightarrow> string list" where
  "remove_from i finalizers finalizer =
     (if i < length finalizers then
        (if finalizers ! i = finalizer
         then remove_from i (take i finalizers @ drop (Suc i) finalizers) finalizer
         else remove_from (Suc i) finalizers finalizer)
      else finalizers)"
  by pat_completeness auto
termination
  by (relation "measure (\<lambda>(i, finalizers, finalizer). length finalizers - i)") auto

definition removeFinalizer :: "policy \<Rightarrow> string \<Rightarrow> policy" where
  "removeFinalizer pol finalizer = pol\<lparr>p_finalizers := remove_from 0 (p_finalizers pol) finalizer\<rparr>"

fun dup_name :: "klib \<Rightarrow> string list \<Rightarrow> policy_template list \<Rightarrow> string" where
  "dup_name lib foundNames [] = []"
| "dup_name lib foundNames (v # vs) =
     (case unmarshalMap lib (t_raw v) of
        Inl _ \<Rightarrow> []
      | Inr u \<Rightarrow>
          (if u_name u \<in> set foundNames then u_name u
           else dup_name lib (u_name u # foundNames) vs))"

definition getDupName :: "klib \<Rightarrow> policy \<Rightarrow> string" where
  "getDupName lib pol = dup_name lib [] (sp_templates (p_spec pol))"

section \<open>Dependencies\<close>

definition getDepNamespace :: "string \<Rightarrow> dependency \<Rightarrow> string" where
  "getDepNamespace clusterNamespace dep =
     (if g_group (dep_gvk dep) = APIGroup \<and> HasSuffix (g_kind (dep_gvk dep)) ''Policy''
      then clusterNamespace else dep_namespace dep)"

definition dep_id :: "template_reconciler \<Rightarrow> dependency \<Rightarrow> object_identifier" where
  "dep_id r dep =
     \<lparr>oi_group = g_group (dep_gvk dep), oi_version = g_version (dep_gvk dep),
      oi_kind = g_kind (dep_gvk dep),
      oi_namespace = getDepNamespace (tr_clusterNamespace r) dep, oi_name = dep_name dep\<rparr>"

type_synonym dep_map = "(object_identifier \<times> string) list"

text \<open>The names are sorted, so the message does not depend on the order of the map.\<close>

definition generatePendingMsg :: "dep_map \<Rightarrow> string" where
  "generatePendingMsg dependencyFailures =
     (let names = sort (map (\<lambda>(dep, _). oi_kind dep @ '' '' @ oi_name dep) dependencyFailures);
          nameStr = Join names '', '';
          n = length dependencyFailures
      in if n = 1
         then ''Dependencies were not satisfied: '' @ fmt_d (int n) @ '' is still pending ('' @ nameStr @ '')''
         else ''Dependencies were not satisfied: '' @ fmt_d (int n) @ '' are still pending ('' @ nameStr @ '')'')"

section \<open>Predicate\<close>

definition hasAnyDependencies :: "policy \<Rightarrow> bool" where
  "hasAnyDependencies pol =
     (if length (sp_dependencies (p_spec pol)) > 0 then True
      else list_ex (\<lambda>tmpl. length (t_extraDependencies tmpl) > 0) (sp_templates (p_spec pol)))"

text \<open>The inner loop: whether a template error is found after the first entry, before any
  in the first entry.\<close>

fun stale_error :: "nat \<Rightarrow> history list \<Rightarrow> bool" where
  "stale_error i [] = False"
| "stale_error i (h # hs) =
     (if Contains (h_message h) ''template-error'' then i \<noteq> 0 else stale_error (Suc i) hs)"

fun stale_details :: "details option list \<Rightarrow> bool" where
  "stale_details [] = False"
| "stale_details (None # dpts) = stale_details dpts"
| "stale_details (Some dpt # dpts) = (if stale_error 0 (d_history dpt) then True else stale_details dpts)"

definition templatePredicates_update :: "policy \<Rightarrow> policy \<Rightarrow> bool" where
  "templatePredicates_update oldPolicy updatedPolicy =
     (if p_generation oldPolicy \<noteq> p_generation updatedPolicy then True
      else if hasAnyDependencies updatedPolicy \<and> s_compliance (p_status updatedPolicy) \<noteq> ''Pending''
      then True
      else stale_details (s_details (p_status updatedPolicy)))"

section \<open>Objects and labels\<close>

lemma jget_jput [simp]: "jget (jput k v m) k' = (if k' = k then Some v else jget m k')"
  by (induction m) (auto simp: jget_def)

lemma field_jput [simp]:
  "field (u\<lparr>u_content := jput k v m\<rparr>) k' = (if k' = k then v else field (u\<lparr>u_content := m\<rparr>) k')"
  by (simp add: field_def)

lemma put_all_distinct: "distinct (map fst ls) \<Longrightarrow> distinct (map fst (put_all ds ls))"
  by (induction ds ls rule: put_all.induct) (simp_all add: distinct_update)

lemmas label_defs = ParentPolicyLabel_def ClusterNameLabel_def ClusterNamespaceLabel_def APIGroup_def

lemma setDefaultTemplateLabels_map_of:
  "map_of (setDefaultTemplateLabels r inst labels) =
     (map_of labels)(ParentPolicyLabel \<mapsto> p_name inst,
       ''cluster-name'' \<mapsto> lookup_str (p_labels inst) ClusterNameLabel,
       ClusterNameLabel \<mapsto> lookup_str (p_labels inst) ClusterNameLabel,
       ''cluster-namespace'' \<mapsto> tr_clusterNamespace r,
       ClusterNamespaceLabel \<mapsto> tr_clusterNamespace r)"
  by (simp add: setDefaultTemplateLabels_def desired_labels_def update_conv')

lemma setDefaultTemplateLabels_parent [simp]:
  "map_of (setDefaultTemplateLabels r inst labels) ParentPolicyLabel = Some (p_name inst)"
  by (simp add: setDefaultTemplateLabels_map_of label_defs)

section \<open>The comparison\<close>

lemma covered_by_refl: "distinct (map fst xs) \<Longrightarrow> covered_by xs xs"
  by (auto simp: covered_by_def list_all_iff)

lemma template_defaults_meta [simp]:
  "u_labels (template_defaults lib t) = u_labels t"
  "u_annotations (template_defaults lib t) = u_annotations t"
  "u_owners (template_defaults lib t) = u_owners t"
  "u_name (template_defaults lib t) = u_name t"
  by (simp_all add: template_defaults_def Let_def)

lemma put_spec_meta [simp]:
  "u_labels (put_spec u k v) = u_labels u" "u_annotations (put_spec u k v) = u_annotations u"
  "u_owners (put_spec u k v) = u_owners u" "u_name (put_spec u k v) = u_name u"
  "u_namespace (put_spec u k v) = u_namespace u" "u_gvk (put_spec u k v) = u_gvk u"
  by (simp_all add: put_spec_def split: option.splits json.splits)

lemma overrideRemediationAction_meta [simp]:
  "u_labels (overrideRemediationAction inst u) = u_labels u"
  "u_annotations (overrideRemediationAction inst u) = u_annotations u"
  "u_owners (overrideRemediationAction inst u) = u_owners u"
  "u_name (overrideRemediationAction inst u) = u_name u"
  "u_namespace (overrideRemediationAction inst u) = u_namespace u"
  by (simp_all add: overrideRemediationAction_def Let_def split: option.splits json.splits)

text \<open>The template is what the object should be: the specification, the annotations, the labels
  and the owners agree.\<close>

definition in_sync :: "unstr \<Rightarrow> unstr \<Rightarrow> bool" where
  "in_sync eObject tObject \<longleftrightarrow>
     Marshal (field eObject ''spec'') = Marshal (field tObject ''spec'') \<and>
     covered_by (u_annotations tObject) (u_annotations eObject) \<and>
     covered_by (u_labels tObject) (u_labels eObject) \<and>
     u_owners eObject = u_owners tObject"

lemma equivalentTemplates_in_sync:
  "equivalentTemplates lib e t = (in_sync e (template_defaults lib t), template_defaults lib t)"
  by (auto simp: equivalentTemplates_def in_sync_def Let_def)

section \<open>Finalizers and names\<close>

lemma remove_from_filter:
  "remove_from i fs f = take i fs @ filter (\<lambda>x. x \<noteq> f) (drop i fs)"
proof (induction i fs f rule: remove_from.induct)
  case (1 i fs f)
  show ?case
  proof (cases "i < length fs")
    case True
    then have "drop i fs = fs ! i # drop (Suc i) fs" by (simp add: Cons_nth_drop_Suc)
    with True 1 show ?thesis
      by (subst remove_from.simps) (auto simp: take_Suc_conv_app_nth min_def simp del: remove_from.simps)
  qed simp
qed

declare remove_from.simps [simp del]

lemma dup_name_spec:
  assumes "\<forall>v\<in>set vs. \<exists>u. unmarshalMap lib (t_raw v) = Inr u \<and> u_name u \<noteq> []"
    and "names = map (\<lambda>v. u_name (projr (unmarshalMap lib (t_raw v)))) vs"
  shows "dup_name lib found vs = [] \<longleftrightarrow> distinct names \<and> set names \<inter> set found = {}"
    and "dup_name lib found vs \<noteq> [] \<Longrightarrow>
      1 < count (mset (found @ names)) (dup_name lib found vs)"
proof -
  show "dup_name lib found vs = [] \<longleftrightarrow> distinct names \<and> set names \<inter> set found = {}"
    using assms by (induction vs arbitrary: found names) (auto split: sum.splits)
  assume "dup_name lib found vs \<noteq> []"
  then show "1 < count (mset (found @ names)) (dup_name lib found vs)"
    using assms
  proof (induction vs arbitrary: found names)
    case (Cons v vs)
    then obtain u where u: "unmarshalMap lib (t_raw v) = Inr u" "u_name u \<noteq> []" by auto
    show ?case
    proof (cases "u_name u \<in> set found")
      case True
      then have "0 < count (mset found) (u_name u)" by (metis count_mset_0_iff neq0_conv)
      with True u Cons.prems show ?thesis by simp
    next
      case False
      with Cons.IH [of "u_name u # found" "tl names"] Cons.prems u show ?thesis by simp
    qed
  qed simp
qed

lemma stale_error_Suc: "stale_error (Suc i) hs \<longleftrightarrow> list_ex (\<lambda>h. Contains (h_message h) ''template-error'') hs"
  by (induction hs arbitrary: i) auto

lemma stale_details_iff:
  "stale_details ds \<longleftrightarrow> list_ex (\<lambda>d. case d of None \<Rightarrow> False | Some d \<Rightarrow> stale_error 0 (d_history d)) ds"
  by (induction ds rule: stale_details.induct) auto

section \<open>Properties\<close>

text \<open>Removing a finalizer by the loop that cuts elements out of the slice it runs over gives
  the policy with every occurrence removed and the others in their order, and nothing else of
  the policy changed; so the policy does not have the clusterwide finalizer afterwards.\<close>

theorem removeFinalizer_exact:
  "removeFinalizer pol f = pol\<lparr>p_finalizers := filter (\<lambda>x. x \<noteq> f) (p_finalizers pol)\<rparr> \<and>
   \<not> hasClusterwideFinalizer (removeFinalizer pol ClusterwideFinalizer)"
  by (simp add: removeFinalizer_def remove_from_filter hasClusterwideFinalizer_def list_ex_iff)

text \<open>C32. When every template is an object with a name, the check for duplicate names passes
  exactly when the names are distinct, and otherwise it returns a name that occurs more than
  once.\<close>

theorem getDupName_exact:
  assumes "\<forall>v\<in>set (sp_templates (p_spec pol)).
      \<exists>u. unmarshalMap lib (t_raw v) = Inr u \<and> u_name u \<noteq> []"
    and "names = map (\<lambda>v. u_name (projr (unmarshalMap lib (t_raw v)))) (sp_templates (p_spec pol))"
  shows "(getDupName lib pol = [] \<longleftrightarrow> distinct names) \<and>
    (getDupName lib pol \<noteq> [] \<longrightarrow> 1 < count (mset names) (getDupName lib pol))"
  using dup_name_spec [OF assms, of "[]"] by (simp add: getDupName_def)

definition tu_lib :: klib where
  "tu_lib = \<lparr>nestedString = (\<lambda>_ _. ([], False, False)), nestedInt64 = (\<lambda>_ _. (0, False, False)),
     nestedBool = (\<lambda>_ _. (False, False, False)), nestedSlice = (\<lambda>_ _. ([], False, False)),
     nestedErrorText = (\<lambda>_ _. []), setNestedField = (\<lambda>c _ _. (c, False)),
     decodeTemplate = (\<lambda>_. Inl (GErr MissingKind [])),
     unmarshalObject = (\<lambda>_. Inl (GErr MissingKind [])),
     unmarshalMap = (\<lambda>raw. Inr \<lparr>u_gvk = \<lparr>g_group = APIGroup, g_version = ''v1'', g_kind = ''ConfigurationPolicy''\<rparr>,
       u_name = raw, u_namespace = [], u_uid = [], u_resourceVersion = [], u_labels = [],
       u_annotations = [], u_owners = [], u_content = []\<rparr>),
     historyEvent = (\<lambda>_. None),
     newControllerRef = (\<lambda>p. \<lparr>or_apiVersion = p_apiVersion p, or_kind = p_kind p, or_name = p_name p,
       or_uid = p_uid p, or_controller = Some True, or_blockOwnerDeletion = Some True\<rparr>),
     crdQueryText = []\<rparr>"

definition tu_template :: "string \<Rightarrow> policy_template" where
  "tu_template n = \<lparr>t_raw = n, t_extraDependencies = [], t_ignorePending = False\<rparr>"

definition tu_policy :: "string list \<Rightarrow> policy" where
  "tu_policy ns =
     \<lparr>p_name = ''pol'', p_namespace = ''c1'', p_uid = ''u1'', p_kind = ''Policy'', p_apiVersion = ''v1'',
      p_generation = 1, p_resourceVersion = [], p_deleting = False, p_labels = Map.empty,
      p_annotations = Map.empty, p_owners = [], p_finalizers = [],
      p_spec = \<lparr>sp_disabled = False, sp_remediationAction = ''enforce'', sp_dependencies = [],
        sp_templates = map tu_template ns, sp_other = []\<rparr>,
      p_status = \<lparr>s_placement = [], s_clusters = [], s_compliance = [], s_details = []\<rparr>\<rparr>"

theorem getDupName_exact_witness:
  "getDupName tu_lib (tu_policy [''a'', ''b'']) = [] \<and>
   1 < count (mset [''a'', ''b'', ''a'']) (getDupName tu_lib (tu_policy [''a'', ''b'', ''a'']))"
  using getDupName_exact [of "tu_policy [''a'', ''b'']" tu_lib]
    getDupName_exact [of "tu_policy [''a'', ''b'', ''a'']" tu_lib]
  by (simp add: tu_policy_def tu_lib_def tu_template_def)

text \<open>The message for unsatisfied dependencies does not depend on the order in which the map
  of the failures is iterated, so the comparison with the message already in the status is
  stable from one reconcile to the next.\<close>

theorem generatePendingMsg_stable:
  assumes "mset fs = mset fs'"
  shows "generatePendingMsg fs = generatePendingMsg fs'"
proof -
  let ?f = "\<lambda>(dep, _). oi_kind dep @ '' '' @ oi_name dep"
  have "mset (map ?f fs) = mset (map ?f fs')" using assms by simp
  then have "sort (map ?f fs) = sort (map ?f fs')"
    by (intro properties_for_sort) (simp_all only: mset_sort sorted_sort)
  moreover have "length fs = length fs'" using assms by (rule mset_eq_length)
  ultimately show ?thesis by (simp add: generatePendingMsg_def)
qed

definition tu_dep :: "string \<Rightarrow> object_identifier \<times> string" where
  "tu_dep n = (\<lparr>oi_group = APIGroup, oi_version = ''v1'', oi_kind = ''Policy'', oi_namespace = ''c1'',
     oi_name = n\<rparr>, ''why'')"

theorem generatePendingMsg_stable_witness:
  "generatePendingMsg [tu_dep ''b'', tu_dep ''a''] = generatePendingMsg [tu_dep ''a'', tu_dep ''b'']"
  using generatePendingMsg_stable [of "[tu_dep ''b'', tu_dep ''a'']" "[tu_dep ''a'', tu_dep ''b'']"]
  by simp

text \<open>A change of a policy is reconciled exactly when its generation changed, when it has
  dependencies and is not pending, or when the history of one of its templates has a template
  error that is not the latest entry while the latest entry is none.\<close>

theorem templatePredicates_update_iff:
  "templatePredicates_update old new \<longleftrightarrow>
     p_generation old \<noteq> p_generation new \<or>
     (sp_dependencies (p_spec new) \<noteq> [] \<or>
        list_ex (\<lambda>t. t_extraDependencies t \<noteq> []) (sp_templates (p_spec new))) \<and>
       s_compliance (p_status new) \<noteq> ''Pending'' \<or>
     list_ex (\<lambda>d. case d of None \<Rightarrow> False | Some d \<Rightarrow>
         (case d_history d of
            [] \<Rightarrow> False
          | h # hs \<Rightarrow> \<not> Contains (h_message h) ''template-error'' \<and>
              list_ex (\<lambda>h. Contains (h_message h) ''template-error'') hs))
       (s_details (p_status new))"
proof -
  have "stale_error 0 hs \<longleftrightarrow> (case hs of [] \<Rightarrow> False | h # hs \<Rightarrow>
      \<not> Contains (h_message h) ''template-error'' \<and>
      list_ex (\<lambda>h. Contains (h_message h) ''template-error'') hs)" for hs
    by (cases hs) (simp_all add: stale_error_Suc)
  then show ?thesis
    unfolding templatePredicates_update_def hasAnyDependencies_def stale_details_iff by auto
qed

text \<open>The remediation action of the policy wins over that of a template that is not from
  Gatekeeper, except that a template which only informs stays so; no other field of the
  specification changes.\<close>

theorem remediation_override:
  assumes "g_group (u_gvk u) \<notin> {GConstraint, ConstraintTemplateGroup}"
    and "jget (u_content u) ''spec'' = Some (JObj s)"
    and "action = sp_remediationAction (p_spec inst)"
  shows "\<exists>s'. jget (u_content (overrideRemediationAction inst u)) ''spec'' = Some (JObj s') \<and>
    jget s' ''remediationAction'' =
      (if \<exists>own. jget s ''remediationAction'' = Some (JStr own) \<and> EqualFold own ''informonly''
       then Some (JStr ''inform'')
       else if action \<noteq> [] then Some (JStr action) else jget s ''remediationAction'') \<and>
    (\<forall>k. k \<noteq> ''remediationAction'' \<longrightarrow> jget s' k = jget s k)"
  using assms
  by (simp add: overrideRemediationAction_def put_spec_def Let_def split: option.splits json.splits)

definition tu_object :: unstr where
  "tu_object = \<lparr>u_gvk = \<lparr>g_group = APIGroup, g_version = ''v1'', g_kind = ''ConfigurationPolicy''\<rparr>,
     u_name = ''t'', u_namespace = [], u_uid = [], u_resourceVersion = [], u_labels = [],
     u_annotations = [], u_owners = [],
     u_content = [(''spec'', JObj [(''remediationAction'', JStr ''InformOnly''), (''severity'', JStr ''low'')])]\<rparr>"

theorem remediation_override_witness:
  "\<exists>s'. jget (u_content (overrideRemediationAction (tu_policy []) tu_object)) ''spec'' = Some (JObj s') \<and>
     jget s' ''remediationAction'' = Some (JStr ''inform'')"
proof -
  have "EqualFold ''InformOnly'' ''informonly''"
    by code_simp
  moreover have "g_group (u_gvk tu_object) \<notin> {GConstraint, ConstraintTemplateGroup}"
    by (simp add: tu_object_def APIGroup_def GConstraint_def ConstraintTemplateGroup_def)
  moreover have "jget (u_content tu_object) ''spec'' =
      Some (JObj [(''remediationAction'', JStr ''InformOnly''), (''severity'', JStr ''low'')])"
    by (simp add: tu_object_def jget_def)
  ultimately show ?thesis
    using remediation_override [of tu_object _ _ "tu_policy []"] by (fastforce simp: jget_def)
qed

end
