(* ===== verification/TemplateSync.thy ===== *)
theory TemplateSync
  imports TemplateUtil
begin

text \<open>
  The template-sync controller, \<^verbatim>\<open>controllers/templatesync/template_sync.go\<close>: it creates, updates
  and deletes the objects in the templates of a policy, reports errors, pending and successful
  templates as compliance events, and keeps the finalizer that lets it clean up cluster-scoped
  objects. The field \<^verbatim>\<open>createdGkConstraint\<close> (a pointer to a boolean) is passed through, and so is
  the state of the loop over the templates: the last error, the names seen, the objects to
  watch and whether a finalizer is needed.
\<close>

section \<open>The clients\<close>

text \<open>A definition of the extension API: its group, plural, versions and scope.\<close>

record crd =
  cr_group :: string
  cr_plural :: string
  cr_versions :: "string list"
  cr_namespaced :: bool

text \<open>
  The clients of the controller. The dynamic client addresses an object by resource, namespace
  and name. \<open>tsCrdLabels\<close> reads the labels of a definition, \<open>tsListCrds\<close> lists those with the
  policy-type label and \<open>tsListConstraintTemplates\<close> lists the constraint templates, each with
  \<^verbatim>\<open>status.created\<close> and the kind of its constraints; the boolean selects the \<^verbatim>\<open>v1beta1\<close> API.
\<close>

record ('c, 't) template_api =
  tsPolicies :: "'c policy_api"
  tsEvents :: "'c event_api"
  tsWatcher :: "'c watch_api"
  tsNewClient :: "'c \<Rightarrow> gerr option \<times> 'c"
  tsDiscovery :: "string \<Rightarrow> 'c \<Rightarrow> (gerr + api_resource list) \<times> 'c"
  tsGet :: "gvr \<Rightarrow> string \<Rightarrow> string \<Rightarrow> 'c \<Rightarrow> (gerr + unstr) \<times> 'c"
  tsCreate :: "gvr \<Rightarrow> string \<Rightarrow> unstr \<Rightarrow> 'c \<Rightarrow> (gerr + unstr) \<times> 'c"
  tsUpdate :: "gvr \<Rightarrow> string \<Rightarrow> unstr \<Rightarrow> 'c \<Rightarrow> (gerr + unstr) \<times> 'c"
  tsDelete :: "gvr \<Rightarrow> string \<Rightarrow> string \<Rightarrow> 'c \<Rightarrow> gerr option \<times> 'c"
  tsPatch :: "gvr \<Rightarrow> string \<Rightarrow> string \<Rightarrow> string \<Rightarrow> string \<Rightarrow> 'c \<Rightarrow> gerr option \<times> 'c"
  tsList :: "gvr \<Rightarrow> string \<Rightarrow> string \<Rightarrow> 'c \<Rightarrow> (gerr + string list) \<times> 'c"
  tsCrdLabels :: "bool \<Rightarrow> string \<Rightarrow> 'c \<Rightarrow> (gerr + (string \<rightharpoonup> string)) \<times> 'c"
  tsListConstraintTemplates :: "bool \<Rightarrow> 'c \<Rightarrow> (gerr + (bool \<times> string) list) \<times> 'c"
  tsListCrds :: "bool \<Rightarrow> 'c \<Rightarrow> (gerr + crd list) \<times> 'c"
  tsScheme :: "'t scheme"

definition user_error :: "policy \<Rightarrow> string \<Rightarrow> string \<Rightarrow> 'c world \<Rightarrow> 'c world" where
  "user_error pol tName ty w = emit (CounterInc UserErrors (p_name pol) tName ty) w"

definition system_error :: "policy \<Rightarrow> string \<Rightarrow> string \<Rightarrow> 'c world \<Rightarrow> 'c world" where
  "system_error pol tName ty w = emit (CounterInc SystemErrors (p_name pol) tName ty) w"

section \<open>Reporting\<close>

definition getLatestStatusMessage :: "policy \<Rightarrow> nat \<Rightarrow> string" where
  "getLatestStatusMessage pol tIndex =
     (if tIndex \<ge> length (s_details (p_status pol)) then []
      else (case s_details (p_status pol) ! tIndex of
              None \<Rightarrow> []
            | Some tmplDetails \<Rightarrow>
                (case d_history tmplDetails of [] \<Rightarrow> [] | h # _ \<Rightarrow> h_message h)))"

definition template_sender :: "template_reconciler \<Rightarrow> policy \<Rightarrow> event_sender" where
  "template_sender r pol =
     \<lparr>es_clusterNamespace = p_namespace pol, es_instanceName = tr_instanceName r,
      es_controllerName = ''policy-template-sync''\<rparr>"

definition template_owner :: "policy \<Rightarrow> owner_ref" where
  "template_owner pol =
     \<lparr>or_apiVersion = p_apiVersion pol, or_kind = p_kind pol, or_name = p_name pol,
      or_uid = p_uid pol, or_controller = None, or_blockOwnerDeletion = None\<rparr>"

definition template_reason :: "policy \<Rightarrow> string \<Rightarrow> bool \<Rightarrow> string" where
  "template_reason pol tName clusterScoped =
     (if clusterScoped then EventReason [] tName else EventReason (p_namespace pol) tName)"

definition emitTemplateEvent ::
  "klib \<Rightarrow> ('c, 't) template_api \<Rightarrow> template_reconciler \<Rightarrow> policy \<Rightarrow> nat \<Rightarrow> string \<Rightarrow> bool
     \<Rightarrow> string \<Rightarrow> string \<Rightarrow> string \<Rightarrow> 'c world \<Rightarrow> gerr option \<times> 'c world" where
  "emitTemplateEvent lib api r pol tIndex tName clusterScoped eventType compliance msg w =
     (case call (polGet (tsPolicies api) Managed (nn (p_namespace pol) (p_name pol))) w of
        (Inl err, w) \<Rightarrow> (Some err, w)
      | (Inr refreshed, w) \<Rightarrow>
          (if Contains (getLatestStatusMessage refreshed tIndex) (compliance @ ''; '' @ msg)
           then (None, w)
           else
             (let w = emit (Recorded Managed (policy_nn pol) eventType ''PolicyTemplateSync'' msg) w;
                  inst = (case unmarshalObject lib (t_raw (sp_templates (p_spec pol) ! tIndex)) of
                            Inl _ \<Rightarrow> None | Inr u \<Rightarrow> Some u)
              in SendEvent (tsEvents api) (template_sender r pol) inst (template_owner pol)
                   (template_reason pol tName clusterScoped) msg compliance w)))"

definition emitTemplateSuccess ::
  "klib \<Rightarrow> ('c, 't) template_api \<Rightarrow> template_reconciler \<Rightarrow> policy \<Rightarrow> nat \<Rightarrow> string \<Rightarrow> bool
     \<Rightarrow> string \<Rightarrow> 'c world \<Rightarrow> gerr option \<times> 'c world" where
  "emitTemplateSuccess lib api r pol tIndex tName clusterScoped msg w =
     emitTemplateEvent lib api r pol tIndex tName clusterScoped ''Normal'' Compliant msg w"

text \<open>Every caller ignores the error of reporting an error, so only the world is returned.\<close>

definition emitTemplateError ::
  "klib \<Rightarrow> ('c, 't) template_api \<Rightarrow> template_reconciler \<Rightarrow> policy \<Rightarrow> nat \<Rightarrow> string \<Rightarrow> bool
     \<Rightarrow> string \<Rightarrow> 'c world \<Rightarrow> 'c world" where
  "emitTemplateError lib api r pol tIndex tName clusterScoped errMsg w =
     snd (emitTemplateEvent lib api r pol tIndex tName clusterScoped ''Warning'' NonCompliant
       (''template-error; '' @ errMsg) w)"

definition emitTemplatePending ::
  "klib \<Rightarrow> ('c, 't) template_api \<Rightarrow> template_reconciler \<Rightarrow> policy \<Rightarrow> nat \<Rightarrow> string \<Rightarrow> bool
     \<Rightarrow> string \<Rightarrow> 'c world \<Rightarrow> gerr option \<times> 'c world" where
  "emitTemplatePending lib api r pol tIndex tName clusterScoped msg w =
     (if t_ignorePending (sp_templates (p_spec pol) ! tIndex)
      then emitTemplateEvent lib api r pol tIndex tName clusterScoped ''Normal'' Compliant
             (msg @ '' but ignorePending is true'') w
      else emitTemplateEvent lib api r pol tIndex tName clusterScoped ''Warning'' Pending msg w)"

definition status_reset_patch :: string where
  "status_reset_patch =
     ''[{'' @ quote ''op'' @ '':'' @ quote ''remove'' @ '','' @ quote ''path'' @ '':''
     @ quote ''/status/compliant'' @ ''}]''"

definition handleSyncSuccess ::
  "klib \<Rightarrow> ('c, 't) template_api \<Rightarrow> policy \<Rightarrow> nat \<Rightarrow> string \<Rightarrow> string \<Rightarrow> gvr \<Rightarrow> string
     \<Rightarrow> string \<Rightarrow> unstr \<Rightarrow> 'c world \<Rightarrow> gerr option \<times> 'c world" where
  "handleSyncSuccess lib api pol tIndex tName msg rsrc resourceNs grp template w =
     (let w = (if msg \<noteq> []
               then emit (Recorded Managed (policy_nn pol) ''Normal'' ''PolicyTemplateSync'' msg) w
               else w);
          latestMessage = getLatestStatusMessage pol tIndex
      in if grp \<noteq> APIGroup then (None, w)
         else if \<not> Contains latestMessage ''template-error;'' \<and> \<not> Contains latestMessage ''Pending;''
         then (None, w)
         else if fst (nestedString lib (u_content template) [''status'', ''compliant'']) = []
         then (None, w)
         else (case act (ObjectPatch rsrc resourceNs tName status_reset_patch ''status'')
                      (tsPatch api rsrc resourceNs tName status_reset_patch ''status'') w of
                 (None, w) \<Rightarrow> (None, w)
               | (Some err, w) \<Rightarrow>
                   (Some (wrap_err (''unable to reset the status of policy template '' @ tName
                      @ '': '' @ err_msg err) err), w)))"

section \<open>Lookups\<close>

text \<open>\<^verbatim>\<open>GroupResource.String()\<close>\<close>

definition group_resource :: "gvr \<Rightarrow> string" where
  "group_resource rsrc =
     (if r_group rsrc = [] then r_resource rsrc else r_resource rsrc @ ''.'' @ r_group rsrc)"

definition hasPolicyTemplateLabel ::
  "('c, 't) template_api \<Rightarrow> gvr \<Rightarrow> 'c world \<Rightarrow> (gerr + bool) \<times> 'c world" where
  "hasPolicyTemplateLabel api rsrc w =
     (let finish = (\<lambda>err w. if IsNotFound err then (Inr False, w) else (Inl err, w)) in
      case call (tsCrdLabels api False (group_resource rsrc)) w of
        (Inr labels, w) \<Rightarrow> (Inr (lookup_str labels PolicyTypeLabel = ''template''), w)
      | (Inl err, w) \<Rightarrow>
          (if IsNoMatchError err
           then (case call (tsCrdLabels api True (group_resource rsrc)) w of
                   (Inr labels, w) \<Rightarrow> (Inr (lookup_str labels PolicyTypeLabel = ''template''), w)
                 | (Inl err, w) \<Rightarrow> finish err w)
           else finish err w))"

definition DepFailNoAPIMapping :: string where
  "DepFailNoAPIMapping = ''Could not find an API mapping for the dependency''"

definition DepFailObjNotFound :: string where
  "DepFailObjNotFound = ''Dependency object not found''"

definition DepFailGet :: string where
  "DepFailGet = ''Failed to get the dependency object''"

definition DepFailCompNotFound :: string where
  "DepFailCompNotFound = ''Failed to find complianceState on the dependency object''"

definition DepFailWrongCompliance :: string where
  "DepFailWrongCompliance = ''Compliance mismatch on the dependency object''"

text \<open>Whether an existing object fails a dependency that wants the given compliance.\<close>

definition object_failure :: "klib \<Rightarrow> string \<Rightarrow> string \<Rightarrow> unstr \<Rightarrow> string option" where
  "object_failure lib grp wanted depObj =
     (if grp = ConstraintTemplateGroup then
        (if wanted \<noteq> ''Compliant'' then Some DepFailWrongCompliance else None)
      else if grp = GConstraint then
        (case nestedInt64 lib (u_content depObj) [''status'', ''totalViolations''] of
           (violations, found, err) \<Rightarrow>
             if err \<or> \<not> found then Some DepFailCompNotFound
             else if (violations = 0) \<noteq> (wanted = ''Compliant'') then Some DepFailWrongCompliance
             else None)
      else
        (case nestedString lib (u_content depObj) [''status'', ''compliant''] of
           (depCompliance, found, err) \<Rightarrow>
             if err \<or> \<not> found then Some DepFailCompNotFound
             else if depCompliance \<noteq> wanted then Some DepFailWrongCompliance
             else None))"

text \<open>One pass of the loop of \<open>processDependencies\<close>: why the dependency is not satisfied, if it
  is not.\<close>

definition dependency_failure ::
  "klib \<Rightarrow> ('c, 't) template_api \<Rightarrow> object_identifier \<Rightarrow> string \<Rightarrow> 'c world
     \<Rightarrow> string option \<times> 'c world" where
  "dependency_failure lib api dep wanted w =
     (case GVRFromGVK (tsDiscovery api)
             \<lparr>g_group = oi_group dep, g_version = oi_version dep, g_kind = oi_kind dep\<rparr> w of
        (Inl _, w) \<Rightarrow> (Some DepFailNoAPIMapping, w)
      | (Inr (rsrc, namespaced), w) \<Rightarrow>
          (case call (tsGet api rsrc (if namespaced then oi_namespace dep else []) (oi_name dep)) w of
             (Inl err, w) \<Rightarrow>
               (if IsNotFound err then
                  (if oi_group dep = ConstraintTemplateGroup \<and> wanted \<noteq> ''Compliant'' then (None, w)
                   else (Some DepFailObjNotFound, w))
                else (Some DepFailGet, w))
           | (Inr depObj, w) \<Rightarrow> (object_failure lib (oi_group dep) wanted depObj, w)))"

fun processDependencies ::
  "klib \<Rightarrow> ('c, 't) template_api \<Rightarrow> dep_map \<Rightarrow> 'c world \<Rightarrow> dep_map \<times> 'c world" where
  "processDependencies lib api [] w = ([], w)"
| "processDependencies lib api ((dep, wanted) # deps) w =
     (case dependency_failure lib api dep wanted w of
        (failure, w) \<Rightarrow>
          (case processDependencies lib api deps w of
             (failures, w) \<Rightarrow>
               ((case failure of None \<Rightarrow> failures | Some why \<Rightarrow> (dep, why) # failures), w)))"

text \<open>Whether an error message was emitted for a constraint template that Gatekeeper refused.\<close>

definition emitGKConstraintTemplateErrMsg ::
  "klib \<Rightarrow> ('c, 't) template_api \<Rightarrow> template_reconciler \<Rightarrow> unstr \<Rightarrow> gvr \<Rightarrow> string \<Rightarrow> policy
     \<Rightarrow> nat \<Rightarrow> string \<Rightarrow> 'c world \<Rightarrow> (gerr + bool) \<times> 'c world" where
  "emitGKConstraintTemplateErrMsg lib api r tObject rsrc resourceNs inst tIndex tName w =
     (let name = u_name tObject in
      case call (tsGet api rsrc resourceNs name) w of
        (Inl err, w) \<Rightarrow> (Inl err, w)
      | (Inr template, w) \<Rightarrow>
          (case nestedBool lib (u_content template) [''status'', ''created''] of
             (created, ok, err) \<Rightarrow>
               if \<not> ok \<or> err
               then (Inr True, emitTemplateError lib api r inst tIndex tName True
                       (''Failed to retrieve status.created from ConstraintTemplate '' @ name @ '': ''
                        @ (if err then nestedErrorText lib (u_content template) [''status'', ''created'']
                           else ''<nil>'')) w)
               else if \<not> created
               then (Inr True, emitTemplateError lib api r inst tIndex tName True
                       (''Failed to create Gatekeeper ConstraintTemplate. Check the status of ''
                        @ name @ ''.'') w)
               else (Inr False, w)))"

section \<open>Cleaning up\<close>

record gvr_scoped =
  gs_gvr :: gvr
  gs_namespaced :: bool

definition constraint_template_gvr :: "string \<Rightarrow> gvr_scoped" where
  "constraint_template_gvr version =
     \<lparr>gs_gvr = \<lparr>r_group = ConstraintTemplateGroup, r_version = version,
        r_resource = ''constrainttemplates''\<rparr>, gs_namespaced = False\<rparr>"

definition constraint_gvr :: "string \<Rightarrow> gvr_scoped" where
  "constraint_gvr kind =
     \<lparr>gs_gvr = \<lparr>r_group = GConstraint, r_version = ''v1beta1'', r_resource = ToLower kind\<rparr>,
      gs_namespaced = False\<rparr>"

text \<open>The resources of Gatekeeper to look through, with the new value of \<^verbatim>\<open>createdGkConstraint\<close>.
  In the \<^verbatim>\<open>v1beta1\<close> branch the length that is tested is that of the \<^verbatim>\<open>v1\<close> list, which is empty
  after its query failed.\<close>

definition gatekeeper_gvrs ::
  "('c, 't) template_api \<Rightarrow> bool option \<Rightarrow> 'c world \<Rightarrow> gvr_scoped list \<times> bool option \<times> 'c world" where
  "gatekeeper_gvrs api createdGk w =
     (if createdGk = None \<or> createdGk = Some True then
        (case call (tsListConstraintTemplates api False) w of
           (Inr items, w) \<Rightarrow>
             ((if length items > 0 then [constraint_template_gvr ''v1''] else [])
                @ map (\<lambda>(_, kind). constraint_gvr kind) (filter (\<lambda>(created, _). created) items),
              if length items > 0 then createdGk else Some False, w)
         | (Inl err, w) \<Rightarrow>
             (if IsNoMatchError err then
                (let v1Items = [] :: (bool \<times> string) list in
                 case call (tsListConstraintTemplates api True) w of
                   (Inr items, w) \<Rightarrow>
                     ((if length v1Items > 0 then [constraint_template_gvr ''v1beta1''] else [])
                        @ map (\<lambda>(_, kind). constraint_gvr kind) items,
                      if length v1Items > 0 then createdGk else Some False, w)
                 | (Inl err, w) \<Rightarrow>
                     (if IsNoMatchError err then ([], Some False, w) else ([], createdGk, w)))
              else ([], createdGk, w)))
      else ([], createdGk, w))"

fun crd_gvrs :: "crd list \<Rightarrow> gvr_scoped list" where
  "crd_gvrs [] = []"
| "crd_gvrs (c # cs) =
     (case cr_versions c of
        [] \<Rightarrow> crd_gvrs cs
      | version # _ \<Rightarrow>
          \<lparr>gs_gvr = \<lparr>r_group = cr_group c, r_version = version, r_resource = cr_plural c\<rparr>,
           gs_namespaced = cr_namespaced c\<rparr> # crd_gvrs cs)"

definition policy_type_gvrs ::
  "klib \<Rightarrow> ('c, 't) template_api \<Rightarrow> 'c world \<Rightarrow> (gerr + gvr_scoped list) \<times> 'c world" where
  "policy_type_gvrs lib api w =
     (case call (tsListCrds api False) w of
        (Inr crds, w) \<Rightarrow> (Inr (crd_gvrs crds), w)
      | (Inl err, w) \<Rightarrow>
          (if IsNoMatchError err then
             (case call (tsListCrds api True) w of
                (Inr crds, w) \<Rightarrow> (Inr (crd_gvrs crds), w)
              | (Inl err, w) \<Rightarrow>
                  (Inl (wrap_err (''error listing v1beta1 CRDs with query '' @ crdQueryText lib
                     @ '': '' @ err_msg err) err), w))
           else (Inl (wrap_err (''error listing v1 CRDs with query '' @ crdQueryText lib
                  @ '': '' @ err_msg err) err), w)))"

definition gvr_string :: "gvr \<Rightarrow> string" where
  "gvr_string g = r_group g @ ''/'' @ r_version g @ '', Resource='' @ r_resource g"

fun delete_children ::
  "('c, 't) template_api \<Rightarrow> gvr \<Rightarrow> string \<Rightarrow> string list \<Rightarrow> string list \<Rightarrow> 'c world
     \<Rightarrow> gerr list \<times> 'c world" where
  "delete_children api g resourceNs templateNames [] w = ([], w)"
| "delete_children api g resourceNs templateNames (tmpl # children) w =
     (if tmpl \<in> set templateNames then delete_children api g resourceNs templateNames children w
      else
        (case act (ObjectDelete g resourceNs tmpl) (tsDelete api g resourceNs tmpl) w of
           (err, w) \<Rightarrow>
             (case delete_children api g resourceNs templateNames children w of
                (errs, w) \<Rightarrow>
                  ((case err of
                      None \<Rightarrow> errs
                    | Some err \<Rightarrow>
                        wrap_err (''error deleting '' @ gvr_string g @ '' object '' @ tmpl @ '': ''
                          @ err_msg err) err # errs), w))))"

fun clean_gvrs ::
  "('c, 't) template_api \<Rightarrow> template_reconciler \<Rightarrow> policy \<Rightarrow> string list \<Rightarrow> gvr_scoped list
     \<Rightarrow> 'c world \<Rightarrow> gerr list \<times> 'c world" where
  "clean_gvrs api r inst templateNames [] w = ([], w)"
| "clean_gvrs api r inst templateNames (gs # gvrs) w =
     (let resourceNs = (if gs_namespaced gs then tr_clusterNamespace r else []) in
      case call (tsList api (gs_gvr gs) resourceNs (ParentPolicyLabel @ ''='' @ p_name inst)) w of
        (Inl err, w) \<Rightarrow>
          (case clean_gvrs api r inst templateNames gvrs w of
             (errs, w) \<Rightarrow>
               (wrap_err (''error listing '' @ gvr_string (gs_gvr gs) @ '' objects: '' @ err_msg err) err
                # errs, w))
      | (Inr children, w) \<Rightarrow>
          (case delete_children api (gs_gvr gs) resourceNs templateNames children w of
             (errs1, w) \<Rightarrow>
               (case clean_gvrs api r inst templateNames gvrs w of
                  (errs2, w) \<Rightarrow> (errs1 @ errs2, w))))"

definition cleanUpExcessTemplates ::
  "klib \<Rightarrow> ('c, 't) template_api \<Rightarrow> template_reconciler \<Rightarrow> policy \<Rightarrow> string list \<Rightarrow> bool option
     \<Rightarrow> 'c world \<Rightarrow> gerr option \<times> bool option \<times> 'c world" where
  "cleanUpExcessTemplates lib api r inst templateNames createdGk w =
     (case gatekeeper_gvrs api createdGk w of
        (gkGVRs, createdGk, w) \<Rightarrow>
          (case policy_type_gvrs lib api w of
             (Inl err, w) \<Rightarrow> (Some err, createdGk, w)
           | (Inr crdGVRs, w) \<Rightarrow>
               (case clean_gvrs api r inst templateNames (gkGVRs @ crdGVRs) w of
                  (errorList, w) \<Rightarrow> (Aggregate errorList, createdGk, w))))"

text \<open>The deletion of the cluster-scoped objects of a policy that is being deleted.\<close>

fun finalizer_loop ::
  "bool \<Rightarrow> klib \<Rightarrow> ('c, 't) template_api \<Rightarrow> policy \<Rightarrow> policy_template list \<Rightarrow> gerr list
     \<Rightarrow> 'c world \<Rightarrow> gerr list \<times> 'c world" where
  "finalizer_loop uninstalling lib api pol [] errorList w = (errorList, w)"
| "finalizer_loop uninstalling lib api pol (policyT # ts) errorList w =
     (case decodeTemplate lib (t_raw policyT) of
        Inl err \<Rightarrow>
          (let errorList = (if \<not> uninstalling
                 then errorList @ [wrap_err (''failed to decode policy template with error: ''
                   @ err_msg err) err]
                 else errorList)
           in finalizer_loop uninstalling lib api pol ts errorList (user_error pol [] ''format-error'' w))
      | Inr (None, _) \<Rightarrow> finalizer_loop uninstalling lib api pol ts errorList w
      | Inr (Some obj, k) \<Rightarrow>
          (let tName = u_name obj in
           case GVRFromGVK (tsDiscovery api) k w of
             (Inl err, w) \<Rightarrow>
               (if err_reason err = NoVersionedResource
                then finalizer_loop uninstalling lib api pol ts errorList w
                else finalizer_loop uninstalling lib api pol ts (errorList @ [err])
                       (system_error pol tName ''get-error'' w))
           | (Inr (rsrc, namespaced), w) \<Rightarrow>
               (if \<not> namespaced then
                  (case act (ObjectDelete rsrc [] tName) (tsDelete api rsrc [] tName) w of
                     (None, w) \<Rightarrow> finalizer_loop uninstalling lib api pol ts errorList w
                   | (Some err, w) \<Rightarrow>
                       (if \<not> IsNotFound err
                        then finalizer_loop uninstalling lib api pol ts
                               (errorList @ [wrap_err (''failed to delete '' @ g_kind k
                                  @ '' with error: '' @ err_msg err) err])
                               (system_error pol tName ''delete-error'' w)
                        else finalizer_loop uninstalling lib api pol ts errorList w))
                else finalizer_loop uninstalling lib api pol ts errorList w)))"

definition finalizerCleanup ::
  "bool \<Rightarrow> klib \<Rightarrow> ('c, 't) template_api \<Rightarrow> policy \<Rightarrow> 'c world \<Rightarrow> gerr option \<times> 'c world" where
  "finalizerCleanup uninstalling lib api pol w =
     (case finalizer_loop uninstalling lib api pol (sp_templates (p_spec pol)) [] w of
        (errorList, w) \<Rightarrow> (Aggregate errorList, w))"

section \<open>The loop over the templates\<close>

definition hubTmplErrorKey :: string where
  "hubTmplErrorKey = ''policy.open-cluster-management.io/hub-templates-error''"

definition is_gk_constraint_template :: "gvk \<Rightarrow> bool" where
  "is_gk_constraint_template k \<longleftrightarrow>
     g_group k = ConstraintTemplateGroup \<and> g_kind k = ConstraintTemplateKind"

definition is_gk_constraint :: "gvk \<Rightarrow> bool" where
  "is_gk_constraint k \<longleftrightarrow> g_group k = GConstraint"

definition is_gk_obj :: "gvk \<Rightarrow> bool" where
  "is_gk_obj k \<longleftrightarrow> is_gk_constraint_template k \<or> is_gk_constraint k"

text \<open>The variables that live across the passes of the loop.\<close>

record loop_state =
  ls_error :: "gerr option"
  ls_names :: "string list"
  ls_children :: "object_identifier list"
  ls_deps :: dep_map
  ls_finalizer :: bool
  ls_createdGk :: "bool option"

text \<open>The end of a pass: a \<^verbatim>\<open>return\<close> of the reconcile, or the next template.\<close>

datatype template_flow = TReturn reconcile_result | TNext

text \<open>One template that has passed the checks: its index, the decoded object, its kind and
  resource, the object to be synced and the unsatisfied dependencies.\<close>

record template_ctx =
  tm_index :: nat
  tm_meta :: unstr
  tm_gvk :: gvk
  tm_rsrc :: gvr
  tm_clusterScoped :: bool
  tm_ns :: string
  tm_object :: unstr
  tm_failures :: dep_map

definition tm_name :: "template_ctx \<Rightarrow> string" where
  "tm_name t = u_name (tm_meta t)"

definition conflict_error :: "dependency \<Rightarrow> gerr" where
  "conflict_error dep =
     GErr OtherReason (''dependency on '' @ dep_name dep @ '' has conflicting compliance states'')"

text \<open>The dependencies of the policy. The two maps of the code are filled alike, so they are
  one.\<close>

fun top_level_deps ::
  "template_reconciler \<Rightarrow> policy \<Rightarrow> dependency list \<Rightarrow> dep_map \<Rightarrow> 'c world \<Rightarrow> dep_map \<times> 'c world" where
  "top_level_deps r inst [] m w = (m, w)"
| "top_level_deps r inst (dep # deps) m w =
     (if map_of m (dep_id r dep) \<notin> {None, Some (dep_compliance dep)}
      then top_level_deps r inst deps m (user_error inst [] ''dependency-error'' w)
      else top_level_deps r inst deps (AList.update (dep_id r dep) (dep_compliance dep) m) w)"

definition template_label :: "nat \<Rightarrow> string" where
  "template_label tIndex = ''template-'' @ fmt_d (int tIndex)"

text \<open>The dependencies of a template: the conflict if there is one, all dependencies so far,
  and those of this template.\<close>

fun extra_deps ::
  "klib \<Rightarrow> ('c, 't) template_api \<Rightarrow> template_reconciler \<Rightarrow> policy \<Rightarrow> nat \<Rightarrow> bool \<Rightarrow> dependency list
     \<Rightarrow> dep_map \<Rightarrow> dep_map \<Rightarrow> 'c world \<Rightarrow> gerr option \<times> dep_map \<times> dep_map \<times> 'c world" where
  "extra_deps lib api r inst tIndex clusterScoped [] allDeps templateDeps w =
     (None, allDeps, templateDeps, w)"
| "extra_deps lib api r inst tIndex clusterScoped (dep # deps) allDeps templateDeps w =
     (if map_of templateDeps (dep_id r dep) \<notin> {None, Some (dep_compliance dep)}
      then
        (let w = emitTemplateError lib api r inst tIndex (template_label tIndex) clusterScoped
               (''Failed to decode policy template with err: '' @ err_msg (conflict_error dep)) w
         in (Some (conflict_error dep), allDeps, templateDeps,
             user_error inst [] ''dependency-error'' w))
      else extra_deps lib api r inst tIndex clusterScoped deps
             (AList.update (dep_id r dep) (dep_compliance dep) allDeps)
             (AList.update (dep_id r dep) (dep_compliance dep) templateDeps) w)"

text \<open>A cluster-scoped object needs the finalizer, one of Gatekeeper also the flag.\<close>

definition mark_clusterwide :: "template_ctx \<Rightarrow> loop_state \<Rightarrow> loop_state" where
  "mark_clusterwide t ls =
     (if tm_clusterScoped t
      then (let ls = ls\<lparr>ls_finalizer := True\<rparr>
            in if is_gk_obj (tm_gvk t) then ls\<lparr>ls_createdGk := Some True\<rparr> else ls)
      else ls)"

definition note_error :: "gerr option \<Rightarrow> loop_state \<Rightarrow> loop_state" where
  "note_error err ls = (case err of None \<Rightarrow> ls | Some e \<Rightarrow> ls\<lparr>ls_error := Some e\<rparr>)"

text \<open>The common end of a successful create or update: the event for a constraint template,
  which has no status of its own, and the reset of the status.\<close>

definition report_synced ::
  "klib \<Rightarrow> ('c, 't) template_api \<Rightarrow> template_reconciler \<Rightarrow> policy \<Rightarrow> template_ctx \<Rightarrow> string
     \<Rightarrow> string \<Rightarrow> unstr \<Rightarrow> loop_state \<Rightarrow> 'c world \<Rightarrow> loop_state \<times> 'c world" where
  "report_synced lib api r inst t what successMsg eObject ls w =
     (let ls = mark_clusterwide t ls in
      case (if tm_clusterScoped t \<and> is_gk_constraint_template (tm_gvk t)
            then emitTemplateSuccess lib api r inst (tm_index t) (tm_name t) (tm_clusterScoped t)
                   (g_kind (tm_gvk t) @ '' '' @ tm_name t @ '' was '' @ what @ '' successfully'') w
            else (None, w)) of
        (emitErr, w) \<Rightarrow>
          (case handleSyncSuccess lib api inst (tm_index t) (tm_name t) successMsg (tm_rsrc t)
                  (tm_ns t) (g_group (tm_gvk t)) eObject w of
             (None, w) \<Rightarrow> (note_error emitErr ls, w)
           | (Some err, w) \<Rightarrow>
               (note_error (Some err) (note_error emitErr ls),
                system_error inst (tm_name t) ''patch-error'' w)))"

definition dquote :: string where
  "dquote = [char_of (34 :: nat)]"

definition multi_template_suffix :: string where
  "multi_template_suffix = ''spec'' @ dquote
     @ '' must validate one and only one schema (oneOf). Found 2 valid alternatives''"

definition create_error :: "string \<Rightarrow> gerr \<Rightarrow> gerr" where
  "create_error tName err =
     (if HasSuffix (err_msg err) multi_template_suffix
      then GErr OtherReason (''ConfigurationPolicy.policy.open-cluster-management.io '' @ dquote @ tName
        @ dquote @ '' is invalid: spec may only contain one of object-templates and object-templates-raw'')
      else err)"

definition object_to_create :: "klib \<Rightarrow> template_reconciler \<Rightarrow> policy \<Rightarrow> template_ctx \<Rightarrow> unstr" where
  "object_to_create lib r inst t =
     (let obj = tm_object t;
          obj = (if \<not> tm_clusterScoped t then obj\<lparr>u_owners := [newControllerRef lib inst]\<rparr> else obj);
          obj = obj\<lparr>u_labels := setDefaultTemplateLabels r inst (u_labels obj)\<rparr>;
          obj = overrideRemediationAction inst obj
      in obj\<lparr>u_namespace := tm_ns t\<rparr>)"

definition hub_template_error :: "template_ctx \<Rightarrow> string" where
  "hub_template_error t = lookup_str (map_of (u_annotations (tm_meta t))) hubTmplErrorKey"

text \<open>The object of the template does not exist.\<close>

definition create_template ::
  "klib \<Rightarrow> ('c, 't) template_api \<Rightarrow> template_reconciler \<Rightarrow> policy \<Rightarrow> template_ctx \<Rightarrow> loop_state
     \<Rightarrow> 'c world \<Rightarrow> template_flow \<times> loop_state \<times> 'c world" where
  "create_template lib api r inst t ls w =
     (let i = tm_index t; tName = tm_name t; cs = tm_clusterScoped t in
      if length (tm_failures t) > 0 then
        (case emitTemplatePending lib api r inst i tName cs (generatePendingMsg (tm_failures t)) w of
           (emitErr, w) \<Rightarrow> (TNext, note_error emitErr ls, w))
      else if hub_template_error t \<noteq> [] then
        (TNext, ls, user_error inst tName ''format-error''
           (emitTemplateError lib api r inst i tName cs (hub_template_error t) w))
      else
        (let obj = object_to_create lib r inst t
         in case act (ObjectCreate (tm_rsrc t) (tm_ns t) obj)
                   (tsCreate api (tm_rsrc t) (tm_ns t) obj) w of
              (Inl err, w) \<Rightarrow>
                (let err = create_error tName err;
                     w = emitTemplateError lib api r inst i tName cs
                           (''Failed to create policy template: '' @ err_msg err) w
                 in if IsInvalid err then (TNext, ls, user_error inst tName ''format-error'' w)
                    else (TNext, note_error (Some err) ls, system_error inst tName ''create-error'' w))
            | (Inr eObject, w) \<Rightarrow>
                (case (if is_gk_constraint_template (tm_gvk t)
                       then emitGKConstraintTemplateErrMsg lib api r obj (tm_rsrc t) (tm_ns t) inst i tName w
                       else (Inr False, w)) of
                   (Inl err, w) \<Rightarrow> (TReturn (Failed err), ls, w)
                 | (Inr sentMsg, w) \<Rightarrow>
                     (if sentMsg then (TNext, ls, w)
                      else (case report_synced lib api r inst t ''created''
                                   (''Policy template '' @ tName @ '' created successfully'') eObject ls w of
                              (ls, w) \<Rightarrow> (TNext, ls, w))))))"

definition prune_patch :: string where
  "prune_patch =
     ''[{'' @ quote ''op'' @ '':'' @ quote ''replace'' @ '','' @ quote ''path'' @ '':''
     @ quote ''/spec/pruneObjectBehavior'' @ '','' @ quote ''value'' @ '':'' @ quote ''None'' @ ''}]''"

text \<open>Deleting the object of a template that must not be on the cluster.\<close>

definition delete_template ::
  "('c, 't) template_api \<Rightarrow> policy \<Rightarrow> template_ctx \<Rightarrow> loop_state \<Rightarrow> 'c world
     \<Rightarrow> loop_state \<times> 'c world" where
  "delete_template api inst t ls w =
     (case act (ObjectDelete (tm_rsrc t) (tm_ns t) (tm_name t))
             (tsDelete api (tm_rsrc t) (tm_ns t) (tm_name t)) w of
        (None, w) \<Rightarrow> (ls, w)
      | (Some err, w) \<Rightarrow>
          (note_error (Some err) ls, system_error inst (tm_name t) ''delete-error'' w))"

text \<open>A dependency is not satisfied. When the event cannot be sent the code assigns the variable
  that holds the result of the earlier successful read, so the stored error becomes \<^verbatim>\<open>nil\<close>.\<close>

definition pending_template ::
  "klib \<Rightarrow> ('c, 't) template_api \<Rightarrow> template_reconciler \<Rightarrow> policy \<Rightarrow> template_ctx \<Rightarrow> loop_state
     \<Rightarrow> 'c world \<Rightarrow> loop_state \<times> 'c world" where
  "pending_template lib api r inst t ls w =
     (case emitTemplatePending lib api r inst (tm_index t) (tm_name t) (tm_clusterScoped t)
             (generatePendingMsg (tm_failures t)) w of
        (emitErr, w) \<Rightarrow>
          (let ls = (if emitErr \<noteq> None then ls\<lparr>ls_error := None\<rparr> else ls)
           in delete_template api inst t ls w))"

text \<open>The hub could not resolve its templates in the object.\<close>

definition hub_error_template ::
  "klib \<Rightarrow> ('c, 't) template_api \<Rightarrow> template_reconciler \<Rightarrow> policy \<Rightarrow> template_ctx \<Rightarrow> loop_state
     \<Rightarrow> 'c world \<Rightarrow> loop_state \<times> 'c world" where
  "hub_error_template lib api r inst t ls w =
     (let w = emitTemplateError lib api r inst (tm_index t) (tm_name t) (tm_clusterScoped t)
            (hub_template_error t) w;
          w = user_error inst (tm_name t) ''format-error'' w
      in if r_resource (tm_rsrc t) = ''configurationpolicies''
         then (case act (ObjectPatch (tm_rsrc t) (tm_ns t) (tm_name t) prune_patch [])
                      (tsPatch api (tm_rsrc t) (tm_ns t) (tm_name t) prune_patch []) w of
                 (Some err, w) \<Rightarrow> (note_error (Some err) ls, w)
               | (None, w) \<Rightarrow> delete_template api inst t ls w)
         else delete_template api inst t ls w)"

text \<open>The owner references that the object should have, and the name of the policy that the
  existing object belongs to (empty when it belongs to none).\<close>

definition owner_of ::
  "klib \<Rightarrow> policy \<Rightarrow> template_ctx \<Rightarrow> unstr \<Rightarrow> owner_ref list \<times> string" where
  "owner_of lib inst t eObject =
     (let refName = (case u_owners eObject of [] \<Rightarrow> [] | ownerref # _ \<Rightarrow> or_name ownerref);
          parentPolicy = lookup_str (map_of (u_labels eObject)) ParentPolicyLabel
      in if \<not> tm_clusterScoped t \<and> refName = [] \<and> parentPolicy = p_name inst
         then ([newControllerRef lib inst], p_name inst)
         else (u_owners eObject, if refName = [] then parentPolicy else refName))"

definition not_unique_message :: "unstr \<Rightarrow> string \<Rightarrow> string \<Rightarrow> string" where
  "not_unique_message tObject tName refName =
     ''Template name must be unique. Policy template with kind: '' @ g_kind (u_gvk tObject)
     @ '' name: '' @ tName
     @ (if refName = [] then '' already exists outside of a Policy''
        else '' already exists in policy '' @ refName)"

definition wanted_object ::
  "('c, 't) template_api \<Rightarrow> template_reconciler \<Rightarrow> policy \<Rightarrow> template_ctx \<Rightarrow> owner_ref list \<Rightarrow> unstr" where
  "wanted_object api r inst t owners =
     (let obj = (tm_object t)\<lparr>u_owners := owners\<rparr>;
          obj = (if is_gk_constraint_template (tm_gvk t)
                 then fst (ApplyObjectDefaults (tsScheme api) obj) else obj);
          obj = obj\<lparr>u_labels := setDefaultTemplateLabels r inst (u_labels obj)\<rparr>
      in overrideRemediationAction inst obj)"

definition updated_object :: "unstr \<Rightarrow> unstr \<Rightarrow> unstr" where
  "updated_object eObject tObject =
     eObject\<lparr>u_content := jput ''spec'' (field tObject ''spec'') (u_content eObject),
       u_annotations := u_annotations tObject, u_labels := u_labels tObject,
       u_owners := u_owners tObject\<rparr>"

definition update_template ::
  "klib \<Rightarrow> ('c, 't) template_api \<Rightarrow> template_reconciler \<Rightarrow> policy \<Rightarrow> template_ctx \<Rightarrow> unstr \<Rightarrow> unstr
     \<Rightarrow> loop_state \<Rightarrow> 'c world \<Rightarrow> template_flow \<times> loop_state \<times> 'c world" where
  "update_template lib api r inst t eObject tObject ls w =
     (let tName = tm_name t; eObject = updated_object eObject tObject
      in case act (ObjectUpdate (tm_rsrc t) (tm_ns t) eObject)
                (tsUpdate api (tm_rsrc t) (tm_ns t) eObject) w of
           (Inl err, w) \<Rightarrow>
             (if IsConflict err then (TReturn (Failed err), ls, w)
              else
                (let w = emitTemplateError lib api r inst (tm_index t) tName (tm_clusterScoped t)
                       (''Failed to update policy template '' @ tName @ '': '' @ err_msg err) w
                 in if IsInvalid err then (TNext, ls, user_error inst tName ''format-error'' w)
                    else (TNext, note_error (Some err) ls, system_error inst tName ''patch-error'' w)))
         | (Inr updatedObj, w) \<Rightarrow>
             (if u_resourceVersion updatedObj \<noteq> u_resourceVersion eObject
              then (case report_synced lib api r inst t ''updated''
                           (''Policy template '' @ tName @ '' was updated successfully'') eObject ls w of
                      (ls, w) \<Rightarrow> (TNext, mark_clusterwide t ls, w))
              else (TNext, mark_clusterwide t ls, w)))"

text \<open>The rest of the pass for an object that exists.\<close>

text \<open>The object agrees with the template.\<close>

definition confirm_template ::
  "klib \<Rightarrow> ('c, 't) template_api \<Rightarrow> policy \<Rightarrow> template_ctx \<Rightarrow> unstr \<Rightarrow> loop_state \<Rightarrow> 'c world
     \<Rightarrow> loop_state \<times> 'c world" where
  "confirm_template lib api inst t eObject ls w =
     (case handleSyncSuccess lib api inst (tm_index t) (tm_name t) [] (tm_rsrc t) (tm_ns t)
             (g_group (tm_gvk t)) eObject w of
        (None, w) \<Rightarrow> (ls, w)
      | (Some err, w) \<Rightarrow>
          (note_error (Some err) ls, system_error inst (tm_name t) ''patch-error'' w))"

definition sync_existing ::
  "klib \<Rightarrow> ('c, 't) template_api \<Rightarrow> template_reconciler \<Rightarrow> policy \<Rightarrow> template_ctx \<Rightarrow> unstr
     \<Rightarrow> loop_state \<Rightarrow> 'c world \<Rightarrow> template_flow \<times> loop_state \<times> 'c world" where
  "sync_existing lib api r inst t eObject ls w =
     (let i = tm_index t; tName = tm_name t; cs = tm_clusterScoped t in
      if length (tm_failures t) > 0 then
        (case pending_template lib api r inst t ls w of (ls, w) \<Rightarrow> (TNext, ls, w))
      else if hub_template_error t \<noteq> [] then
        (case hub_error_template lib api r inst t ls w of (ls, w) \<Rightarrow> (TNext, ls, w))
      else
        (case owner_of lib inst t eObject of
           (owners, refName) \<Rightarrow>
             if p_name inst \<noteq> refName then
               (let errMsg = not_unique_message (tm_object t) tName refName
                in (TNext, note_error (Some (GErr OtherReason errMsg)) ls,
                    user_error inst tName ''format-error''
                      (emitTemplateError lib api r inst i tName cs errMsg w)))
             else
               (case equivalentTemplates lib eObject (wanted_object api r inst t owners) of
                  (False, tObject) \<Rightarrow> update_template lib api r inst t eObject tObject ls w
                | (True, _) \<Rightarrow>
                    (case confirm_template lib api inst t eObject ls w of
                       (ls, w) \<Rightarrow> (TNext, mark_clusterwide t ls, w)))))"

definition existing_template ::
  "klib \<Rightarrow> ('c, 't) template_api \<Rightarrow> template_reconciler \<Rightarrow> policy \<Rightarrow> template_ctx \<Rightarrow> unstr
     \<Rightarrow> loop_state \<Rightarrow> 'c world \<Rightarrow> template_flow \<times> loop_state \<times> 'c world" where
  "existing_template lib api r inst t eObject ls w =
     (if is_gk_constraint_template (tm_gvk t) then
        (case emitGKConstraintTemplateErrMsg lib api r (tm_object t) (tm_rsrc t) (tm_ns t) inst
                (tm_index t) (tm_name t) w of
           (Inl err, w) \<Rightarrow> (TReturn (Failed err), ls, w)
         | (Inr sentErrMsg, w) \<Rightarrow>
             (case (if \<not> sentErrMsg
                    then emitTemplateSuccess lib api r inst (tm_index t) (tm_name t) (tm_clusterScoped t)
                           (g_kind (tm_gvk t) @ '' '' @ tm_name t @ '' was created successfully'') w
                    else (None, w)) of
                (emitErr, w) \<Rightarrow> sync_existing lib api r inst t eObject (note_error emitErr ls) w))
      else sync_existing lib api r inst t eObject ls w)"

section \<open>One pass of the loop\<close>

definition no_mapping_message :: "template_reconciler \<Rightarrow> gvk \<Rightarrow> gerr \<Rightarrow> string" where
  "no_mapping_message r k err =
     (if is_gk_obj k \<and> tr_disableGkSync r
      then ''A Gatekeeper policy-template was provided, but the Gatekeeper integration is disabled''
      else if is_gk_constraint_template k then ''Mapping not found, check if Gatekeeper is installed''
      else if is_gk_constraint k
      then ''Mapping not found, check if the required ConstraintTemplate has been deployed''
      else ''Mapping not found, check if you have the CRD deployed'') @ '': '' @ err_msg err"

definition unsupported_message :: "template_reconciler \<Rightarrow> gvk \<Rightarrow> string" where
  "unsupported_message r k =
     (if tr_disableGkSync r \<and> is_gk_obj k
      then ''not syncing kind '' @ gvk_string k @ '' because the Gatekeeper integration is disabled''
      else ''policy-template kind is not supported: '' @ gvk_string k)"

text \<open>Another error than "not found" of reading the object of a template.\<close>

definition get_failed ::
  "klib \<Rightarrow> ('c, 't) template_api \<Rightarrow> template_reconciler \<Rightarrow> policy \<Rightarrow> template_ctx \<Rightarrow> gerr
     \<Rightarrow> loop_state \<Rightarrow> 'c world \<Rightarrow> template_flow \<times> loop_state \<times> 'c world" where
  "get_failed lib api r inst t err ls w =
     (let ls = note_error (Some err) ls
      in if err_reason err = Canceled
         then (TReturn (Failed (wrap_err
                 (''failed to get the object in the policy template: '' @ err_msg err) err)), ls, w)
         else (TNext, ls, system_error inst (tm_name t) ''get-error''
                 (emitTemplateError lib api r inst (tm_index t) (tm_name t) (tm_clusterScoped t)
                    (''Failed to get the object in the policy template: '' @ err_msg err) w)))"

text \<open>From the mapped resource on: read the object and create or sync it.\<close>

definition sync_template ::
  "klib \<Rightarrow> ('c, 't) template_api \<Rightarrow> template_reconciler \<Rightarrow> policy \<Rightarrow> nat \<Rightarrow> policy_template \<Rightarrow> unstr
     \<Rightarrow> gvk \<Rightarrow> gvr \<Rightarrow> bool \<Rightarrow> dep_map \<Rightarrow> loop_state \<Rightarrow> 'c world
     \<Rightarrow> template_flow \<times> loop_state \<times> 'c world" where
  "sync_template lib api r inst i policyT meta k rsrc clusterScoped failures ls w =
     (let tName = u_name meta;
          resourceNs = (if \<not> clusterScoped then p_namespace inst else [])
      in case unmarshalObject lib (t_raw policyT) of
           Inl err \<Rightarrow>
             (TNext, note_error (Some err) ls, system_error inst tName ''unmarshal-error''
                (emitTemplateError lib api r inst i tName clusterScoped
                   (''Failed to unmarshal the policy template: '' @ err_msg err) w))
         | Inr tObject \<Rightarrow>
             (let ls = ls\<lparr>ls_children := ls_children ls @
                    [\<lparr>oi_group = g_group k, oi_version = g_version k, oi_kind = g_kind k,
                      oi_namespace = resourceNs, oi_name = tName\<rparr>]\<rparr>;
                  t = \<lparr>tm_index = i, tm_meta = meta, tm_gvk = k, tm_rsrc = rsrc,
                       tm_clusterScoped = clusterScoped, tm_ns = resourceNs, tm_object = tObject,
                       tm_failures = failures\<rparr>
              in case call (tsGet api rsrc resourceNs tName) w of
                   (Inr eObject, w) \<Rightarrow> existing_template lib api r inst t eObject ls w
                 | (Inl err, w) \<Rightarrow>
                     (if IsNotFound err then create_template lib api r inst t ls w
                      else get_failed lib api r inst t err ls w)))"

text \<open>From a decoded and named object on: find its resource and check that it may be synced.\<close>

definition map_template ::
  "klib \<Rightarrow> ('c, 't) template_api \<Rightarrow> template_reconciler \<Rightarrow> namespaced_name \<Rightarrow> policy \<Rightarrow> nat
     \<Rightarrow> policy_template \<Rightarrow> unstr \<Rightarrow> gvk \<Rightarrow> dep_map \<Rightarrow> loop_state \<Rightarrow> 'c world
     \<Rightarrow> template_flow \<times> loop_state \<times> 'c world" where
  "map_template lib api r request inst i policyT meta k templateDeps ls w =
     (let tName = u_name meta; ls = ls\<lparr>ls_names := ls_names ls @ [tName]\<rparr> in
      case GVRFromGVK (tsDiscovery api) k w of
        (Inl err, w) \<Rightarrow>
          (if err_reason err = NoVersionedResource
           then (TNext, note_error (Some err) ls, user_error inst tName ''crd-error''
                   (emitTemplateError lib api r inst i tName (is_gk_obj k) (no_mapping_message r k err) w))
           else (TReturn (Failed err), ls, system_error inst [] ''get-error'' w))
      | (Inr (rsrc, namespaced), w) \<Rightarrow>
          (case hasPolicyTemplateLabel api rsrc w of
             (Inl err, w) \<Rightarrow>
               (TReturn (Failed err), ls,
                emit (CounterInc SystemErrors (nn_name request) tName ''get-error'') w)
           | (Inr hasTemplateLabel, w) \<Rightarrow>
               (if \<not> hasTemplateLabel \<and> \<not> IsAllowedPolicy (g_group k) (g_kind k)
                   \<or> is_gk_obj k \<and> tr_disableGkSync r
                then
                  (let errMsg = unsupported_message r k
                   in (TNext, note_error (Some (GErr OtherReason errMsg)) ls,
                       user_error inst tName ''crd-error''
                         (emitTemplateError lib api r inst i tName (\<not> namespaced) errMsg w)))
                else
                  (case processDependencies lib api templateDeps w of
                     (failures, w) \<Rightarrow>
                       sync_template lib api r inst i policyT meta k rsrc (\<not> namespaced) failures ls w))))"

definition template_step ::
  "klib \<Rightarrow> ('c, 't) template_api \<Rightarrow> template_reconciler \<Rightarrow> namespaced_name \<Rightarrow> policy \<Rightarrow> dep_map \<Rightarrow> nat
     \<Rightarrow> policy_template \<Rightarrow> loop_state \<Rightarrow> 'c world \<Rightarrow> template_flow \<times> loop_state \<times> 'c world" where
  "template_step lib api r request inst topLevelDeps i policyT ls w =
     (case decodeTemplate lib (t_raw policyT) of
        Inl err \<Rightarrow>
          (TNext, if err_reason err \<noteq> MissingKind then note_error (Some err) ls else ls,
           user_error inst [] ''format-error''
             (emitTemplateError lib api r inst i (template_label i) False
                (''Failed to decode policy template with err: '' @ err_msg err) w))
      | Inr (object, k) \<Rightarrow>
          (case extra_deps lib api r inst i (is_gk_obj k) (t_extraDependencies policyT) (ls_deps ls)
                  topLevelDeps w of
             (Some err, allDeps, _, w) \<Rightarrow> (TNext, note_error (Some err) (ls\<lparr>ls_deps := allDeps\<rparr>), w)
           | (None, allDeps, templateDeps, w) \<Rightarrow>
               (let ls = ls\<lparr>ls_deps := allDeps\<rparr> in
                case object of
                  None \<Rightarrow> (TReturn Panicked, ls, w)
                | Some meta \<Rightarrow>
                    (if u_name meta = [] then
                       (let errMsg = ''Failed to parse or get name from policy template at index ''
                              @ fmt_d (int i)
                        in (TNext, note_error (Some (GErr OtherReason errMsg)) ls,
                            user_error inst [] ''format-error''
                              (emitTemplateError lib api r inst i (template_label i) (is_gk_obj k) errMsg w)))
                     else map_template lib api r request inst i policyT meta k templateDeps ls w))))"

fun templates_loop ::
  "klib \<Rightarrow> ('c, 't) template_api \<Rightarrow> template_reconciler \<Rightarrow> namespaced_name \<Rightarrow> policy \<Rightarrow> dep_map \<Rightarrow> nat
     \<Rightarrow> policy_template list \<Rightarrow> loop_state \<Rightarrow> 'c world \<Rightarrow> template_flow \<times> loop_state \<times> 'c world" where
  "templates_loop lib api r request inst topLevelDeps i [] ls w = (TNext, ls, w)"
| "templates_loop lib api r request inst topLevelDeps i (policyT # ts) ls w =
     (case template_step lib api r request inst topLevelDeps i policyT ls w of
        (TReturn result, ls, w) \<Rightarrow> (TReturn result, ls, w)
      | (TNext, ls, w) \<Rightarrow> templates_loop lib api r request inst topLevelDeps (Suc i) ts ls w)"

lemma templates_loop_append:
  "templates_loop lib api r request inst deps i earlier ls w = (TNext, ls1, w1) \<Longrightarrow>
     templates_loop lib api r request inst deps i (earlier @ ts) ls w =
       templates_loop lib api r request inst deps (i + length earlier) ts ls1 w1"
  by (induction earlier arbitrary: i ls w) (auto split: prod.splits template_flow.splits)

section \<open>The reconcile\<close>

definition policy_object_id :: "namespaced_name \<Rightarrow> object_identifier" where
  "policy_object_id request =
     \<lparr>oi_group = APIGroup, oi_version = APIVersion, oi_kind = ''Policy'',
      oi_namespace = nn_namespace request, oi_name = nn_name request\<rparr>"

text \<open>The policy does not exist any more: its metrics and its watches go.\<close>

definition forget_policy ::
  "('c, 't) template_api \<Rightarrow> namespaced_name \<Rightarrow> 'c world \<Rightarrow> 'c world" where
  "forget_policy api request w =
     (let w = emit (CountersDelete UserErrors (nn_name request)) w;
          w = emit (CountersDelete SystemErrors (nn_name request)) w;
          pid = policy_object_id request
      in snd (act (WatchRemove pid) (wRemove (tsWatcher api) pid) w))"

definition update_policy ::
  "('c, 't) template_api \<Rightarrow> policy \<Rightarrow> 'c world \<Rightarrow> gerr option \<times> 'c world" where
  "update_policy api inst w =
     (case act (PolicyUpdate Managed inst) (polUpdate (tsPolicies api) Managed inst) w of
        (Inl err, w) \<Rightarrow> (Some err, w)
      | (Inr _, w) \<Rightarrow> (None, w))"

text \<open>A policy without templates needs no finalizer.\<close>

definition empty_policy ::
  "('c, 't) template_api \<Rightarrow> policy \<Rightarrow> 'c world \<Rightarrow> reconcile_result \<times> 'c world" where
  "empty_policy api inst w =
     (if hasClusterwideFinalizer inst
      then (case update_policy api (removeFinalizer inst ClusterwideFinalizer) w of
              (Some err, w) \<Rightarrow> (Failed err, w)
            | (None, w) \<Rightarrow> (Done, w))
      else (Done, w))"

text \<open>Two templates of a policy have the same name: every template is reported.\<close>

fun report_duplicates ::
  "klib \<Rightarrow> ('c, 't) template_api \<Rightarrow> template_reconciler \<Rightarrow> policy \<Rightarrow> string \<Rightarrow> nat list
     \<Rightarrow> 'c world \<Rightarrow> 'c world" where
  "report_duplicates lib api r inst dupName [] w = w"
| "report_duplicates lib api r inst dupName (tIndex # is) w =
     report_duplicates lib api r inst dupName is
       (emitTemplateError lib api r inst tIndex dupName False
          ''All policy-template names must be unique within a policy'' w)"

text \<open>The policy is being deleted.\<close>

definition delete_policy ::
  "bool \<Rightarrow> klib \<Rightarrow> ('c, 't) template_api \<Rightarrow> policy \<Rightarrow> 'c world \<Rightarrow> reconcile_result \<times> 'c world" where
  "delete_policy uninstalling lib api inst w =
     (if \<not> hasClusterwideFinalizer inst then (Done, w)
      else
        (case finalizerCleanup uninstalling lib api inst w of
           (Some err, w) \<Rightarrow> (Failed err, w)
         | (None, w) \<Rightarrow>
             (case update_policy api (removeFinalizer inst ClusterwideFinalizer) w of
                (Some err, w) \<Rightarrow> (Failed err, system_error inst [] ''patch-error'' w)
              | (None, w) \<Rightarrow> (Done, w))))"

text \<open>The watches on the dependencies and on the objects of the templates.\<close>

definition watch_objects ::
  "('c, 't) template_api \<Rightarrow> namespaced_name \<Rightarrow> policy \<Rightarrow> loop_state \<Rightarrow> 'c world
     \<Rightarrow> loop_state \<times> 'c world" where
  "watch_objects api request inst ls w =
     (let pid = policy_object_id request;
          objectsToWatch = set (map fst (ls_deps ls)) \<union> set (ls_children ls)
      in case (if length (ls_deps ls) \<noteq> 0 \<or> length (ls_children ls) \<noteq> 0
               then act (WatchSet pid objectsToWatch) (wSet (tsWatcher api) pid objectsToWatch) w
               else act (WatchRemove pid) (wRemove (tsWatcher api) pid) w) of
           (None, w) \<Rightarrow> (ls, w)
         | (Some err, w) \<Rightarrow>
             (note_error (Some err) ls,
              if IsNotFound err then user_error inst [] ''crd-error'' w
              else system_error inst [] ''client-error'' w))"

definition settle_finalizer ::
  "('c, 't) template_api \<Rightarrow> policy \<Rightarrow> loop_state \<Rightarrow> 'c world \<Rightarrow> loop_state \<times> 'c world" where
  "settle_finalizer api inst ls w =
     (if \<not> hasClusterwideFinalizer inst then
        (if ls_finalizer ls
         then (case update_policy api
                     (inst\<lparr>p_finalizers := p_finalizers inst @ [ClusterwideFinalizer]\<rparr>) w of
                 (err, w) \<Rightarrow> (note_error err ls, w))
         else (ls, w))
      else if \<not> ls_finalizer ls
      then (case update_policy api (removeFinalizer inst ClusterwideFinalizer) w of
              (err, w) \<Rightarrow> (note_error err ls, w))
      else (ls, w))"

definition loop_start :: "dep_map \<Rightarrow> bool option \<Rightarrow> loop_state" where
  "loop_start deps createdGk =
     \<lparr>ls_error = None, ls_names = [], ls_children = [], ls_deps = deps, ls_finalizer = False,
      ls_createdGk = createdGk\<rparr>"

definition result_of :: "loop_state \<Rightarrow> reconcile_result" where
  "result_of ls = (case ls_error ls of None \<Rightarrow> Done | Some err \<Rightarrow> Failed err)"

text \<open>A policy with templates that is neither being deleted nor paused.\<close>

definition sync_policy ::
  "klib \<Rightarrow> ('c, 't) template_api \<Rightarrow> template_reconciler \<Rightarrow> namespaced_name \<Rightarrow> policy \<Rightarrow> bool option
     \<Rightarrow> 'c world \<Rightarrow> reconcile_result \<times> bool option \<times> 'c world" where
  "sync_policy lib api r request inst createdGk w =
     (case top_level_deps r inst (sp_dependencies (p_spec inst)) [] w of
        (topLevelDeps, w) \<Rightarrow>
          (case templates_loop lib api r request inst topLevelDeps 0 (sp_templates (p_spec inst))
                  (loop_start topLevelDeps createdGk) w of
             (TReturn res, ls, w) \<Rightarrow> (res, ls_createdGk ls, w)
           | (TNext, ls, w) \<Rightarrow>
               (case watch_objects api request inst ls w of
                  (ls, w) \<Rightarrow>
                    (case cleanUpExcessTemplates lib api r inst (ls_names ls) (ls_createdGk ls) w of
                       (err, createdGk, w) \<Rightarrow>
                         (case settle_finalizer api inst (note_error err (ls\<lparr>ls_createdGk := createdGk\<rparr>)) w of
                            (ls, w) \<Rightarrow> (result_of ls, ls_createdGk ls, w))))))"

definition Reconcile_template ::
  "bool \<Rightarrow> klib \<Rightarrow> ('c, 't) template_api \<Rightarrow> template_reconciler \<Rightarrow> namespaced_name \<Rightarrow> bool option
     \<Rightarrow> 'c world \<Rightarrow> reconcile_result \<times> bool option \<times> 'c world" where
  "Reconcile_template uninstalling lib api r request createdGk w =
     (case call (polGet (tsPolicies api) Managed request) w of
        (Inl err, w) \<Rightarrow>
          (if IsNotFound err then (Done, createdGk, forget_policy api request w)
           else (Failed err, createdGk,
                 emit (CounterInc SystemErrors (nn_name request) [] ''get-error'') w))
      | (Inr inst, w) \<Rightarrow>
          (if length (sp_templates (p_spec inst)) > 0 then
             (case call (tsNewClient api) w of
                (Some err, w) \<Rightarrow> (Failed err, createdGk, system_error inst [] ''client-error'' w)
              | (None, w) \<Rightarrow>
                  (let dupName = getDupName lib inst in
                   if dupName \<noteq> [] then
                     (Done, createdGk,
                      report_duplicates lib api r inst dupName
                        [0..<length (sp_templates (p_spec inst))] w)
                   else if p_deleting inst
                   then (case delete_policy uninstalling lib api inst w of
                           (res, w) \<Rightarrow> (res, createdGk, w))
                   else if uninstalling then (RequeueAfter 300, createdGk, w)
                   else sync_policy lib api r request inst createdGk w))
           else (case empty_policy api inst w of (res, w) \<Rightarrow> (res, createdGk, w))))"

end
