(* ===== verification/Uninstall.thy ===== *)
theory Uninstall
  imports PolicyStore "HOL-Library.Word"
begin

text \<open>
  The uninstallation, \<^verbatim>\<open>controllers/uninstall\<close>: the command that annotates the deployment and
  deletes every policy (\<^verbatim>\<open>triggeruninstall.go\<close>), and the watcher that turns the annotation into
  the global flag that pauses the controllers (\<^verbatim>\<open>watcher.go\<close>).

  The two loops of the command retry until the context is done, so they are partial functions
  whose absent value is "never returns". That they return is proved from the one thing the
  code relies on for it: time passes with every call, and the context is done after its
  timeout.
\<close>

section \<open>Data\<close>

definition AnnotationKey :: string where
  "AnnotationKey = ''policy.open-cluster-management.io/uninstalling''"

text \<open>The four package variables that the flags set.\<close>

record uninstall_flags =
  uf_deploymentName :: string
  uf_deploymentNamespace :: string
  uf_policyNamespace :: string
  uf_timeoutSeconds :: "32 word"

text \<open>The annotations of a deployment are absent when the map is \<^verbatim>\<open>nil\<close>; writing into it
  panics, reading from it gives the empty string.\<close>

record deployment =
  dp_annotations :: "(string \<rightharpoonup> string) option"

text \<open>The clients of the command; \<open>ctxDone\<close> reads whether the context is done, and \<open>sleep\<close> lets
  seconds pass. The list of policies is the list of their names.\<close>

record 'c uninstall_api =
  depGet :: "namespaced_name \<Rightarrow> 'c \<Rightarrow> (gerr + deployment) \<times> 'c"
  depUpdate :: "namespaced_name \<Rightarrow> deployment \<Rightarrow> 'c \<Rightarrow> gerr option \<times> 'c"
  polList :: "string \<Rightarrow> 'c \<Rightarrow> (gerr + string list) \<times> 'c"
  polDeleteCollection :: "string \<Rightarrow> 'c \<Rightarrow> gerr option \<times> 'c"
  ctxDone :: "'c \<Rightarrow> bool"
  sleep :: "nat \<Rightarrow> 'c \<Rightarrow> unit \<times> 'c"

definition context_canceled :: gerr where
  "context_canceled =
     GErr Canceled ''context canceled before the uninstallation preparation was complete''"

section \<open>The command\<close>

text \<open>The defaults that are registered for the flags.\<close>

definition uninstall_defaults :: uninstall_flags where
  "uninstall_defaults = \<lparr>uf_deploymentName = ''governance-policy-framework-addon'',
     uf_deploymentNamespace = ''open-cluster-management-agent-addon'', uf_policyNamespace = [],
     uf_timeoutSeconds = 300\<rparr>"

text \<open>The checks after the flags are parsed.\<close>

definition check_uninstall_flags :: "uninstall_flags \<Rightarrow> gerr option" where
  "check_uninstall_flags f =
     (if uf_deploymentName f = [] \<or> uf_deploymentNamespace f = [] \<or> uf_policyNamespace f = []
      then Some (GErr OtherReason
        ''--deployment-name, --deployment-namespace, --policy-namespace must all have values'')
      else if uf_timeoutSeconds f < 30
      then Some (GErr OtherReason ''--timeout-seconds must be set to at least 30 seconds'')
      else None)"

text \<open>The parser of the command line is a parameter: from the defaults and the arguments, an error or
  the values of the flags. The loggers that the function also sets up are not modelled.\<close>

type_synonym uninstall_parser = "uninstall_flags \<Rightarrow> string list \<Rightarrow> gerr + uninstall_flags"

definition parseUninstallFlags :: "uninstall_parser \<Rightarrow> string list \<Rightarrow> gerr + uninstall_flags" where
  "parseUninstallFlags parse args =
     (case parse uninstall_defaults args of
        Inl err \<Rightarrow> Inl err
      | Inr f \<Rightarrow> (case check_uninstall_flags f of Some err \<Rightarrow> Inl err | None \<Rightarrow> Inr f))"

text \<open>A \<^verbatim>\<open>for\<close> loop without a condition, from one pass of its body: an end, or another try.\<close>

datatype 'r pass = Return 'r | Continue

partial_function (option) retry :: "('w \<Rightarrow> 'r pass \<times> 'w) \<Rightarrow> 'w \<Rightarrow> ('r \<times> 'w) option" where
  "retry pass w =
     (case pass w of (Return r, w) \<Rightarrow> Some (r, w) | (Continue, w) \<Rightarrow> retry pass w)"

declare retry.simps [code]

definition annotate_pass ::
  "'c uninstall_api \<Rightarrow> uninstall_flags \<Rightarrow> 'c world \<Rightarrow> unit outcome pass \<times> 'c world" where
  "annotate_pass api f w =
     (if ctxDone api (w_env w) then (Return (Err context_canceled), w)
      else
        (let key = nn (uf_deploymentNamespace f) (uf_deploymentName f) in
         case call (depGet api key) w of
           (Inl err, w) \<Rightarrow> (Return (Err err), w)
         | (Inr deployment, w) \<Rightarrow>
             (case dp_annotations deployment of
                None \<Rightarrow> (Return Panic, w)
              | Some annotations \<Rightarrow>
                  (let annotations = annotations(AnnotationKey \<mapsto> ''true'');
                       deployment = deployment\<lparr>dp_annotations := Some annotations\<rparr>
                   in case act (DeploymentUpdate key annotations) (depUpdate api key deployment) w of
                        (Some err, w) \<Rightarrow>
                          (if IsServerTimeout err \<or> IsTimeout err \<or> IsConflict err
                           then (Continue, w) else (Return (Err err), w))
                      | (None, w) \<Rightarrow> (Return (Ok ()), w)))))"

definition setUninstallAnnotation ::
  "'c uninstall_api \<Rightarrow> uninstall_flags \<Rightarrow> 'c world \<Rightarrow> (unit outcome \<times> 'c world) option" where
  "setUninstallAnnotation api f w = retry (annotate_pass api f) w"

definition delete_pass ::
  "'c uninstall_api \<Rightarrow> uninstall_flags \<Rightarrow> 'c world \<Rightarrow> gerr option pass \<times> 'c world" where
  "delete_pass api f w =
     (if ctxDone api (w_env w) then (Return (Some context_canceled), w)
      else (case call (polList api (uf_policyNamespace f)) w of
              (Inl err, w) \<Rightarrow>
                (if IsServerTimeout err \<or> IsTimeout err then (Continue, w)
                 else (Return (Some err), w))
            | (Inr policies, w) \<Rightarrow>
                (if length policies = 0 then (Return None, w)
                 else
                   (case act (PolicyDeleteCollection (uf_policyNamespace f))
                           (polDeleteCollection api (uf_policyNamespace f)) w of
                      (_, w) \<Rightarrow> (case act (Slept 2) (sleep api 2) w of (_, w) \<Rightarrow> (Continue, w))))))"

definition deletePolicies ::
  "'c uninstall_api \<Rightarrow> uninstall_flags \<Rightarrow> 'c world \<Rightarrow> (gerr option \<times> 'c world) option" where
  "deletePolicies api f w = retry (delete_pass api f) w"

text \<open>The context with a timeout: the calls of \<open>clients n\<close> are made with a context that \<^verbatim>\<open>context.WithTimeout\<close>
  has given \<open>n\<close> seconds. Reading the configuration of the clients can fail, and building them from it can
  panic (\<^verbatim>\<open>NewForConfigOrDie\<close>); which of it happens is a parameter.\<close>

definition Trigger ::
  "uninstall_parser \<Rightarrow> unit outcome \<Rightarrow> (nat \<Rightarrow> 'c uninstall_api) \<Rightarrow> string list \<Rightarrow> 'c world
     \<Rightarrow> (unit outcome \<times> 'c world) option" where
  "Trigger parse config clients args w =
     (case parseUninstallFlags parse args of
        Inl err \<Rightarrow> Some (Err err, w)
      | Inr f \<Rightarrow>
          (let api = clients (unat (uf_timeoutSeconds f)) in
           case config of
             Err err \<Rightarrow> Some (Err err, w)
           | Panic \<Rightarrow> Some (Panic, w)
           | Ok _ \<Rightarrow>
               (case setUninstallAnnotation api f w of
                  None \<Rightarrow> None
                | Some (Err err, w) \<Rightarrow> Some (Err err, w)
                | Some (Panic, w) \<Rightarrow> Some (Panic, w)
                | Some (Ok _, w) \<Rightarrow>
                    (case act (Slept 5) (sleep api 5) w of
                       (_, w) \<Rightarrow>
                         (case deletePolicies api f w of
                            None \<Rightarrow> None
                          | Some (Some err, w) \<Rightarrow> Some (Err err, w)
                          | Some (None, w) \<Rightarrow> Some (Ok (), w))))))"

section \<open>The watcher\<close>

text \<open>The reconcile of the watcher: it returns the new value of the global
  \<^verbatim>\<open>DeploymentIsUninstalling\<close>.\<close>

definition Reconcile_uninstall ::
  "'c uninstall_api \<Rightarrow> object_identifier \<Rightarrow> bool \<Rightarrow> 'c world
     \<Rightarrow> reconcile_result \<times> bool \<times> 'c world" where
  "Reconcile_uninstall api obj deploymentIsUninstalling w =
     (case call (depGet api (nn (oi_namespace obj) (oi_name obj))) w of
        (Inl err, w) \<Rightarrow>
          (if IsNotFound err then (Done, True, w) else (Failed err, deploymentIsUninstalling, w))
      | (Inr deployment, w) \<Rightarrow>
          (if (case dp_annotations deployment of None \<Rightarrow> [] | Some m \<Rightarrow> lookup_str m AnnotationKey)
               = ''true''
           then (Done, True, w) else (Done, False, w)))"

text \<open>What the watch library answers to \<^verbatim>\<open>StartWatcher\<close>: the errors of building the client set and
  the watcher, the error of a watcher that ends before it has started, of adding the watch, and
  of a watcher that ends before the context is done.\<close>

record watcher_run =
  wr_clientset :: "gerr option"
  wr_watcher :: "gerr option"
  wr_notStarted :: "gerr option"
  wr_addWatch :: "object_identifier \<Rightarrow> gerr option"
  wr_ended :: "gerr option"

definition self_id :: "string \<Rightarrow> string \<Rightarrow> object_identifier" where
  "self_id namespace deploymentName =
     \<lparr>oi_group = ''apps'', oi_version = ''v1'', oi_kind = ''Deployment'', oi_namespace = namespace,
      oi_name = deploymentName\<rparr>"

text \<open>The error, and the object that was watched if it came to that.\<close>

definition StartWatcher ::
  "watcher_run \<Rightarrow> string \<Rightarrow> string \<Rightarrow> gerr option \<times> object_identifier option" where
  "StartWatcher wr namespace deploymentName =
     (case wr_clientset wr of Some err \<Rightarrow> (Some err, None) | None \<Rightarrow>
     (case wr_watcher wr of Some err \<Rightarrow> (Some err, None) | None \<Rightarrow>
     (case wr_notStarted wr of Some watchErr \<Rightarrow> (Some watchErr, None) | None \<Rightarrow>
       (let self = self_id namespace deploymentName
        in case wr_addWatch wr self of
             Some err \<Rightarrow> (Some err, None)
           | None \<Rightarrow> (wr_ended wr, Some self)))))"

lemma StartWatcher_watches:
  "StartWatcher wr ns name = (None, watched) \<Longrightarrow> watched = Some (self_id ns name)"
  by (auto simp: StartWatcher_def Let_def split: option.splits)

section \<open>Loops that retry\<close>

text \<open>The passes that a loop makes before its last one.\<close>

inductive tries :: "('w \<Rightarrow> 'r pass \<times> 'w) \<Rightarrow> 'w \<Rightarrow> 'w \<Rightarrow> bool" for pass where
  start: "tries pass w w"
| again: "pass w = (Continue, w1) \<Longrightarrow> tries pass w1 w2 \<Longrightarrow> tries pass w w2"

inductive_cases tries_cases: "tries pass w w'"

lemma tries_step: "tries pass w w1 \<Longrightarrow> pass w1 = (Continue, w2) \<Longrightarrow> tries pass w w2"
  by (induction rule: tries.induct) (auto intro: tries.intros)

text \<open>What a loop returns was returned by a pass that it reached.\<close>

lemma retry_Some:
  fixes pass :: "'w \<Rightarrow> 'r pass \<times> 'w"
  assumes "retry pass w = Some (r, w')"
  shows "\<exists>w1. tries pass w w1 \<and> pass w1 = (Return r, w')"
proof -
  have "\<exists>w1. tries pass w w1 \<and> pass w1 = (Return (fst (r, w')), snd (r, w'))"
  proof (rule retry.raw_induct [where P = "\<lambda>pass w y. \<exists>w1. tries pass w w1 \<and> pass w1 = (Return (fst y), snd y)"])
    fix loop :: "('w \<Rightarrow> 'r pass \<times> 'w) \<Rightarrow> 'w \<Rightarrow> ('r \<times> 'w) option"
      and pass :: "'w \<Rightarrow> 'r pass \<times> 'w" and w y
    assume "\<And>pass w y. loop pass w = Some y \<Longrightarrow>
        \<exists>w1. tries pass w w1 \<and> pass w1 = (Return (fst y), snd y)"
      and "(case pass w of (Return r, w) \<Rightarrow> Some (r, w) | (Continue, w) \<Rightarrow> loop pass w) = Some y"
    then show "\<exists>w1. tries pass w w1 \<and> pass w1 = (Return (fst y), snd y)"
      by (cases y) (force split: prod.splits pass.splits intro: tries.intros)
  qed (rule assms)
  then show ?thesis by simp
qed

text \<open>A loop whose passes use up a bounded resource returns.\<close>

locale bounded_loop =
  fixes pass :: "'w \<Rightarrow> 'r pass \<times> 'w" and left :: "'w \<Rightarrow> nat"
  assumes uses_up: "pass w = (Continue, w') \<Longrightarrow> left w' < left w"
begin

lemma returns: "\<exists>r w'. retry pass w = Some (r, w')"
proof (induction "left w" arbitrary: w rule: less_induct)
  case less
  obtain p w1 where p: "pass w = (p, w1)" by fastforce
  show ?case
  proof (cases p)
    case Continue
    then have "left w1 < left w" using uses_up p by simp
    then obtain r w' where "retry pass w1 = Some (r, w')" using less by blast
    then show ?thesis using p Continue by (subst retry.simps) simp
  qed (use p in \<open>subst retry.simps, simp\<close>)
qed

end

text \<open>The clients of a context with a timeout: every call takes time, and the context is done
  when the time is up.\<close>

locale timed_api =
  fixes api :: "'c uninstall_api" and elapsed :: "'c \<Rightarrow> nat" and deadline :: nat
  assumes done_late: "deadline \<le> elapsed c \<Longrightarrow> ctxDone api c"
    and get_takes: "depGet api k c = (x, c') \<Longrightarrow> elapsed c < elapsed c'"
    and update_takes: "depUpdate api k d c = (y, c') \<Longrightarrow> elapsed c < elapsed c'"
    and list_takes: "polList api ns c = (z, c') \<Longrightarrow> elapsed c < elapsed c'"
    and delete_takes: "polDeleteCollection api ns c = (y, c') \<Longrightarrow> elapsed c < elapsed c'"
    and sleep_takes: "sleep api n c = (u, c') \<Longrightarrow> elapsed c + n \<le> elapsed c'"
begin

definition time_left :: "'c world \<Rightarrow> nat" where
  "time_left w = deadline - elapsed (w_env w)"

lemma call_takes:
  assumes "call f w = (x, w')" and "\<And>c x c'. f c = (x, c') \<Longrightarrow> elapsed c < elapsed c'"
  shows "elapsed (w_env w) < elapsed (w_env w')"
  using assms by (auto simp: call_def split: prod.splits)

lemma act_takes:
  assumes "act e f w = (x, w')" and "\<And>c x c'. f c = (x, c') \<Longrightarrow> elapsed c \<le> elapsed c'"
  shows "elapsed (w_env w) \<le> elapsed (w_env w')"
  using assms by (auto simp: act_def split: prod.splits)

lemma later_left:
  assumes "\<not> ctxDone api (w_env w)" and "elapsed (w_env w) < elapsed (w_env w')"
  shows "time_left w' < time_left w"
proof -
  have "elapsed (w_env w) < deadline" using assms(1) done_late by (meson not_le)
  then show ?thesis using assms(2) by (simp add: time_left_def)
qed

end

lemma annotate_pass_Continue:
  assumes "annotate_pass api f w = (Continue, w')"
  obtains x w1 eff y key d where "\<not> ctxDone api (w_env w)"
    "call (depGet api key) w = (x, w1)" "act eff (depUpdate api key d) w1 = (y, w')"
  using assms unfolding annotate_pass_def Let_def
  by (auto split: if_splits prod.splits sum.splits option.splits)

lemma delete_pass_Continue:
  assumes "delete_pass api f w = (Continue, w')"
  obtains (failed) x where "\<not> ctxDone api (w_env w)" "call (polList api (uf_policyNamespace f)) w = (x, w')"
  | (deleted) x w1 e1 y w2 e2 u where "\<not> ctxDone api (w_env w)"
      "call (polList api (uf_policyNamespace f)) w = (x, w1)"
      "act e1 (polDeleteCollection api (uf_policyNamespace f)) w1 = (y, w2)"
      "act e2 (sleep api 2) w2 = (u, w')"
  using assms unfolding delete_pass_def
  by (auto split: if_splits prod.splits sum.splits)

sublocale timed_api \<subseteq> annotate: bounded_loop "annotate_pass api f" time_left for f
proof
  fix w w'
  assume "annotate_pass api f w = (Continue, w')"
  then show "time_left w' < time_left w"
  proof (rule annotate_pass_Continue)
    fix x w1 eff y key d
    assume c: "\<not> ctxDone api (w_env w)" "call (depGet api key) w = (x, w1)"
      "act eff (depUpdate api key d) w1 = (y, w')"
    have "elapsed (w_env w) < elapsed (w_env w1)" by (rule call_takes [OF c(2)]) (rule get_takes)
    moreover have "elapsed (w_env w1) \<le> elapsed (w_env w')"
      by (rule act_takes [OF c(3)]) (use update_takes in fastforce)
    ultimately show ?thesis using later_left [OF c(1)] by simp
  qed
qed

sublocale timed_api \<subseteq> delete: bounded_loop "delete_pass api f" time_left for f
proof
  fix w w'
  assume "delete_pass api f w = (Continue, w')"
  then show "time_left w' < time_left w"
  proof (cases rule: delete_pass_Continue)
    case (failed x)
    have "elapsed (w_env w) < elapsed (w_env w')"
      by (rule call_takes [OF failed(2)]) (rule list_takes)
    then show ?thesis using later_left [OF failed(1)] by simp
  next
    case (deleted x w1 e1 y w2 e2 u)
    have "elapsed (w_env w) < elapsed (w_env w1)"
      by (rule call_takes [OF deleted(2)]) (rule list_takes)
    moreover have "elapsed (w_env w1) \<le> elapsed (w_env w2)"
      by (rule act_takes [OF deleted(3)]) (use delete_takes in fastforce)
    moreover have "elapsed (w_env w2) \<le> elapsed (w_env w')"
      by (rule act_takes [OF deleted(4)]) (use sleep_takes in fastforce)
    ultimately show ?thesis using later_left [OF deleted(1)] by simp
  qed
qed

context timed_api
begin

lemma loops_return:
  "\<exists>r w'. setUninstallAnnotation api f w = Some (r, w')" "\<exists>d w'. deletePolicies api f w = Some (d, w')"
  using annotate.returns [of f w] delete.returns [of f w]
  by (auto simp: setUninstallAnnotation_def deletePolicies_def)

end

lemma Trigger_returns:
  assumes "\<And>n. timed_api (clients n) elapsed (deadline n)"
  shows "\<exists>r w'. Trigger parse config clients args w = Some (r, w')"
proof (cases "parseUninstallFlags parse args")
  case (Inr f)
  let ?api = "clients (unat (uf_timeoutSeconds f))"
  note loops = timed_api.loops_return [OF assms]
  show ?thesis
  proof (cases config)
    case config: (Ok u)
    obtain r w1 where a: "setUninstallAnnotation ?api f w = Some (r, w1)" using loops(1) by blast
    show ?thesis
    proof (cases r)
      case (Ok u)
      obtain y w2 where s: "act (Slept 5) (sleep ?api 5) w1 = (y, w2)" by (metis surj_pair)
      obtain d w3 where d: "deletePolicies ?api f w2 = Some (d, w3)" using loops(2) by blast
      then show ?thesis using Inr config a Ok s by (cases d) (auto simp: Trigger_def Let_def)
    qed (use Inr config a in \<open>auto simp: Trigger_def Let_def\<close>)
  qed (use Inr in \<open>auto simp: Trigger_def Let_def\<close>)
qed (auto simp: Trigger_def)

section \<open>What a success means\<close>

lemma deletePolicies_None:
  assumes "deletePolicies api f w = Some (None, w')"
  shows "\<exists>w1. tries (delete_pass api f) w w1 \<and> call (polList api (uf_policyNamespace f)) w1 = (Inr [], w')"
proof -
  from retry_Some assms obtain w1 where "tries (delete_pass api f) w w1" "delete_pass api f w1 = (Return None, w')"
    unfolding deletePolicies_def by fastforce
  then show ?thesis
    by (auto simp: delete_pass_def split: if_splits prod.splits sum.splits)
qed

text \<open>The last pass read the deployment and wrote it back with the annotation added to the
  ones it had.\<close>

definition annotated ::
  "'c uninstall_api \<Rightarrow> uninstall_flags \<Rightarrow> 'c world \<Rightarrow> deployment \<Rightarrow> 'c world \<Rightarrow> bool" where
  "annotated api f w1 d w' \<longleftrightarrow>
     (let key = nn (uf_deploymentNamespace f) (uf_deploymentName f);
          m = (the (dp_annotations d))(AnnotationKey \<mapsto> ''true'')
      in \<exists>w2. dp_annotations d \<noteq> None \<and> call (depGet api key) w1 = (Inr d, w2) \<and>
        act (DeploymentUpdate key m) (depUpdate api key (d\<lparr>dp_annotations := Some m\<rparr>)) w2 = (None, w'))"

lemma setUninstallAnnotation_Ok:
  assumes "setUninstallAnnotation api f w = Some (Ok u, w')"
  shows "\<exists>w1 d. tries (annotate_pass api f) w w1 \<and> annotated api f w1 d w'"
proof -
  from retry_Some assms obtain w1 where t: "tries (annotate_pass api f) w w1"
    and p: "annotate_pass api f w1 = (Return (Ok u), w')"
    unfolding setUninstallAnnotation_def by fastforce
  let ?key = "nn (uf_deploymentNamespace f) (uf_deploymentName f)"
  obtain x w2 where g: "call (depGet api ?key) w1 = (x, w2)" by fastforce
  obtain d m where x: "x = Inr d" "dp_annotations d = Some m"
    using p g by (auto simp: annotate_pass_def Let_def split: if_splits sum.splits option.splits)
  let ?m = "m(AnnotationKey \<mapsto> ''true'')"
  obtain y w3 where u: "act (DeploymentUpdate ?key ?m)
      (depUpdate api ?key (d\<lparr>dp_annotations := Some ?m\<rparr>)) w2 = (y, w3)" by fastforce
  have "y = None" "w3 = w'"
    using p g x u by (auto simp: annotate_pass_def Let_def split: if_splits option.splits)
  then have "annotated api f w1 d w'" using g x u by (auto simp: annotated_def Let_def)
  then show ?thesis using t by blast
qed

section \<open>A cluster with a clock\<close>

text \<open>A cluster whose every call takes a second, whose first update conflicts, and where a
  collection is deleted in two rounds; the context is done after its timeout.\<close>

record clock_env =
  ck_now :: nat
  ck_annotations :: "string \<rightharpoonup> string"
  ck_policies :: "string list"
  ck_conflicts :: nat

definition tick :: "nat \<Rightarrow> clock_env \<Rightarrow> clock_env" where
  "tick n c = c\<lparr>ck_now := ck_now c + n\<rparr>"

definition clock_api :: "nat \<Rightarrow> clock_env uninstall_api" where
  "clock_api timeout = \<lparr>
     depGet = \<lambda>_ c. (Inr \<lparr>dp_annotations = Some (ck_annotations c)\<rparr>, tick 1 c),
     depUpdate = \<lambda>_ d c. (case ck_conflicts c of
         Suc n \<Rightarrow> (Some (GErr Conflict ''conflict''), tick 1 (c\<lparr>ck_conflicts := n\<rparr>))
       | 0 \<Rightarrow> (None, tick 1 (c\<lparr>ck_annotations := the (dp_annotations d)\<rparr>))),
     polList = \<lambda>_ c. (Inr (ck_policies c), tick 1 c),
     polDeleteCollection = \<lambda>_ c. (None, tick 1 (c\<lparr>ck_policies := tl (ck_policies c)\<rparr>)),
     ctxDone = \<lambda>c. timeout \<le> ck_now c,
     sleep = \<lambda>n c. ((), tick n c)\<rparr>"

interpretation clock: timed_api "clock_api timeout" ck_now timeout for timeout
  by unfold_locales (auto simp: clock_api_def tick_def split: nat.splits)

definition sample_flags :: uninstall_flags where
  "sample_flags = \<lparr>uf_deploymentName = ''d'', uf_deploymentNamespace = ''n'',
     uf_policyNamespace = ''p'', uf_timeoutSeconds = 300\<rparr>"

definition sample_clock :: "clock_env world" where
  "sample_clock = \<lparr>w_env = \<lparr>ck_now = 0, ck_annotations = Map.empty,
     ck_policies = [''a'', ''b''], ck_conflicts = 1\<rparr>, w_log = []\<rparr>"

section \<open>Properties\<close>

text \<open>C20. The uninstall command returns: when every call takes time and a context is done once its
  timeout has passed, the retry loops end, whatever the API server answers.\<close>

theorem uninstall_terminates:
  assumes "\<And>n. timed_api (clients n) elapsed (deadline n)"
  shows "\<exists>r w'. Trigger parse config clients args w = Some (r, w')"
  using Trigger_returns [OF assms] .

theorem uninstall_terminates_witness:
  "\<exists>r w'. Trigger (\<lambda>_ _. Inr sample_flags) (Ok ()) clock_api [] sample_clock = Some (r, w')"
  by (rule uninstall_terminates [OF clock.timed_api_axioms])

text \<open>C21. When the command succeeds, the flags were valid with a timeout of at least thirty seconds, and its
  run was this: passes of the first loop that were to be tried again, from the start of the command on;
  then a pass that read the deployment and updated it successfully with the uninstall annotation added to
  the annotations it had; a sleep of five seconds; passes of the second loop that were to be tried again;
  and a list of the policies that is empty, with which the command ends.\<close>

theorem uninstall_success:
  assumes "Trigger parse config clients args w = Some (Ok u, w')"
  shows "\<exists>f. parse uninstall_defaults args = Inr f \<and> uf_policyNamespace f \<noteq> [] \<and> 30 \<le> unat (uf_timeoutSeconds f)
    \<and> (\<exists>api w1 d w2 w3 w4. api = clients (unat (uf_timeoutSeconds f)) \<and>
        tries (annotate_pass api f) w w1 \<and> annotated api f w1 d w2 \<and>
        act (Slept 5) (sleep api 5) w2 = ((), w3) \<and> tries (delete_pass api f) w3 w4 \<and>
        call (polList api (uf_policyNamespace f)) w4 = (Inr [], w'))"
proof -
  obtain f where p: "parseUninstallFlags parse args = Inr f" "config = Ok ()"
    using assms by (auto simp: Trigger_def Let_def split: sum.splits outcome.splits)
  then have f: "parse uninstall_defaults args = Inr f" "check_uninstall_flags f = None"
    by (auto simp: parseUninstallFlags_def split: sum.splits option.splits)
  let ?api = "clients (unat (uf_timeoutSeconds f))"
  obtain r w1 where a: "setUninstallAnnotation ?api f w = Some (r, w1)"
    using assms p by (cases "setUninstallAnnotation ?api f w") (auto simp: Trigger_def Let_def)
  then obtain u1 where r: "r = Ok u1" using assms p a by (cases r) (auto simp: Trigger_def Let_def)
  obtain y w2 where s: "act (Slept 5) (sleep ?api 5) w1 = (y, w2)" by (metis surj_pair)
  have d: "deletePolicies ?api f w2 = Some (None, w')"
    using assms p a r s by (auto simp: Trigger_def Let_def split: option.splits prod.splits)
  have "\<not> uf_timeoutSeconds f < 30" "uf_policyNamespace f \<noteq> []"
    using f(2) by (auto simp: check_uninstall_flags_def split: if_splits)
  then have "30 \<le> unat (uf_timeoutSeconds f)"
    by (simp add: word_less_nat_alt not_less)
  moreover obtain v1 dep where "tries (annotate_pass ?api f) w v1" "annotated ?api f v1 dep w1"
    using setUninstallAnnotation_Ok [OF a [unfolded r]] by blast
  moreover obtain v4 where "tries (delete_pass ?api f) w2 v4" "call (polList ?api (uf_policyNamespace f)) v4 = (Inr [], w')"
    using deletePolicies_None [OF d] by blast
  moreover have "act (Slept 5) (sleep ?api 5) w1 = ((), w2)" using s by simp
  ultimately show ?thesis using f(1) \<open>uf_policyNamespace f \<noteq> []\<close> by blast
qed

lemma sample_Trigger:
  "map_option fst (Trigger (\<lambda>_ _. Inr sample_flags) (Ok ()) clock_api [] sample_clock) = Some (Ok ())"
  by code_simp

theorem uninstall_success_witness:
  "\<exists>w1 d w2 w3 w4 w'. tries (annotate_pass (clock_api 300) sample_flags) sample_clock w1 \<and>
     annotated (clock_api 300) sample_flags w1 d w2 \<and> act (Slept 5) (sleep (clock_api 300) 5) w2 = ((), w3) \<and>
     tries (delete_pass (clock_api 300) sample_flags) w3 w4 \<and>
     call (polList (clock_api 300) ''p'') w4 = (Inr [], w')"
proof -
  obtain w' where "Trigger (\<lambda>_ _. Inr sample_flags) (Ok ()) clock_api [] sample_clock = Some (Ok (), w')"
    using sample_Trigger by fastforce
  from uninstall_success [OF this] obtain f w1 d w2 w3 w4 where f: "f = sample_flags"
    and run: "tries (annotate_pass (clock_api (unat (uf_timeoutSeconds f))) f) sample_clock w1"
      "annotated (clock_api (unat (uf_timeoutSeconds f))) f w1 d w2"
      "act (Slept 5) (sleep (clock_api (unat (uf_timeoutSeconds f))) 5) w2 = ((), w3)"
      "tries (delete_pass (clock_api (unat (uf_timeoutSeconds f))) f) w3 w4"
      "call (polList (clock_api (unat (uf_timeoutSeconds f))) (uf_policyNamespace f)) w4 = (Inr [], w')" by auto
  have "uf_policyNamespace sample_flags = ''p''" "unat (uf_timeoutSeconds sample_flags) = 300"
    by (simp_all add: sample_flags_def)
  note flags = this
  show ?thesis using run [unfolded f flags] by blast
qed

text \<open>C36. A deployment without any annotations makes the command panic: its annotation map is
  \<^verbatim>\<open>nil\<close> and the code writes into it.\<close>

theorem uninstall_nil_annotations_panics:
  assumes "\<not> ctxDone api (w_env w)"
    and "depGet api (nn (uf_deploymentNamespace f) (uf_deploymentName f)) (w_env w) = (Inr d, c)"
    and "dp_annotations d = None"
  shows "setUninstallAnnotation api f w = Some (Panic, w\<lparr>w_env := c\<rparr>)"
  using assms by (simp add: setUninstallAnnotation_def retry.simps annotate_pass_def callsimps Let_def)

theorem uninstall_nil_annotations_panics_witness:
  "map_option fst (setUninstallAnnotation
     ((clock_api 300)\<lparr>depGet := \<lambda>_ c. (Inr \<lparr>dp_annotations = None\<rparr>, c)\<rparr>) sample_flags sample_clock)
   = Some Panic"
  using uninstall_nil_annotations_panics [of
      "(clock_api 300)\<lparr>depGet := \<lambda>_ c. (Inr \<lparr>dp_annotations = None\<rparr>, c)\<rparr>" sample_clock sample_flags
      "\<lparr>dp_annotations = None\<rparr>" "w_env sample_clock"]
  by (simp add: clock_api_def sample_clock_def)

end
