(* ===== verification/Options.thy ===== *)
theory Options
  imports Complex_Main Kube "HOL-Library.Word"
begin

text \<open>
  The command line options and the namespace of the operator, \<^verbatim>\<open>tool/options.go\<close> and
  \<^verbatim>\<open>tool/operator-sdk-port.go\<close>. The flag parser is a parameter: from the registered defaults and
  the arguments it gives the values and which flags were set. The environment is a map. The
  widths of the integers are those of the source; a \<^verbatim>\<open>float32\<close> is a rational number, which is
  exact for the products of this code (at most 255 times 15).
\<close>

section \<open>Options\<close>

record syncer_options =
  op_clusterNamespaceOnHub :: string
  op_hubConfigFilePathName :: string
  op_managedConfigFilePathName :: string
  op_onMulticlusterhub :: bool
  op_disableGkSync :: bool
  op_enableLease :: bool
  op_enableLeaderElection :: bool
  op_probeAddr :: string
  op_metricsAddr :: string
  op_secureMetrics :: bool
  op_clusterNamespace :: string
  op_deploymentName :: string
  op_evaluationConcurrency :: "8 word"
  op_clientQPS :: rat
  op_clientBurst :: "32 word"
  op_disableSpecSync :: bool

text \<open>The defaults that \<^verbatim>\<open>ProcessFlags\<close> registers; the last field is the package variable
  \<^verbatim>\<open>disableSpecSync\<close>.\<close>

definition ProcessFlags :: syncer_options where
  "ProcessFlags =
     \<lparr>op_clusterNamespaceOnHub = [], op_hubConfigFilePathName = [],
      op_managedConfigFilePathName = [], op_onMulticlusterhub = False, op_disableGkSync = False,
      op_enableLease = False, op_enableLeaderElection = True, op_probeAddr = '':8080'',
      op_metricsAddr = ''localhost:8383'', op_secureMetrics = False, op_clusterNamespace = [],
      op_deploymentName = [], op_evaluationConcurrency = 2, op_clientQPS = 30,
      op_clientBurst = 45, op_disableSpecSync = False\<rparr>"

type_synonym flag_parser = "syncer_options \<Rightarrow> string list \<Rightarrow> syncer_options \<times> (string \<Rightarrow> bool)"
type_synonym environment = "string \<rightharpoonup> string"

definition Getenv :: "environment \<Rightarrow> string \<Rightarrow> string" where
  "Getenv env name = lookup_str env name"

definition scale_limits :: "(string \<Rightarrow> bool) \<Rightarrow> syncer_options \<Rightarrow> syncer_options" where
  "scale_limits changed opts =
     (if changed ''evaluation-concurrency'' then
        (let opts = (if \<not> changed ''client-max-qps''
                then opts\<lparr>op_clientQPS := of_nat (unat (op_evaluationConcurrency opts)) * 15\<rparr>
                else opts)
         in if \<not> changed ''client-burst''
            then opts\<lparr>op_clientBurst := ucast (op_evaluationConcurrency opts) * 22 + 1\<rparr>
            else opts)
      else opts)"

definition set_deployment :: "environment \<Rightarrow> syncer_options \<Rightarrow> syncer_options" where
  "set_deployment env opts =
     (let opts = opts\<lparr>op_deploymentName := Getenv env ''DEPLOYMENT_NAME''\<rparr>
      in if op_deploymentName opts = []
         then opts\<lparr>op_deploymentName := ''governance-policy-framework-addon''\<rparr> else opts)"

definition set_on_hub :: "environment \<Rightarrow> syncer_options \<Rightarrow> syncer_options" where
  "set_on_hub env opts =
     (let opts = (if op_disableSpecSync opts then opts\<lparr>op_onMulticlusterhub := True\<rparr> else opts)
      in if Getenv env ''ON_MULTICLUSTERHUB'' = ''true''
         then opts\<lparr>op_onMulticlusterhub := True\<rparr> else opts)"

text \<open>\<^verbatim>\<open>os.LookupEnv\<close> gives the empty string when the variable is not set.\<close>

definition set_configs :: "environment \<Rightarrow> syncer_options \<Rightarrow> syncer_options" where
  "set_configs env opts =
     (let opts = (if op_clusterNamespaceOnHub opts = []
             then opts\<lparr>op_clusterNamespaceOnHub := op_clusterNamespace opts\<rparr> else opts);
          opts = (if op_hubConfigFilePathName opts = []
             then opts\<lparr>op_hubConfigFilePathName := Getenv env ''HUB_CONFIG''\<rparr> else opts)
      in if op_managedConfigFilePathName opts = []
         then opts\<lparr>op_managedConfigFilePathName := Getenv env ''MANAGED_CONFIG''\<rparr> else opts)"

definition ProcessAndParse ::
  "flag_parser \<Rightarrow> environment \<Rightarrow> string list \<Rightarrow> gerr option \<times> syncer_options" where
  "ProcessAndParse parse env args =
     (case parse ProcessFlags args of
        (opts, changed) \<Rightarrow>
          (let opts = set_on_hub env (set_deployment env (scale_limits changed opts))
           in if op_clusterNamespace opts = []
              then (Some (GErr OtherReason ''the --cluster-namespace flag must be provided''), opts)
              else (None, set_configs env opts)))"

section \<open>The namespace of the operator\<close>

definition ForceRunModeEnv :: string where
  "ForceRunModeEnv = ''OSDK_FORCE_RUN_MODE''"

definition LocalRunMode :: string where
  "LocalRunMode = ''local''"

definition ErrNoNamespace :: gerr where
  "ErrNoNamespace = GErr OtherReason ''namespace not found for current environment''"

definition ErrRunLocal :: gerr where
  "ErrRunLocal = GErr OtherReason ''operator run mode forced to local''"

definition isRunModeLocal :: "environment \<Rightarrow> bool" where
  "isRunModeLocal env \<longleftrightarrow> Getenv env ForceRunModeEnv = LocalRunMode"

text \<open>The second argument is the content of the namespace file of the service account, or the
  error of reading it; a file that does not exist has the reason \<^const>\<open>NotFound\<close>.\<close>

definition GetOperatorNamespace :: "environment \<Rightarrow> gerr + string \<Rightarrow> gerr + string" where
  "GetOperatorNamespace env nsFile =
     (if isRunModeLocal env then Inl ErrRunLocal
      else (case nsFile of
              Inl err \<Rightarrow> if IsNotFound err then Inl ErrNoNamespace else Inl err
            | Inr nsBytes \<Rightarrow> Inr (TrimSpace nsBytes)))"

section \<open>Properties\<close>

lemma set_deployment_simps [simp]:
  "op_clusterNamespace (set_deployment env opts) = op_clusterNamespace opts"
  "op_clusterNamespaceOnHub (set_deployment env opts) = op_clusterNamespaceOnHub opts"
  "op_onMulticlusterhub (set_deployment env opts) = op_onMulticlusterhub opts"
  "op_disableSpecSync (set_deployment env opts) = op_disableSpecSync opts"
  "op_clientQPS (set_deployment env opts) = op_clientQPS opts"
  "op_clientBurst (set_deployment env opts) = op_clientBurst opts"
  "op_evaluationConcurrency (set_deployment env opts) = op_evaluationConcurrency opts"
  "op_deploymentName (set_deployment env opts) \<noteq> []"
  by (simp_all add: set_deployment_def Let_def)

lemma set_on_hub_simps [simp]:
  "op_clusterNamespace (set_on_hub env opts) = op_clusterNamespace opts"
  "op_clusterNamespaceOnHub (set_on_hub env opts) = op_clusterNamespaceOnHub opts"
  "op_deploymentName (set_on_hub env opts) = op_deploymentName opts"
  "op_clientQPS (set_on_hub env opts) = op_clientQPS opts"
  "op_clientBurst (set_on_hub env opts) = op_clientBurst opts"
  "op_evaluationConcurrency (set_on_hub env opts) = op_evaluationConcurrency opts"
  "op_onMulticlusterhub (set_on_hub env opts) \<longleftrightarrow> op_onMulticlusterhub opts \<or>
     op_disableSpecSync opts \<or> Getenv env ''ON_MULTICLUSTERHUB'' = ''true''"
  by (simp_all add: set_on_hub_def Let_def)

lemma set_configs_simps [simp]:
  "op_clusterNamespace (set_configs env opts) = op_clusterNamespace opts"
  "op_clusterNamespaceOnHub (set_configs env opts) =
     (if op_clusterNamespaceOnHub opts = [] then op_clusterNamespace opts
      else op_clusterNamespaceOnHub opts)"
  "op_deploymentName (set_configs env opts) = op_deploymentName opts"
  "op_onMulticlusterhub (set_configs env opts) = op_onMulticlusterhub opts"
  "op_clientQPS (set_configs env opts) = op_clientQPS opts"
  "op_clientBurst (set_configs env opts) = op_clientBurst opts"
  "op_evaluationConcurrency (set_configs env opts) = op_evaluationConcurrency opts"
  by (simp_all add: set_configs_def Let_def)

lemma scale_limits_simps [simp]:
  "op_clusterNamespace (scale_limits changed opts) = op_clusterNamespace opts"
  "op_onMulticlusterhub (scale_limits changed opts) = op_onMulticlusterhub opts"
  "op_disableSpecSync (scale_limits changed opts) = op_disableSpecSync opts"
  "op_clusterNamespaceOnHub (scale_limits changed opts) = op_clusterNamespaceOnHub opts"
  by (simp_all add: scale_limits_def Let_def)

lemma scale_limits_burst:
  fixes c :: "8 word"
  shows "unat (ucast c * 22 + 1 :: 32 word) = 22 * unat c + 1"
proof -
  have c: "unat c < 256" using unsigned_less [of c] by simp
  then have "unat (ucast c :: 32 word) = unat c"
    by (simp add: unsigned_ucast_eq take_bit_nat_eq_self)
  with c show ?thesis by (simp add: unat_word_ariths)
qed

text \<open>C33. Unless they are set explicitly, the client limits scale with the concurrency (fifteen
  queries per second and a burst of twenty-two per worker, plus one), also when the
  concurrency is left at its default, and the 32-bit burst does not wrap.\<close>

theorem client_limits_scale:
  assumes "parse ProcessFlags args = (opts, changed)"
    and "\<not> changed ''client-max-qps''" and "\<not> changed ''client-burst''"
    and "\<not> changed ''evaluation-concurrency'' \<Longrightarrow>
      op_evaluationConcurrency opts = op_evaluationConcurrency ProcessFlags \<and>
      op_clientQPS opts = op_clientQPS ProcessFlags \<and> op_clientBurst opts = op_clientBurst ProcessFlags"
    and "ProcessAndParse parse env args = (err, final)"
  shows "op_clientQPS final = 15 * of_nat (unat (op_evaluationConcurrency opts))
    \<and> unat (op_clientBurst final) = 22 * unat (op_evaluationConcurrency opts) + 1
    \<and> op_evaluationConcurrency final = op_evaluationConcurrency opts"
proof -
  let ?s = "scale_limits changed opts"
  have f: "op_clientQPS final = op_clientQPS ?s \<and> op_clientBurst final = op_clientBurst ?s
      \<and> op_evaluationConcurrency final = op_evaluationConcurrency ?s"
    using assms(5) by (auto simp: ProcessAndParse_def assms(1) Let_def split: if_splits)
  show ?thesis
  proof (cases "changed ''evaluation-concurrency''")
    case True
    then show ?thesis using f assms(2,3) scale_limits_burst by (simp add: scale_limits_def)
  next
    case False
    then show ?thesis using f assms(4) by (simp add: scale_limits_def ProcessFlags_def)
  qed
qed

definition sample_parser :: flag_parser where
  "sample_parser defaults args =
     (defaults\<lparr>op_clusterNamespace := ''managed'', op_evaluationConcurrency := 200\<rparr>,
      \<lambda>n. n \<in> {''cluster-namespace'', ''evaluation-concurrency''})"

theorem client_limits_scale_witness:
  "op_clientQPS (snd (ProcessAndParse sample_parser Map.empty [])) = 3000
   \<and> op_clientBurst (snd (ProcessAndParse sample_parser Map.empty [])) = 4401"
proof -
  have "op_clientQPS (snd (ProcessAndParse sample_parser Map.empty [])) =
      15 * of_nat (unat (200 :: 8 word))
    \<and> unat (op_clientBurst (snd (ProcessAndParse sample_parser Map.empty []))) =
      22 * unat (200 :: 8 word) + 1"
    using client_limits_scale [where parse = sample_parser and args = "[]" and env = Map.empty,
        OF _ _ _ _ prod.collapse [symmetric]]
    by (simp add: sample_parser_def)
  then show ?thesis by (simp add: word_unat_eq_iff)
qed

text \<open>The options are refused exactly when no cluster namespace is given. When they are
  accepted, the three names that the controllers rely on are not empty, the namespace on the
  hub defaults to the cluster namespace, and the controller counts as running on the hub if
  any of the flag, the deprecated flag and the deprecated variable says so.\<close>

theorem options_complete:
  assumes "parse ProcessFlags args = (opts, changed)"
    and "ProcessAndParse parse env args = (err, final)"
  shows "(err = None \<longleftrightarrow> op_clusterNamespace opts \<noteq> [])
    \<and> (op_onMulticlusterhub final \<longleftrightarrow> op_onMulticlusterhub opts \<or> op_disableSpecSync opts
         \<or> Getenv env ''ON_MULTICLUSTERHUB'' = ''true'')
    \<and> (err = None \<longrightarrow> op_clusterNamespace final = op_clusterNamespace opts
         \<and> op_deploymentName final \<noteq> [] \<and> op_clusterNamespaceOnHub final =
           (if op_clusterNamespaceOnHub opts = [] then op_clusterNamespace opts
            else op_clusterNamespaceOnHub opts))"
  using assms(2) by (auto simp: ProcessAndParse_def assms(1) Let_def split: if_splits)

theorem options_complete_witness:
  "fst (ProcessAndParse sample_parser Map.empty []) = None
   \<and> op_clusterNamespaceOnHub (snd (ProcessAndParse sample_parser Map.empty [])) = ''managed''"
  using options_complete [where parse = sample_parser and args = "[]" and env = Map.empty,
      OF _ prod.collapse [symmetric]]
  by (simp add: sample_parser_def ProcessFlags_def)

end
