(* ===== verification/Managers.thy ===== *)
theory Managers
  imports Options SecretSync GatekeeperSync
begin

text \<open>
  The managers of \<^verbatim>\<open>main.go\<close>: the options with which the three managers are built, what their caches
  are told to hold, and how building them can fail (\<^verbatim>\<open>getManager\<close>, \<^verbatim>\<open>getHubManager\<close>, the options part of
  \<^verbatim>\<open>runGatekeeperSyncManager\<close> and the part of \<^verbatim>\<open>main\<close> that calls them).

  What a cache does with its options is the documented behaviour of \<^verbatim>\<open>controller-runtime\<close>, stated as
  the locale \<open>object_cache\<close>; the properties show that the caches hold what the controllers read.
\<close>

section \<open>Options\<close>

datatype requirement = FieldIs string string | FieldIsNot string string | LabelIs string string

type_synonym selector = "requirement list"

text \<open>\<^verbatim>\<open>cache.ByObject\<close>: the selector of the kind, and the namespaces with their own selectors, if they are
  given.\<close>

record by_object =
  bo_selector :: selector
  bo_namespaces :: "(string \<times> selector) list option"

record cache_options =
  ca_byObject :: "(string \<times> by_object) list"
  ca_defaultNamespaces :: "string list"

record metrics_options =
  mx_bindAddress :: string
  mx_filterProvider :: bool
  mx_secureServing :: bool
  mx_certDir :: string

text \<open>\<open>mx_filterProvider\<close> says whether \<^verbatim>\<open>filters.WithAuthenticationAndAuthorization\<close> is set.
  \<open>mo_leaderElectionConfig\<close> names the cluster of the leases when it is not that of the manager, and
  \<open>mo_disableFor\<close> the kinds that are read from the server. The broadcaster is \<^verbatim>\<open>SpamKeyFunc\<close> of the start-up.\<close>

record manager_options =
  mo_leaderElection :: bool
  mo_leaderElectionID :: string
  mo_leaderElectionConfig :: "cluster option"
  mo_metrics :: metrics_options
  mo_healthProbeBindAddress :: string
  mo_disableFor :: "string list"
  mo_cache :: cache_options

record client_config =
  cc_qps :: rat
  cc_burst :: int

definition managed_config :: "syncer_options \<Rightarrow> client_config" where
  "managed_config opts = \<lparr>cc_qps = op_clientQPS opts, cc_burst = uint (op_clientBurst opts)\<rparr>"

definition metricsOptions :: "syncer_options \<Rightarrow> metrics_options" where
  "metricsOptions opts =
     (let metricsOptions = \<lparr>mx_bindAddress = op_metricsAddr opts, mx_filterProvider = False,
          mx_secureServing = False, mx_certDir = []\<rparr>
      in if op_secureMetrics opts
         then metricsOptions\<lparr>mx_filterProvider := True, mx_secureServing := True, mx_certDir := ''/var/run/metrics-cert''\<rparr>
         else metricsOptions)"

definition no_cache_options :: cache_options where
  "no_cache_options = \<lparr>ca_byObject = [], ca_defaultNamespaces = []\<rparr>"

definition mgrOptionsBase :: "syncer_options \<Rightarrow> manager_options" where
  "mgrOptionsBase opts =
     \<lparr>mo_leaderElection = op_enableLeaderElection opts, mo_leaderElectionID = [],
      mo_leaderElectionConfig = None, mo_metrics = metricsOptions opts,
      mo_healthProbeBindAddress = [], mo_disableFor = [], mo_cache = no_cache_options\<rparr>"

definition secret_selector :: "string \<Rightarrow> by_object" where
  "secret_selector ns =
     \<lparr>bo_selector = [], bo_namespaces = Some [(ns, [FieldIs ''metadata.name'' SecretName])]\<rparr>"

definition event_selector :: selector where
  "event_selector =
     [FieldIs ''involvedObject.kind'' ''Policy'', FieldIsNot ''reason'' ''PolicySpecSync'',
      FieldIsNot ''reason'' ''PolicyTemplateSync'', FieldIsNot ''reason'' ''PolicyStatusSync'']"

definition getManager_options :: "syncer_options \<Rightarrow> manager_options \<Rightarrow> string \<Rightarrow> manager_options" where
  "getManager_options opts options healthAddr =
     options\<lparr>mo_leaderElectionID := ''governance-policy-framework-addon.open-cluster-management.io'',
       mo_healthProbeBindAddress := healthAddr,
       mo_disableFor := [''templates.gatekeeper.sh/v1 ConstraintTemplate'',
         ''templates.gatekeeper.sh/v1beta1 ConstraintTemplate''],
       mo_cache := \<lparr>
         ca_byObject =
           [(''CustomResourceDefinition'',
               \<lparr>bo_selector = [LabelIs PolicyTypeLabel ''template''], bo_namespaces = None\<rparr>),
            (''Event'',
               \<lparr>bo_selector = [], bo_namespaces = Some [(op_clusterNamespace opts, event_selector)]\<rparr>),
            (''Secret'', secret_selector (op_clusterNamespace opts))],
         ca_defaultNamespaces = [op_clusterNamespace opts]\<rparr>\<rparr>"

definition getHubManager_options :: "syncer_options \<Rightarrow> manager_options \<Rightarrow> string \<Rightarrow> manager_options" where
  "getHubManager_options opts options healthAddr =
     options\<lparr>mo_healthProbeBindAddress := healthAddr,
       mo_leaderElectionID := ''governance-policy-framework-addon2.open-cluster-management.io'',
       mo_leaderElectionConfig := Some Managed,
       mo_cache := \<lparr>ca_byObject = [(''Secret'', secret_selector (op_clusterNamespaceOnHub opts))],
         ca_defaultNamespaces = [op_clusterNamespaceOnHub opts]\<rparr>,
       mo_metrics := (mo_metrics options)\<lparr>mx_bindAddress := ''0''\<rparr>\<rparr>"

definition gatekeeper_options :: "syncer_options \<Rightarrow> manager_options \<Rightarrow> string \<Rightarrow> manager_options" where
  "gatekeeper_options opts mgrOptions healthAddress =
     mgrOptions\<lparr>mo_metrics := (mo_metrics mgrOptions)\<lparr>mx_bindAddress := ''0''\<rparr>,
       mo_leaderElectionID := ''governance-policy-framework-addon3.open-cluster-management.io'',
       mo_cache := \<lparr>
         ca_byObject =
           [(''ValidatingWebhookConfiguration'',
               \<lparr>bo_selector = [FieldIs ''metadata.name'' GatekeeperWebhookName], bo_namespaces = None\<rparr>)],
         ca_defaultNamespaces = [op_clusterNamespace opts]\<rparr>,
       mo_healthProbeBindAddress := healthAddress\<rparr>"

text \<open>The cache of the hub that \<^verbatim>\<open>addControllers\<close> makes when there is no manager of the hub.\<close>

definition hub_cache_options :: "syncer_options \<Rightarrow> cache_options" where
  "hub_cache_options opts =
     \<lparr>ca_byObject = [(''Secret'', secret_selector (op_clusterNamespaceOnHub opts))],
      ca_defaultNamespaces = [op_clusterNamespaceOnHub opts]\<rparr>"

section \<open>Building the managers\<close>

text \<open>The errors of the four library calls of \<^verbatim>\<open>getManager\<close> and \<^verbatim>\<open>getHubManager\<close>.\<close>

record manager_env =
  me_newManager :: "gerr option"
  me_configChecker :: "gerr option"
  me_healthz :: "gerr option"
  me_readyz :: "gerr option"

record built_manager =
  bm_cluster :: cluster
  bm_options :: manager_options
  bm_checker :: string
  bm_configFiles :: "string list"

definition config_files :: "syncer_options \<Rightarrow> string \<Rightarrow> string list" where
  "config_files opts certFile =
     [op_hubConfigFilePathName opts] @ (if certFile \<noteq> [] then [certFile] else [])"

text \<open>An absent value is \<^verbatim>\<open>os.Exit(1)\<close>.\<close>

definition build_manager :: "manager_env \<Rightarrow> built_manager \<Rightarrow> built_manager option" where
  "build_manager env mgr =
     (if me_newManager env \<noteq> None then None
      else if me_configChecker env \<noteq> None then None
      else if me_healthz env \<noteq> None then None
      else if me_readyz env \<noteq> None then None
      else Some mgr)"

definition getManager ::
  "manager_env \<Rightarrow> syncer_options \<Rightarrow> manager_options \<Rightarrow> string \<Rightarrow> string \<Rightarrow> built_manager option" where
  "getManager env opts options healthAddr hubCertFile =
     build_manager env
       \<lparr>bm_cluster = Managed, bm_options = getManager_options opts options healthAddr,
        bm_checker = ''governance-policy-framework-addon'', bm_configFiles = config_files opts hubCertFile\<rparr>"

definition getHubManager ::
  "manager_env \<Rightarrow> syncer_options \<Rightarrow> manager_options \<Rightarrow> string \<Rightarrow> string \<Rightarrow> built_manager option" where
  "getHubManager env opts options healthAddr hubCertFile =
     build_manager env
       \<lparr>bm_cluster = Hub, bm_options = getHubManager_options opts options healthAddr,
        bm_checker = ''governance-policy-framework-addon2'', bm_configFiles = config_files opts hubCertFile\<rparr>"

text \<open>The answers of \<^verbatim>\<open>net.ResolveTCPAddr\<close> and of \<^verbatim>\<open>net.ListenTCP\<close>, with the port of the listener.\<close>

record listen_env =
  le_resolve :: "gerr option"
  le_listen :: "gerr + int"

definition getFreeLocalAddr :: "listen_env \<Rightarrow> gerr + string" where
  "getFreeLocalAddr le =
     (case le_resolve le of
        Some err \<Rightarrow> Inl err
      | None \<Rightarrow>
          (case le_listen le of
             Inl err \<Rightarrow> Inl err
           | Inr port \<Rightarrow> Inr (''127.0.0.1:'' @ fmt_d port)))"

text \<open>What \<^verbatim>\<open>main\<close> needs for its two managers: the two listeners and the answers of the libraries.\<close>

record managers_env =
  ms_listen :: listen_env
  ms_hubListen :: listen_env
  ms_hubCertFile :: string
  ms_managed :: manager_env
  ms_hub :: manager_env

text \<open>The managers, and the health addresses: the keys of a map.\<close>

definition main_managers ::
  "managers_env \<Rightarrow> syncer_options \<Rightarrow> (string list \<times> built_manager list) option" where
  "main_managers env opts =
     (case getFreeLocalAddr (ms_listen env) of
        Inl err \<Rightarrow> None
      | Inr mgrHealthAddr \<Rightarrow>
          (case getManager (ms_managed env) opts (mgrOptionsBase opts) mgrHealthAddr (ms_hubCertFile env) of
             None \<Rightarrow> None
           | Some mgr \<Rightarrow>
               (if \<not> op_onMulticlusterhub opts
                then (case getFreeLocalAddr (ms_hubListen env) of
                        Inl err \<Rightarrow> None
                      | Inr hubMgrHealthAddr \<Rightarrow>
                          (case getHubManager (ms_hub env) opts (mgrOptionsBase opts) hubMgrHealthAddr
                                  (ms_hubCertFile env) of
                             None \<Rightarrow> None
                           | Some hubMgr \<Rightarrow>
                               Some (List.insert hubMgrHealthAddr [mgrHealthAddr], [mgr, hubMgr])))
                else Some ([mgrHealthAddr], [mgr]))))"

section \<open>What a cache holds\<close>

text \<open>An object as a selector sees it: its kind, its namespace (empty for a kind of the whole
  cluster), its fields and its labels.\<close>

record selectable =
  so_kind :: string
  so_namespace :: string
  so_fields :: "string \<rightharpoonup> string"
  so_labels :: "string \<rightharpoonup> string"

fun meets :: "selectable \<Rightarrow> requirement \<Rightarrow> bool" where
  "meets so (FieldIs f v) \<longleftrightarrow> lookup_str (so_fields so) f = v"
| "meets so (FieldIsNot f v) \<longleftrightarrow> lookup_str (so_fields so) f \<noteq> v"
| "meets so (LabelIs l v) \<longleftrightarrow> so_labels so l = Some v"

definition selected :: "selector \<Rightarrow> selectable \<Rightarrow> bool" where
  "selected sel so = list_all (meets so) sel"

text \<open>The documented meaning of the options: a kind without an entry is held for the default
  namespaces; an entry restricts its kind by its selector, and by its namespaces with their
  selectors if it has any, otherwise to the default namespaces. The kinds of the whole cluster have no
  namespace.\<close>

locale object_cache =
  fixes holds :: "cache_options \<Rightarrow> selectable \<Rightarrow> bool"
  assumes holds_default: "map_of (ca_byObject ca) (so_kind so) = None \<Longrightarrow>
      holds ca so \<longleftrightarrow> so_namespace so = [] \<or> so_namespace so \<in> set (ca_defaultNamespaces ca)"
    and holds_kind: "map_of (ca_byObject ca) (so_kind so) = Some bo \<Longrightarrow> bo_namespaces bo = None \<Longrightarrow>
      holds ca so \<longleftrightarrow> selected (bo_selector bo) so \<and>
        (so_namespace so = [] \<or> so_namespace so \<in> set (ca_defaultNamespaces ca))"
    and holds_namespaced: "map_of (ca_byObject ca) (so_kind so) = Some bo \<Longrightarrow> bo_namespaces bo = Some nss \<Longrightarrow>
      holds ca so \<longleftrightarrow> (\<exists>sel. map_of nss (so_namespace so) = Some sel \<and> selected sel so \<and>
        (sel = [] \<longrightarrow> selected (bo_selector bo) so))"

definition cache_holds :: "cache_options \<Rightarrow> selectable \<Rightarrow> bool" where
  "cache_holds ca so =
     (let default = so_namespace so = [] \<or> so_namespace so \<in> set (ca_defaultNamespaces ca)
      in case map_of (ca_byObject ca) (so_kind so) of
           None \<Rightarrow> default
         | Some bo \<Rightarrow>
             (case bo_namespaces bo of
                None \<Rightarrow> selected (bo_selector bo) so \<and> default
              | Some nss \<Rightarrow>
                  (case map_of nss (so_namespace so) of
                     None \<Rightarrow> False
                   | Some sel \<Rightarrow> selected sel so \<and> (sel = [] \<longrightarrow> selected (bo_selector bo) so))))"

interpretation documented_cache: object_cache cache_holds
  by unfold_locales (auto simp: cache_holds_def split: option.splits)

definition named_object :: "string \<Rightarrow> namespaced_name \<Rightarrow> selectable" where
  "named_object kind k =
     \<lparr>so_kind = kind, so_namespace = nn_namespace k,
      so_fields = [''metadata.name'' \<mapsto> nn_name k, ''metadata.namespace'' \<mapsto> nn_namespace k],
      so_labels = Map.empty\<rparr>"

definition event_object :: "kevent \<Rightarrow> selectable" where
  "event_object ev =
     \<lparr>so_kind = ''Event'', so_namespace = ev_namespace ev,
      so_fields = [''metadata.name'' \<mapsto> ev_name ev, ''involvedObject.kind'' \<mapsto> ref_kind (ev_involved ev),
        ''reason'' \<mapsto> ev_reason ev],
      so_labels = Map.empty\<rparr>"

lemmas options_defs = getManager_options_def getHubManager_options_def gatekeeper_options_def
  secret_selector_def event_selector_def

lemma selected_simps [simp]:
  "selected [] so" "selected (q # sel) so \<longleftrightarrow> meets so q \<and> selected sel so"
  by (simp_all add: selected_def)

context object_cache
begin

text \<open>A cache that is restricted to one namespace of a kind with a selector.\<close>

lemma holds_one:
  assumes "map_of (ca_byObject ca) (so_kind so) =
      Some \<lparr>bo_selector = [], bo_namespaces = Some [(ns, sel)]\<rparr>"
  shows "holds ca so \<longleftrightarrow> so_namespace so = ns \<and> selected sel so"
  using holds_namespaced [OF assms] by auto

lemma holds_event:
  "holds (mo_cache (getManager_options opts base a)) (event_object ev) \<longleftrightarrow>
     ev_namespace ev = op_clusterNamespace opts \<and> selected event_selector (event_object ev)"
  by (subst holds_one [where ns = "op_clusterNamespace opts"]) (auto simp: options_defs event_object_def)

lemma holds_secret_one:
  assumes "map_of (ca_byObject ca) ''Secret'' = Some (secret_selector ns)"
  shows "holds ca (named_object ''Secret'' k) \<longleftrightarrow> k = nn ns SecretName"
proof -
  have "holds ca (named_object ''Secret'' k) \<longleftrightarrow>
      nn_namespace k = ns \<and> selected [FieldIs ''metadata.name'' SecretName] (named_object ''Secret'' k)"
    using holds_one [of ca "named_object ''Secret'' k" ns] assms
    by (simp add: named_object_def secret_selector_def)
  then show ?thesis by (cases k) (auto simp: named_object_def lookup_str_def)
qed

lemma holds_secret:
  "holds (mo_cache (getManager_options opts base a)) (named_object ''Secret'' k) \<longleftrightarrow>
     k = nn (op_clusterNamespace opts) SecretName"
  "holds (mo_cache (getHubManager_options opts base a)) (named_object ''Secret'' k) \<longleftrightarrow>
     k = nn (op_clusterNamespaceOnHub opts) SecretName"
  "holds (hub_cache_options opts) (named_object ''Secret'' k) \<longleftrightarrow> k = nn (op_clusterNamespaceOnHub opts) SecretName"
  by (rule holds_secret_one; simp add: getManager_options_def getHubManager_options_def hub_cache_options_def)+

lemma holds_policy:
  "holds (mo_cache (getManager_options opts base a)) (named_object PolicyKind (nn (op_clusterNamespace opts) n))"
  "holds (mo_cache (getHubManager_options opts base a)) (named_object PolicyKind (nn (op_clusterNamespaceOnHub opts) n))"
  "holds (mo_cache (gatekeeper_options opts base a)) (named_object PolicyKind (nn (op_clusterNamespace opts) n))"
  "holds (hub_cache_options opts) (named_object PolicyKind (nn (op_clusterNamespaceOnHub opts) n))"
  by (subst holds_default; simp add: options_defs hub_cache_options_def named_object_def PolicyKind_def)+

lemma holds_webhook:
  "holds (mo_cache (gatekeeper_options opts base a)) (named_object ''ValidatingWebhookConfiguration'' (nn [] n)) \<longleftrightarrow>
     n = GatekeeperWebhookName"
  by (subst holds_kind) (auto simp: options_defs named_object_def lookup_str_def)

end

section \<open>The managers do not get in each other's way\<close>

lemma build_manager_Some: "build_manager env m = Some m' \<Longrightarrow> m' = m"
  by (simp add: build_manager_def split: if_splits)

lemma main_managers_Some:
  assumes "main_managers env opts = Some (addrs, mgrs)"
  obtains a where "op_onMulticlusterhub opts" "getFreeLocalAddr (ms_listen env) = Inr a" "addrs = [a]"
      "map bm_options mgrs = [getManager_options opts (mgrOptionsBase opts) a]" "map bm_cluster mgrs = [Managed]"
  | a b where "\<not> op_onMulticlusterhub opts" "getFreeLocalAddr (ms_listen env) = Inr a" "getFreeLocalAddr (ms_hubListen env) = Inr b"
      "addrs = List.insert b [a]" "map bm_cluster mgrs = [Managed, Hub]"
      "map bm_options mgrs = [getManager_options opts (mgrOptionsBase opts) a,
         getHubManager_options opts (mgrOptionsBase opts) b]"
  using assms unfolding main_managers_def getManager_def getHubManager_def
  by (auto dest!: build_manager_Some split: sum.splits option.splits if_splits)

lemma options_fields:
  "mo_leaderElectionID (getManager_options opts base a) = ''governance-policy-framework-addon.open-cluster-management.io''"
  "mo_leaderElectionID (getHubManager_options opts base a) = ''governance-policy-framework-addon2.open-cluster-management.io''"
  "mo_leaderElectionID (gatekeeper_options opts base a) = ''governance-policy-framework-addon3.open-cluster-management.io''"
  "mo_metrics (getManager_options opts base a) = mo_metrics base"
  "mx_bindAddress (mo_metrics (getHubManager_options opts base a)) = ''0''"
  "mx_bindAddress (mo_metrics (gatekeeper_options opts base a)) = ''0''"
  "mx_bindAddress (mo_metrics (mgrOptionsBase opts)) = op_metricsAddr opts"
  "mo_healthProbeBindAddress (getManager_options opts base a) = a"
  "mo_healthProbeBindAddress (getHubManager_options opts base a) = a"
  by (simp_all add: options_defs mgrOptionsBase_def metricsOptions_def Let_def)

text \<open>C40. The managers of the process and the one of gatekeeper-sync have different leases for their leader
  election, only the first serves metrics (unless serving them is turned off with the address
  "0"), and the health proxy knows the address of each manager that was started.\<close>

theorem managers_independent:
  assumes "main_managers env opts = Some (addrs, mgrs)"
    and "all = map bm_options mgrs @ [gatekeeper_options opts (mgrOptionsBase opts) gkAddr]"
  shows "distinct (map mo_leaderElectionID all) \<and>
    map (\<lambda>mo. mx_bindAddress (mo_metrics mo)) all = op_metricsAddr opts # replicate (length mgrs) ''0'' \<and>
    set addrs = mo_healthProbeBindAddress ` set (map bm_options mgrs)"
  using assms(1)
proof (cases rule: main_managers_Some)
  case (1 a)
  then have "length (map bm_cluster mgrs) = length [Managed]" by (simp only:)
  then have "length mgrs = 1" by simp
  with 1 show ?thesis by (simp add: assms(2) options_fields)
next
  case (2 a b)
  then have "length (map bm_cluster mgrs) = length [Managed, Hub]" by (simp only:)
  then have "length mgrs = 2" by simp
  with 2 show ?thesis by (auto simp: assms(2) options_fields numeral_2_eq_2)
qed

definition sample_managers :: managers_env where
  "sample_managers = (let ok = \<lparr>me_newManager = None, me_configChecker = None, me_healthz = None, me_readyz = None\<rparr>
     in \<lparr>ms_listen = \<lparr>le_resolve = None, le_listen = Inr 1001\<rparr>,
          ms_hubListen = \<lparr>le_resolve = None, le_listen = Inr 1002\<rparr>, ms_hubCertFile = [],
          ms_managed = ok, ms_hub = ok\<rparr>)"

theorem managers_independent_witness:
  "map (\<lambda>m. mx_bindAddress (mo_metrics (bm_options m))) (snd (the (main_managers sample_managers ProcessFlags))) =
     [''localhost:8383'', ''0'']"
proof -
  have some: "main_managers sample_managers ProcessFlags \<noteq> None" by code_simp
  have two: "length (snd (the (main_managers sample_managers ProcessFlags))) = 2" by code_simp
  from some obtain addrs mgrs where m: "main_managers sample_managers ProcessFlags = Some (addrs, mgrs)" by auto
  with two have "length mgrs = 2" by simp
  then show ?thesis
    using managers_independent [OF m refl, of "''127.0.0.1:1003''"] m
    by (auto simp: ProcessFlags_def numeral_2_eq_2 comp_def)
qed

end
