(* ===== verification/Startup.thy ===== *)
theory Startup
  imports SpecSync StatusSync SecretSync GatekeeperSync TemplateSync Uninstall Managers
begin

text \<open>
  The start of the program, \<^verbatim>\<open>main.go\<close>, as far as it decides something: which components run and
  with which settings, what the cache of events keeps for status-sync, the health proxy that
  combines the managers, and the supervision of the manager of gatekeeper-sync, which runs only
  while Gatekeeper is installed. The managers, caches and listeners are of \<^verbatim>\<open>controller-runtime\<close>
  and \<^verbatim>\<open>net/http\<close>; what they return is an argument of the definitions.
\<close>

section \<open>The cache of events\<close>

text \<open>\<^verbatim>\<open>getManager\<close> caches the events of the cluster namespace that are about policies and were not
  written by the recorders of the controllers, and of these only the fields that are used.\<close>

definition event_selected :: "string \<Rightarrow> kevent \<Rightarrow> bool" where
  "event_selected clusterNamespace ev \<longleftrightarrow>
     ev_namespace ev = clusterNamespace \<and> ref_kind (ev_involved ev) = ''Policy'' \<and>
     ev_reason ev \<noteq> ''PolicySpecSync'' \<and> ev_reason ev \<noteq> ''PolicyTemplateSync'' \<and>
     ev_reason ev \<noteq> ''PolicyStatusSync''"

definition event_transform :: "kevent \<Rightarrow> kevent" where
  "event_transform ev =
     \<lparr>ev_name = ev_name ev, ev_namespace = ev_namespace ev, ev_involved = ev_involved ev,
      ev_reason = ev_reason ev, ev_message = ev_message ev, ev_component = [], ev_host = [],
      ev_first = zero_time, ev_last = ev_last ev, ev_count = 0, ev_action = [],
      ev_reportingController = [], ev_reportingInstance = [], ev_related = None, ev_type = []\<rparr>"

definition event_cache :: "string \<Rightarrow> kevent list \<Rightarrow> kevent list" where
  "event_cache clusterNamespace evs = map event_transform (filter (event_selected clusterNamespace) evs)"

text \<open>The key by which the broadcaster recognises repeated events.\<close>

definition SpamKeyFunc :: "kevent \<Rightarrow> string" where
  "SpamKeyFunc ev =
     Join [ev_component ev, ev_host ev, ref_kind (ev_involved ev), ref_namespace (ev_involved ev),
       ref_name (ev_involved ev), ref_uid (ev_involved ev), ref_apiVersion (ev_involved ev),
       ev_reason ev, ev_message ev] []"

section \<open>The controllers and their settings\<close>

record controllers =
  co_status :: status_reconciler
  co_template :: template_reconciler
  co_spec :: "spec_reconciler option"
  co_secret :: "secret_reconciler option"

text \<open>The host name is empty when it cannot be read. The channels between spec-sync and status-sync
  exist when there is a hub manager, which is when the controller does not run on the hub.\<close>

definition addControllers :: "syncer_options \<Rightarrow> string \<Rightarrow> controllers" where
  "addControllers opts hostname =
     (let hasHubMgr = (\<not> op_onMulticlusterhub opts);
          statusReconciler = \<lparr>sr_clusterNamespaceOnHub = op_clusterNamespaceOnHub opts,
            sr_hasSpecSyncRequests = hasHubMgr, sr_onMulticlusterhub = op_onMulticlusterhub opts\<rparr>;
          templateReconciler = \<lparr>tr_clusterNamespace = op_clusterNamespace opts,
            tr_instanceName = hostname, tr_disableGkSync = op_disableGkSync opts\<rparr>
      in if op_onMulticlusterhub opts
         then \<lparr>co_status = statusReconciler, co_template = templateReconciler, co_spec = None,
               co_secret = None\<rparr>
         else \<lparr>co_status = statusReconciler, co_template = templateReconciler,
               co_spec = Some \<lparr>ss_targetNamespace = op_clusterNamespace opts\<rparr>,
               co_secret = Some \<lparr>se_targetNamespace = op_clusterNamespace opts\<rparr>\<rparr>)"

text \<open>The library calls of \<^verbatim>\<open>addControllers\<close> that can fail: the cache and the client of the hub when there is no
  manager of it, the two recorders, the two watchers, and the four set-ups.\<close>

record controllers_env =
  ce_hubCache :: "gerr option"
  ce_hubClient :: "gerr option"
  ce_hubRecorder :: "gerr option"
  ce_statusWatcher :: "gerr option"
  ce_statusSetup :: "gerr option"
  ce_templateWatcher :: "gerr option"
  ce_templateSetup :: "gerr option"
  ce_managedRecorder :: "gerr option"
  ce_specSetup :: "gerr option"
  ce_secretSetup :: "gerr option"

text \<open>What is started with \<^verbatim>\<open>go\<close> or \<^verbatim>\<open>wg.Go\<close> by \<^verbatim>\<open>main\<close> and by \<^verbatim>\<open>addControllers\<close>.\<close>

datatype component =
    LeaseUpdater string
  | GatekeeperSupervisor
  | HubCache
  | StatusDepWatcher
  | TemplateDepWatcher
  | HealthProxy
  | ManagedManager
  | UninstallWatcher string
  | HubManager

text \<open>The calls in their order, each with what is started once it has succeeded; the first error ends the
  process.\<close>

definition addControllers_calls :: "controllers_env \<Rightarrow> syncer_options \<Rightarrow> (gerr option \<times> component list) list" where
  "addControllers_calls ce opts =
     (if op_onMulticlusterhub opts then [(ce_hubCache ce, [HubCache]), (ce_hubClient ce, [])] else [])
     @ [(ce_hubRecorder ce, []), (ce_statusWatcher ce, [StatusDepWatcher]), (ce_statusSetup ce, []),
        (ce_templateWatcher ce, [TemplateDepWatcher]), (ce_templateSetup ce, [])]
     @ (if op_onMulticlusterhub opts then []
        else [(ce_managedRecorder ce, []), (ce_specSetup ce, []), (ce_secretSetup ce, [])])"

text \<open>The parts of a start one after the other: a part starts components, or it is absent and the process
  exits there. The result is what was started, and whether the process exits then.\<close>

fun start_parts :: "component list option list \<Rightarrow> component list \<times> bool" where
  "start_parts [] = ([], False)"
| "start_parts (None # parts) = ([], True)"
| "start_parts (Some comps # parts) = (case start_parts parts of (later, exits) \<Rightarrow> (comps @ later, exits))"

definition call_part :: "gerr option \<times> component list \<Rightarrow> component list option" where
  "call_part c = (case c of (None, comps) \<Rightarrow> Some comps | (Some err, comps) \<Rightarrow> None)"

section \<open>Before main\<close>

text \<open>The two \<^verbatim>\<open>init\<close> functions: the types go into two schemes, the counters of template-sync into the registry
  of metrics. A type that cannot be added, or a counter that cannot be registered for another reason than
  that it is there already, is a panic.\<close>

definition scheme_types :: "(string \<times> string) list" where
  "scheme_types =
     [(''scheme'', ''k8s.io/client-go/kubernetes''), (''eventsScheme'', ''k8s.io/api/core/v1''),
      (''scheme'', ''policy.open-cluster-management.io/v1''), (''eventsScheme'', ''policy.open-cluster-management.io/v1''),
      (''scheme'', ''apiextensions.k8s.io/v1''), (''scheme'', ''templates.gatekeeper.sh/v1''),
      (''scheme'', ''templates.gatekeeper.sh/v1beta1''), (''scheme'', ''k8s.io/api/apps/v1'')]"

datatype register_error = AlreadyRegistered | OtherRegisterError gerr

definition init_scheme :: "(string \<times> string \<Rightarrow> gerr option) \<Rightarrow> unit outcome" where
  "init_scheme addToScheme = (if list_all (\<lambda>t. addToScheme t = None) scheme_types then Ok () else Panic)"

definition registers :: "register_error option \<Rightarrow> bool" where
  "registers regErr \<longleftrightarrow> regErr = None \<or> regErr = Some AlreadyRegistered"

definition init_metrics :: "(string \<Rightarrow> register_error option) \<Rightarrow> unit outcome" where
  "init_metrics register =
     (if \<not> registers (register ''policy_system_errors_total'') then Panic
      else if \<not> registers (register ''policy_user_errors_total'') then Panic
      else Ok ())"

section \<open>What is started\<close>

text \<open>The arguments include the name of the program.\<close>

datatype run_mode = TriggerUninstall "string list" | RunControllers

definition main_mode :: "string list \<Rightarrow> run_mode" where
  "main_mode args =
     (if length args \<ge> 2 \<and> args ! 1 = ''trigger-uninstall'' then TriggerUninstall (drop 2 args)
      else RunControllers)"

text \<open>What the libraries answer: errors of building the logger, of reading the two configurations and
  of adding the controllers, what building the managers depends on and what the \<^verbatim>\<open>init\<close> functions are answered; the content of the namespace file, the version of the server, and \<^verbatim>\<open>semver.Compare(v, "v1.16.0") >= 0\<close>.\<close>

record startup_env =
  su_environment :: environment
  su_logger :: "gerr option"
  su_managers :: managers_env
  su_controllers :: controllers_env
  su_addToScheme :: "string \<times> string \<Rightarrow> gerr option"
  su_register :: "string \<Rightarrow> register_error option"
  su_hubConfig :: "gerr option"
  su_managedConfig :: "gerr option"
  su_namespaceFile :: "gerr + string"
  su_serverVersion :: "gerr + string"
  su_semver116 :: "string \<Rightarrow> bool"

text \<open>An absent value is \<^verbatim>\<open>os.Exit(1)\<close>, or the panic for want of a logger. The clients that are made with
  \<^verbatim>\<open>NewForConfigOrDie\<close> are taken to be made.\<close>

definition start_lease :: "startup_env \<Rightarrow> syncer_options \<Rightarrow> component list option" where
  "start_lease su opts =
     (if op_enableLease opts
      then (case GetOperatorNamespace (su_environment su) (su_namespaceFile su) of
              Inl err \<Rightarrow> if err = ErrNoNamespace \<or> err = ErrRunLocal then Some [] else None
            | Inr operatorNs \<Rightarrow> Some [LeaseUpdater operatorNs])
      else Some [])"

definition start_gatekeeper :: "startup_env \<Rightarrow> syncer_options \<Rightarrow> component list option" where
  "start_gatekeeper su opts =
     (if \<not> op_disableGkSync opts
      then (case su_serverVersion su of
              Inl err \<Rightarrow> None
            | Inr v \<Rightarrow> if su_semver116 su v then Some [GatekeeperSupervisor] else Some [])
      else Some [])"

definition start_watcher :: "startup_env \<Rightarrow> component list option" where
  "start_watcher su =
     (case GetOperatorNamespace (su_environment su) (su_namespaceFile su) of
        Inl err \<Rightarrow>
          (if err = ErrRunLocal then Some [UninstallWatcher ''open-cluster-management-agent-addon'']
           else None)
      | Inr operatorNs \<Rightarrow> Some [UninstallWatcher operatorNs])"

text \<open>The parts of \<^verbatim>\<open>main\<close> in their order: the set-up of the process, the lease, the managers, the supervisor of
  gatekeeper-sync, the controllers, the health proxy and the manager of the managed cluster, the uninstall
  watcher, the manager of the hub.\<close>

definition start_controllers ::
  "startup_env \<Rightarrow> gerr option \<times> syncer_options \<Rightarrow> component list \<times> bool" where
  "start_controllers su parsed =
     (case parsed of (flagErr, opts) \<Rightarrow>
        start_parts
          ([if init_scheme (su_addToScheme su) = Ok () \<and> init_metrics (su_register su) = Ok () \<and> su_logger su = None \<and>
               flagErr = None \<and> su_hubConfig su = None \<and> su_managedConfig su = None then Some [] else None,
            start_lease su opts,
            if main_managers (su_managers su) opts = None then None else Some [],
            start_gatekeeper su opts]
           @ map call_part (addControllers_calls (su_controllers su) opts)
           @ [Some [HealthProxy, ManagedManager], start_watcher su,
              Some (if \<not> op_onMulticlusterhub opts then [HubManager] else [])]))"

section \<open>The health proxy\<close>

text \<open>The answer of a manager to a probe: the request could not be built, or not be sent, or a
  status code with a body that may be unreadable.\<close>

datatype probe = BadRequest string | NoResponse string | Response nat "string option"

text \<open>\<^verbatim>\<open>http.Error\<close>: the code and the text with a newline.\<close>

definition http_Error :: "string \<Rightarrow> nat \<Rightarrow> nat \<times> string" where
  "http_Error text code = (code, text @ [CHR 0x0A])"

text \<open>The handler, from the answers of the managers at the addresses; its own answer is taken to be
  written.\<close>

fun health_handler :: "(string \<Rightarrow> probe) \<Rightarrow> string list \<Rightarrow> nat \<times> string" where
  "health_handler ask [] = (200, ''ok'')"
| "health_handler ask (address # addresses) =
     (case ask address of
        BadRequest err \<Rightarrow> http_Error (''manager: '' @ err) 500
      | NoResponse err \<Rightarrow> http_Error (''manager: '' @ err) 500
      | Response code body \<Rightarrow>
          (if code \<noteq> 200
           then (case body of None \<Rightarrow> http_Error ''not ok'' code | Some text \<Rightarrow> http_Error text code)
           else health_handler ask addresses))"

text \<open>One run of the manager of gatekeeper-sync: the results of its steps, in order.\<close>

record gk_manager =
  gm_listen :: listen_env
  gm_newManager :: "gerr option"
  gm_healthz :: "gerr option"
  gm_readyz :: "gerr option"
  gm_watcher :: "gerr option"
  gm_setup :: "gerr option"
  gm_start :: "gerr option"

text \<open>The error, the health addresses while the manager runs (if it comes to that), and after.
  The addresses are the keys of a map, each once.\<close>

definition runGatekeeperSyncManager ::
  "gk_manager \<Rightarrow> string list \<Rightarrow> gerr option \<times> string list option \<times> string list" where
  "runGatekeeperSyncManager gm healthAddresses =
     (case getFreeLocalAddr (gm_listen gm) of
        Inl err \<Rightarrow> (Some err, None, healthAddresses)
      | Inr healthAddress \<Rightarrow>
          (case List.find (\<lambda>e. e \<noteq> None)
                 [gm_newManager gm, gm_healthz gm, gm_readyz gm, gm_watcher gm, gm_setup gm] of
             Some err \<Rightarrow> (err, None, healthAddresses)
           | None \<Rightarrow>
               (let running = List.insert healthAddress healthAddresses
                in (gm_start gm, Some running, removeAll healthAddress running))))"

section \<open>The supervision of gatekeeper-sync\<close>

text \<open>The loop that keeps the manager running until its context is done, as one pass of \<^const>\<open>retry\<close>;
  \<open>run\<close> is a run of the manager, which blocks until the manager stops.\<close>

definition gatekeeper_pass ::
  "('c \<Rightarrow> bool) \<Rightarrow> ('c \<Rightarrow> gerr option \<times> 'c) \<Rightarrow> (nat \<Rightarrow> 'c \<Rightarrow> unit \<times> 'c) \<Rightarrow> 'c world
     \<Rightarrow> unit pass \<times> 'c world" where
  "gatekeeper_pass done run wait w =
     (if done (w_env w) then (Return (), w)
      else (case call run w of
              (None, w) \<Rightarrow> (Continue, w)
            | (Some err, w) \<Rightarrow> (case act (Slept 1) (wait 1) w of (_, w) \<Rightarrow> (Continue, w))))"

datatype watch_type = Added | Modified | Deleted | OtherWatch

datatype select_result = CtxDone | WatcherDone | CrdEvent watch_type

text \<open>What one round of the supervisor is given: the number of definitions that were listed, the
  error of starting the watch, and the channel that was ready.\<close>

record sv_round =
  rd_list :: "gerr + nat"
  rd_watch :: "gerr option"
  rd_select :: select_result

text \<open>The variables of the supervisor. A context is a number; \<open>sv_loops\<close> are the contexts of the
  loops that were started and \<open>sv_cancelled\<close> the contexts that were cancelled.\<close>

record supervisor =
  sv_watching :: bool
  sv_running :: bool
  sv_installed :: bool
  sv_ctx :: nat
  sv_loops :: "nat list"
  sv_cancelled :: "nat list"
  sv_returned :: bool

definition sv_init :: supervisor where
  "sv_init = \<lparr>sv_watching = False, sv_running = False, sv_installed = False, sv_ctx = 0,
     sv_loops = [], sv_cancelled = [], sv_returned = False\<rparr>"

definition sv_watch :: "sv_round \<Rightarrow> supervisor \<Rightarrow> supervisor option" where
  "sv_watch rd sv =
     (if sv_watching sv then Some sv
      else (case rd_list rd of
              Inl err \<Rightarrow> None
            | Inr items \<Rightarrow>
                (case rd_watch rd of
                   Some err \<Rightarrow> None
                 | None \<Rightarrow> Some (sv\<lparr>sv_watching := True, sv_installed := (items > 0)\<rparr>))))"

definition sv_start :: "supervisor \<Rightarrow> supervisor" where
  "sv_start sv =
     (if sv_installed sv \<and> \<not> sv_running sv
      then sv\<lparr>sv_running := True, sv_loops := sv_loops sv @ [sv_ctx sv]\<rparr> else sv)"

definition sv_stop :: "supervisor \<Rightarrow> supervisor" where
  "sv_stop sv =
     (if \<not> sv_installed sv \<and> sv_running sv
      then sv\<lparr>sv_running := False, sv_cancelled := sv_ctx sv # sv_cancelled sv, sv_ctx := Suc (sv_ctx sv)\<rparr>
      else sv)"

text \<open>A cancelled parent cancels every context that was derived from it.\<close>

fun sv_select :: "select_result \<Rightarrow> supervisor \<Rightarrow> supervisor" where
  "sv_select CtxDone sv =
     sv\<lparr>sv_cancelled := sv_ctx sv # sv_loops sv @ sv_cancelled sv, sv_returned := True\<rparr>"
| "sv_select WatcherDone sv = sv\<lparr>sv_watching := False\<rparr>"
| "sv_select (CrdEvent Added) sv = sv\<lparr>sv_installed := True\<rparr>"
| "sv_select (CrdEvent Deleted) sv = sv\<lparr>sv_installed := False\<rparr>"
| "sv_select (CrdEvent _) sv = sv"

definition manageGatekeeperSyncManager_round :: "sv_round \<Rightarrow> supervisor \<Rightarrow> supervisor" where
  "manageGatekeeperSyncManager_round rd sv =
     (case sv_watch rd sv of
        None \<Rightarrow> sv
      | Some sv \<Rightarrow> sv_select (rd_select rd) (sv_stop (sv_start sv)))"

fun manageGatekeeperSyncManager :: "sv_round list \<Rightarrow> supervisor \<Rightarrow> supervisor" where
  "manageGatekeeperSyncManager [] sv = sv"
| "manageGatekeeperSyncManager (rd # rds) sv =
     (if sv_returned sv then sv
      else manageGatekeeperSyncManager rds (manageGatekeeperSyncManager_round rd sv))"

section \<open>The reachable states of the supervisor\<close>

inductive sv_reachable :: "supervisor \<Rightarrow> bool" where
  start: "sv_reachable sv_init"
| round: "sv_reachable sv \<Longrightarrow> \<not> sv_returned sv \<Longrightarrow> sv_reachable (manageGatekeeperSyncManager_round rd sv)"

inductive_cases sv_reachable_cases: "sv_reachable sv"

text \<open>The loops whose context is not cancelled.\<close>

definition sv_live :: "supervisor \<Rightarrow> nat list" where
  "sv_live sv = filter (\<lambda>c. c \<notin> set (sv_cancelled sv)) (sv_loops sv)"

definition sv_inv :: "supervisor \<Rightarrow> bool" where
  "sv_inv sv \<longleftrightarrow>
     (if sv_returned sv then sv_live sv = []
      else sv_live sv = (if sv_running sv then [sv_ctx sv] else []) \<and>
        (\<forall>c\<in>set (sv_cancelled sv). c < sv_ctx sv) \<and> (\<forall>c\<in>set (sv_loops sv). c \<le> sv_ctx sv) \<and>
        (sv_ctx sv \<in> set (sv_loops sv) \<longrightarrow> sv_running sv))"

lemma sv_inv_start: "sv_inv sv \<Longrightarrow> \<not> sv_returned sv \<Longrightarrow> sv_inv (sv_start sv)"
  by (auto simp: sv_inv_def sv_start_def sv_live_def)

lemma sv_inv_stop:
  assumes "sv_inv sv" and "\<not> sv_returned sv"
  shows "sv_inv (sv_stop sv)"
proof (cases "\<not> sv_installed sv \<and> sv_running sv")
  case True
  have live: "filter (\<lambda>c. c \<notin> set (sv_cancelled sv)) (sv_loops sv) = [sv_ctx sv]"
    using assms True by (simp add: sv_inv_def sv_live_def)
  have "filter (\<lambda>c. c \<noteq> sv_ctx sv \<and> c \<notin> set (sv_cancelled sv)) (sv_loops sv) =
      filter (\<lambda>c. c \<noteq> sv_ctx sv) (filter (\<lambda>c. c \<notin> set (sv_cancelled sv)) (sv_loops sv))"
    by (simp add: conj_commute)
  also have "\<dots> = []" by (simp add: live)
  finally show ?thesis
    using assms True by (auto simp: sv_inv_def sv_stop_def sv_live_def less_Suc_eq le_Suc_eq)
qed (use assms in \<open>auto simp: sv_stop_def\<close>)

lemma sv_inv_select: "sv_inv sv \<Longrightarrow> \<not> sv_returned sv \<Longrightarrow> sv_inv (sv_select s sv)"
  by (cases "(s, sv)" rule: sv_select.cases) (auto simp: sv_inv_def sv_live_def filter_empty_conv)

lemma sv_inv_watch: "sv_inv sv \<Longrightarrow> sv_watch rd sv = Some sv' \<Longrightarrow> sv_inv sv'"
  by (auto simp: sv_inv_def sv_live_def sv_watch_def split: if_splits sum.splits option.splits)

lemma sv_returned_simps [simp]:
  "sv_returned (sv_start sv) = sv_returned sv" "sv_returned (sv_stop sv) = sv_returned sv"
  by (simp_all add: sv_start_def sv_stop_def)

lemma sv_watch_returned: "sv_watch rd sv = Some sv' \<Longrightarrow> sv_returned sv' = sv_returned sv"
  by (auto simp: sv_watch_def split: if_splits sum.splits option.splits)

lemma sv_reachable_inv: "sv_reachable sv \<Longrightarrow> sv_inv sv"
proof (induction rule: sv_reachable.induct)
  case start
  show ?case by (simp add: sv_init_def sv_inv_def sv_live_def)
next
  case (round sv rd)
  then show ?case
    by (auto simp: manageGatekeeperSyncManager_round_def split: option.splits
        intro!: sv_inv_select sv_inv_stop sv_inv_start elim: sv_inv_watch dest: sv_watch_returned)
qed

lemma sv_reachable_run:
  "sv_reachable sv \<Longrightarrow> sv_reachable (manageGatekeeperSyncManager rds sv)"
  by (induction rds arbitrary: sv) (auto intro: sv_reachable.round)

text \<open>After starting and stopping, a loop runs exactly when Gatekeeper is installed.\<close>

lemma sv_running_installed [simp]: "sv_running (sv_stop (sv_start sv)) = sv_installed sv"
  by (auto simp: sv_stop_def sv_start_def)

lemma sv_select_live:
  "s \<noteq> CtxDone \<Longrightarrow> sv_live (sv_select s sv) = sv_live sv \<and> sv_returned (sv_select s sv) = sv_returned sv"
  by (cases "(s, sv)" rule: sv_select.cases) (simp_all add: sv_live_def)

lemma sv_round_live:
  assumes "sv_inv sv" and "\<not> sv_returned sv" and "sv_watching sv" and "rd_select rd \<noteq> CtxDone"
  shows "length (sv_live (manageGatekeeperSyncManager_round rd sv)) = (if sv_installed sv then 1 else 0)"
proof -
  have "sv_inv (sv_stop (sv_start sv))" using assms by (intro sv_inv_stop sv_inv_start) simp_all
  then show ?thesis
    using assms(2,3) sv_select_live [OF assms(4)]
    by (simp add: manageGatekeeperSyncManager_round_def sv_watch_def sv_inv_def)
qed

text \<open>The loop that keeps the manager running returns when its context is done after a deadline,
  provided that every run of the manager takes time.\<close>

lemma gatekeeper_loop_stops:
  fixes deadline :: nat
  assumes "\<And>c. deadline \<le> elapsed c \<Longrightarrow> done c"
    and "\<And>c x c'. run c = (x, c') \<Longrightarrow> elapsed c < elapsed c'"
    and "\<And>n c x c'. wait n c = (x, c') \<Longrightarrow> elapsed c \<le> elapsed c'"
  shows "\<exists>w'. retry (gatekeeper_pass done run wait) w = Some ((), w')"
proof -
  have "bounded_loop (gatekeeper_pass done run wait) (\<lambda>w. deadline - elapsed (w_env w))"
  proof
    fix w w'
    assume pass: "gatekeeper_pass done run wait w = (Continue, w')"
    then have "\<not> done (w_env w)" by (auto simp: gatekeeper_pass_def)
    then have "elapsed (w_env w) < deadline" using assms(1) by (meson not_less)
    moreover have "elapsed (w_env w) < elapsed (w_env w')"
      using pass assms(2,3)
      by (fastforce simp: gatekeeper_pass_def call_def act_def split: if_splits prod.splits option.splits)
    ultimately show "deadline - elapsed (w_env w') < deadline - elapsed (w_env w)" by simp
  qed
  from bounded_loop.returns [OF this] show ?thesis by fastforce
qed

section \<open>Properties\<close>

text \<open>The settings fit together: unless the controller runs on the hub, status-sync looks up the
  original of a copy that spec-sync made under the key of the request that spec-sync had.\<close>

lemma wired_hub_key:
  assumes "\<not> op_onMulticlusterhub opts"
  shows "\<exists>spec. co_spec (addControllers opts h) = Some spec \<and>
    hub_key (co_status (addControllers opts h)) (nn (ss_targetNamespace spec) name) =
      nn (op_clusterNamespaceOnHub opts) name"
  using assms by (simp add: addControllers_def hub_key_def Let_def)

text \<open>A stopped manager leaves the health addresses as they were before it ran.\<close>

lemma runGatekeeperSyncManager_addresses:
  assumes "runGatekeeperSyncManager gm as = (err, running, after)" and "getFreeLocalAddr (gm_listen gm) = Inr a"
    and "a \<notin> set as"
  shows "after = as \<and> (\<forall>rs. running = Some rs \<longrightarrow> set rs = insert a (set as))"
  using assms by (auto simp: runGatekeeperSyncManager_def Let_def split: option.splits)

lemma recorder_reasons:
  "reason_template ''PolicySpecSync'' = None" "reason_template ''PolicyTemplateSync'' = None"
  "reason_template ''PolicyStatusSync'' = None"
  by code_simp+

lemma event_transform_read [simp]:
  "ev_reason (event_transform ev) = ev_reason ev"
  "ev_involved (event_transform ev) = ev_involved ev"
  "history_of_event (event_transform ev) = history_of_event ev"
  by (simp_all add: event_transform_def history_of_event_def)

context object_cache
begin

lemma holds_event_selected:
  "holds (mo_cache (getManager_options opts base a)) (event_object ev) \<longleftrightarrow>
     event_selected (op_clusterNamespace opts) ev"
  unfolding holds_event
  by (auto simp: event_selected_def event_selector_def event_object_def lookup_str_def)

end

text \<open>C23. The caches hold what the controllers read: with a cache that does what its options say, the
  managed cache has every policy that template-sync, status-sync and spec-sync look up, exactly the events
  that status-sync is to see and, of the secrets, exactly the encryption key that secret-sync writes; the
  cache of the hub, with a manager or without, has every original that status-sync and spec-sync look up
  and the same secret; and the cache of gatekeeper-sync has the policies and the webhook configuration that
  it reads.\<close>

theorem caches_suffice:
  assumes "object_cache holds" and "co = addControllers opts host"
    and "managed = mo_cache (getManager_options opts base a)"
    and "hub = mo_cache (getHubManager_options opts base b)"
    and "gatekeeper = mo_cache (gatekeeper_options opts base g)"
  shows "holds managed (named_object PolicyKind (nn (tr_clusterNamespace (co_template co)) n)) \<and>
    holds hub (named_object PolicyKind (hub_key (co_status co) k)) \<and>
    holds (hub_cache_options opts) (named_object PolicyKind (hub_key (co_status co) k)) \<and>
    holds gatekeeper (named_object PolicyKind (nn (tr_clusterNamespace (co_template co)) n)) \<and>
    holds gatekeeper (named_object ''ValidatingWebhookConfiguration'' (nn [] GatekeeperWebhookName)) \<and>
    (holds managed (event_object ev) \<longleftrightarrow> event_selected (op_clusterNamespace opts) ev) \<and>
    (case co_spec co of None \<Rightarrow> True | Some r \<Rightarrow> holds managed (named_object PolicyKind (nn (ss_targetNamespace r) n))) \<and>
    (case co_secret co of None \<Rightarrow> True
     | Some s \<Rightarrow> holds managed (named_object ''Secret'' k) \<longleftrightarrow> k = nn (se_targetNamespace s) SecretName) \<and>
    (holds hub (named_object ''Secret'' k) \<longleftrightarrow> k = nn (op_clusterNamespaceOnHub opts) SecretName) \<and>
    (holds (hub_cache_options opts) (named_object ''Secret'' k) \<longleftrightarrow> k = nn (op_clusterNamespaceOnHub opts) SecretName)"
proof -
  have co: "tr_clusterNamespace (co_template co) = op_clusterNamespace opts"
    "hub_key (co_status co) k = nn (op_clusterNamespaceOnHub opts) (nn_name k)"
    "co_spec co = Some r \<Longrightarrow> ss_targetNamespace r = op_clusterNamespace opts"
    "co_secret co = Some s \<Longrightarrow> se_targetNamespace s = op_clusterNamespace opts" for r s
    by (auto simp: assms(2) addControllers_def hub_key_def Let_def split: if_splits)
  show ?thesis
    using co by (auto simp: assms(3-5) object_cache.holds_event_selected [OF assms(1)] object_cache.holds_policy [OF assms(1)] object_cache.holds_secret [OF assms(1)]
        object_cache.holds_webhook [OF assms(1)] split: option.split)
qed

theorem caches_suffice_witness:
  "cache_holds (mo_cache (getManager_options ProcessFlags (mgrOptionsBase ProcessFlags) ''127.0.0.1:1001''))
     (named_object PolicyKind (nn (tr_clusterNamespace (co_template (addControllers ProcessFlags ''host''))) ''pol''))"
  using caches_suffice [OF documented_cache.object_cache_axioms refl refl refl refl] by blast

text \<open>C39. The restricted cache of events is transparent for status-sync: reading the cached events
  of a policy, stripped and without those of the recorders, gives the same history as reading
  every event of the cluster. It relies on the events with the identifier of a policy being
  about a policy in the cluster namespace.\<close>

theorem event_cache_transparent:
  assumes "\<And>ev. ev \<in> set evs \<Longrightarrow> ref_uid (ev_involved ev) = uid \<Longrightarrow>
      ref_kind (ev_involved ev) = ''Policy'' \<and> ev_namespace ev = ns"
  shows "events_for_policy uid (event_cache ns evs) m = events_for_policy uid evs m"
  using assms
proof (induction evs arbitrary: m)
  case Nil
  show ?case by (simp add: event_cache_def)
next
  case (Cons ev evs)
  then have IH: "events_for_policy uid (event_cache ns evs) m = events_for_policy uid evs m" for m by simp
  show ?case
  proof (cases "event_selected ns ev")
    case True
    then show ?thesis using IH by (simp add: event_cache_def split: option.splits)
  next
    case False
    then have "reason_template (ev_reason ev) = None \<or> ref_uid (ev_involved ev) \<noteq> uid"
      using Cons.prems [of ev] recorder_reasons by (auto simp: event_selected_def)
    with False IH show ?thesis by (auto simp: event_cache_def split: option.splits)
  qed
qed

definition su_event :: "string \<Rightarrow> kevent" where
  "su_event rsn = compliance_event \<lparr>es_clusterNamespace = ''c1'', es_instanceName = ''me'', es_controllerName = ''x''\<rparr>
     None \<lparr>or_apiVersion = ''v1'', or_kind = ''Policy'', or_name = ''pol'', or_uid = ''u1'',
       or_controller = None, or_blockOwnerDeletion = None\<rparr> rsn ''m'' Compliant 5"

theorem event_cache_transparent_witness:
  "events_for_policy ''u1'' (event_cache ''c1'' [su_event ''PolicySpecSync'', su_event ''policy: c1/t'']) (\<lambda>_. []) =
   events_for_policy ''u1'' [su_event ''PolicySpecSync'', su_event ''policy: c1/t''] (\<lambda>_. [])"
  by (rule event_cache_transparent) (auto simp: su_event_def compliance_event_def)

text \<open>The health proxy answers that all is well exactly when every manager does, in whatever order
  the map of the addresses is ranged over.\<close>

theorem health_proxy_combines:
  "(fst (health_handler ask addresses) = 200) =
   list_all (\<lambda>a. case ask a of Response code _ \<Rightarrow> code = 200 | _ \<Rightarrow> False) addresses"
  by (induction addresses) (auto simp: http_Error_def split: probe.splits option.splits)

text \<open>C24. The supervisor runs gatekeeper-sync while Gatekeeper is installed: in every reachable state at
  most one loop is live, none after the supervisor has returned, and a round that has a watch
  leaves a loop running exactly when the definition of the constraint templates was known to
  exist before it.\<close>

theorem supervisor_follows_gatekeeper:
  assumes "sv_reachable sv"
  shows "length (sv_live sv) \<le> 1 \<and> (sv_returned sv \<longrightarrow> sv_live sv = []) \<and>
    (\<not> sv_returned sv \<longrightarrow> sv_watching sv \<longrightarrow> rd_select rd \<noteq> CtxDone \<longrightarrow>
       length (sv_live (manageGatekeeperSyncManager_round rd sv)) = (if sv_installed sv then 1 else 0))"
proof -
  have inv: "sv_inv sv" by (rule sv_reachable_inv [OF assms])
  then have "length (sv_live sv) \<le> 1" "sv_returned sv \<longrightarrow> sv_live sv = []"
    by (simp_all add: sv_inv_def split: if_splits)
  then show ?thesis using sv_round_live [OF inv] by blast
qed

definition su_rounds :: "sv_round list" where
  "su_rounds =
     [\<lparr>rd_list = Inr 1, rd_watch = None, rd_select = CrdEvent Deleted\<rparr>,
      \<lparr>rd_list = Inr 0, rd_watch = None, rd_select = CrdEvent Added\<rparr>]"

lemma su_rounds_state:
  "\<not> sv_returned (manageGatekeeperSyncManager su_rounds sv_init) \<and>
   sv_watching (manageGatekeeperSyncManager su_rounds sv_init) \<and>
   sv_installed (manageGatekeeperSyncManager su_rounds sv_init)"
  by code_simp

theorem supervisor_follows_gatekeeper_witness:
  "length (sv_live (manageGatekeeperSyncManager_round \<lparr>rd_list = Inr 0, rd_watch = None, rd_select = WatcherDone\<rparr>
     (manageGatekeeperSyncManager su_rounds sv_init))) = 1"
  using supervisor_follows_gatekeeper [OF sv_reachable_run [OF sv_reachable.start], of su_rounds
      "\<lparr>rd_list = Inr 0, rd_watch = None, rd_select = WatcherDone\<rparr>"] su_rounds_state
  by simp

text \<open>C38. The supervisor does not return once its watch is gone and the definitions cannot be listed,
  as is the case after the context is done: it retries without looking at the context. The state
  is reached when the watch ends with the context and the end of the watch is selected first.\<close>

theorem supervisor_never_returns:
  assumes "\<not> sv_watching sv" and "\<not> sv_returned sv"
    and "\<And>rd. rd \<in> set rds \<Longrightarrow> \<exists>err. rd_list rd = Inl err"
  shows "manageGatekeeperSyncManager rds sv = sv"
  using assms
proof (induction rds)
  case (Cons rd rds)
  then obtain err where "rd_list rd = Inl err" by fastforce
  with Cons show ?case by (simp add: manageGatekeeperSyncManager_round_def sv_watch_def)
qed simp

definition su_cancelled_round :: sv_round where
  "su_cancelled_round = \<lparr>rd_list = Inl (GErr Canceled ''context canceled''), rd_watch = None, rd_select = CtxDone\<rparr>"

definition su_watch_ended :: supervisor where
  "su_watch_ended = manageGatekeeperSyncManager
     [\<lparr>rd_list = Inr 1, rd_watch = None, rd_select = WatcherDone\<rparr>] sv_init"

lemma su_watch_ended_state: "\<not> sv_watching su_watch_ended \<and> \<not> sv_returned su_watch_ended \<and> sv_live su_watch_ended = [0]"
  by code_simp

theorem supervisor_never_returns_witness:
  "\<not> sv_returned (manageGatekeeperSyncManager (replicate 3 su_cancelled_round) su_watch_ended)"
proof -
  have "manageGatekeeperSyncManager (replicate 3 su_cancelled_round) su_watch_ended = su_watch_ended"
    by (rule supervisor_never_returns) (simp_all add: su_watch_ended_state su_cancelled_round_def)
  then show ?thesis by (simp add: su_watch_ended_state)
qed

end
