(* ===== verification/Lifecycle.thy ===== *)
theory Lifecycle
  imports Startup
begin

text \<open>
  The life of the process during and after the start, the second half of \<^verbatim>\<open>main\<close> with \<^verbatim>\<open>startHealthProxy\<close>:
  the goroutines of the program, those that are counted by the wait group and those that are not, what
  each does when it ends, and the return of \<^verbatim>\<open>main\<close> when the count is zero. Goroutines end in any order, so
  the model is a step function on an explicit event, and the properties are about every run of events.
\<close>

section \<open>Goroutines and their ends\<close>

text \<open>A manager or watcher that was started with \<^verbatim>\<open>wg.Go\<close>, a loop of the supervisor of gatekeeper-sync,
  the two halves of the health proxy (the one that serves and the one that waits for the context to
  shut the server down), what was started with a plain \<^verbatim>\<open>go\<close> and is not counted, and the watcher of the
  constraints of a loop of gatekeeper-sync, which is not counted either.\<close>

datatype task =
    ManagerTask component
  | GatekeeperLoop nat
  | ProxyServer
  | ProxyShutdown
  | UncountedTask component
  | ConstraintsWatcher nat

text \<open>\<open>mn_start\<close> is what \<^verbatim>\<open>main\<close> has still to start, and \<open>mn_exits\<close> whether it exits after that instead of
  coming to \<^verbatim>\<open>wg.Wait\<close>. \<open>mn_exited\<close> says that the process has ended by \<^verbatim>\<open>os.Exit\<close> or by a panic;
  \<open>mn_listenErrors\<close> is a history variable, the number of times that the server ended with an error.\<close>

record main_state =
  mn_start :: "component list"
  mn_exits :: bool
  mn_tasks :: "task list"
  mn_wg :: int
  mn_cancelled :: bool
  mn_errorExit :: bool
  mn_exited :: bool
  mn_listenErrors :: nat

text \<open>A \<open>TaskEnd\<close> carries the error with which the goroutine ends. For the server, no error stands
  for \<^verbatim>\<open>http.ErrServerClosed\<close>.\<close>

datatype main_event =
    StartNext | StartLoop nat | StartWatch nat | TaskEnd task "gerr option" | Signal

definition main_init :: "component list \<Rightarrow> bool \<Rightarrow> main_state" where
  "main_init comps exits = \<lparr>mn_start = comps, mn_exits = exits, mn_tasks = [], mn_wg = 0,
     mn_cancelled = False, mn_errorExit = False, mn_exited = False, mn_listenErrors = 0\<rparr>"

text \<open>What starting a component adds to the goroutines and to the wait group.\<close>

fun start_tasks :: "component \<Rightarrow> task list" where
  "start_tasks HealthProxy = [ProxyServer, ProxyShutdown]"
| "start_tasks ManagedManager = [ManagerTask ManagedManager]"
| "start_tasks (UninstallWatcher ns) = [ManagerTask (UninstallWatcher ns)]"
| "start_tasks HubManager = [ManagerTask HubManager]"
| "start_tasks (LeaseUpdater ns) = [UncountedTask (LeaseUpdater ns)]"
| "start_tasks GatekeeperSupervisor = [UncountedTask GatekeeperSupervisor]"
| "start_tasks HubCache = [UncountedTask HubCache]"
| "start_tasks StatusDepWatcher = [UncountedTask StatusDepWatcher]"
| "start_tasks TemplateDepWatcher = [UncountedTask TemplateDepWatcher]"

fun start_count :: "component \<Rightarrow> int" where
  "start_count HealthProxy = 1"
| "start_count ManagedManager = 1"
| "start_count (UninstallWatcher ns) = 1"
| "start_count HubManager = 1"
| "start_count (LeaseUpdater ns) = 0"
| "start_count GatekeeperSupervisor = 0"
| "start_count HubCache = 0"
| "start_count StatusDepWatcher = 0"
| "start_count TemplateDepWatcher = 0"

definition end_task :: "task \<Rightarrow> main_state \<Rightarrow> main_state" where
  "end_task t s = s\<lparr>mn_tasks := remove1 t (mn_tasks s)\<rparr>"

text \<open>A wait group panics when its counter gets negative.\<close>

definition wg_Done :: "main_state \<Rightarrow> main_state" where
  "wg_Done s = s\<lparr>mn_wg := mn_wg s - 1, mn_exited := mn_exited s \<or> mn_wg s - 1 < 0\<rparr>"

definition run_manager_end :: "component \<Rightarrow> gerr option \<Rightarrow> main_state \<Rightarrow> main_state" where
  "run_manager_end c err s =
     (let s = end_task (ManagerTask c) s;
          s = (if err \<noteq> None then s\<lparr>mn_cancelled := True, mn_errorExit := True\<rparr> else s)
      in wg_Done s)"

definition startHealthProxy_end :: "gerr option \<Rightarrow> main_state \<Rightarrow> main_state" where
  "startHealthProxy_end err s =
     (let s = end_task ProxyServer s
      in if err \<noteq> None
         then (wg_Done s)\<lparr>mn_cancelled := True, mn_listenErrors := Suc (mn_listenErrors s)\<rparr>
         else s)"

text \<open>The cache of the hub that cannot be started exits the process, a dependency watcher that cannot be
  started panics.\<close>

definition run_uncounted_end :: "task \<Rightarrow> gerr option \<Rightarrow> main_state \<Rightarrow> main_state" where
  "run_uncounted_end t err s =
     (let s = end_task t s in if err \<noteq> None then s\<lparr>mn_exited := True\<rparr> else s)"

text \<open>The updater of the lease has no error to report; the supervisor has none either and returns only
  when the context is done.\<close>

definition uncounted_ends :: "component \<Rightarrow> gerr option \<Rightarrow> main_state \<Rightarrow> bool" where
  "uncounted_ends c err s =
     (case c of
        LeaseUpdater ns \<Rightarrow> err = None
      | GatekeeperSupervisor \<Rightarrow> err = None \<and> mn_cancelled s
      | _ \<Rightarrow> True)"

text \<open>A loop is started by the supervisor, a watcher of constraints by its loop; the server is closed and the
  goroutine that closes it goes on when the context is done.\<close>

fun main_step :: "main_event \<Rightarrow> main_state \<Rightarrow> main_state option" where
  "main_step StartNext s =
     (if mn_exited s then None
      else (case mn_start s of
              [] \<Rightarrow> if mn_exits s then Some (s\<lparr>mn_exited := True\<rparr>) else None
            | c # cs \<Rightarrow> Some (s\<lparr>mn_start := cs, mn_tasks := mn_tasks s @ start_tasks c,
                               mn_wg := mn_wg s + start_count c\<rparr>)))"
| "main_step (StartLoop n) s =
     (if mn_exited s \<or> UncountedTask GatekeeperSupervisor \<notin> set (mn_tasks s) then None
      else Some (s\<lparr>mn_tasks := mn_tasks s @ [GatekeeperLoop n], mn_wg := mn_wg s + 1\<rparr>))"
| "main_step (StartWatch n) s =
     (if mn_exited s \<or> GatekeeperLoop n \<notin> set (mn_tasks s) then None
      else Some (s\<lparr>mn_tasks := mn_tasks s @ [ConstraintsWatcher n]\<rparr>))"
| "main_step (TaskEnd t err) s =
     (if mn_exited s \<or> t \<notin> set (mn_tasks s) then None
      else (case t of
              ManagerTask c \<Rightarrow> Some (run_manager_end c err s)
            | GatekeeperLoop n \<Rightarrow> Some (wg_Done (end_task t s))
            | ProxyServer \<Rightarrow>
                (if err \<noteq> None \<or> mn_cancelled s then Some (startHealthProxy_end err s) else None)
            | ProxyShutdown \<Rightarrow>
                (if mn_cancelled s then Some (wg_Done (end_task t s)) else None)
            | UncountedTask c \<Rightarrow>
                (if uncounted_ends c err s then Some (run_uncounted_end t err s) else None)
            | ConstraintsWatcher n \<Rightarrow> Some (run_uncounted_end t err s)))"
| "main_step Signal s = (if mn_exited s then None else Some (s\<lparr>mn_cancelled := True\<rparr>))"

text \<open>\<^verbatim>\<open>wg.Wait\<close> comes after everything is started, and returns when the count is zero.\<close>

definition wait_returns :: "main_state \<Rightarrow> bool" where
  "wait_returns s \<longleftrightarrow> mn_start s = [] \<and> \<not> mn_exits s \<and> \<not> mn_exited s \<and> mn_wg s = 0"

definition exit_code :: "main_state \<Rightarrow> int" where
  "exit_code s = (if mn_errorExit s then 1 else 0)"

section \<open>Runs\<close>

fun main_run :: "main_event list \<Rightarrow> main_state \<Rightarrow> main_state option" where
  "main_run [] s = Some s"
| "main_run (ev # evs) s = (case main_step ev s of None \<Rightarrow> None | Some s \<Rightarrow> main_run evs s)"

text \<open>The goroutines that tell the wait group when they are done, those of a state, and what a run of events
  from a start of components has to start.\<close>

fun is_counted :: "task \<Rightarrow> bool" where
  "is_counted (ManagerTask c) = True"
| "is_counted (GatekeeperLoop n) = True"
| "is_counted ProxyShutdown = True"
| "is_counted ProxyServer = False"
| "is_counted (UncountedTask c) = False"
| "is_counted (ConstraintsWatcher n) = False"

definition counted :: "main_state \<Rightarrow> task list" where
  "counted s = filter is_counted (mn_tasks s)"

definition started :: "component list \<Rightarrow> main_event list \<Rightarrow> task set" where
  "started comps evs = (\<Union>c \<in> set comps. set (start_tasks c)) \<union> {GatekeeperLoop n |n. StartLoop n \<in> set evs}"

definition ended :: "main_event list \<Rightarrow> task set" where
  "ended evs = {t. \<exists>err. TaskEnd t err \<in> set evs}"

definition wg_inv :: "main_state \<Rightarrow> bool" where
  "wg_inv s \<longleftrightarrow> mn_wg s = int (length (counted s)) - int (mn_listenErrors s) \<and> (mn_wg s < 0 \<longrightarrow> mn_exited s) \<and>
     (mn_errorExit s \<longrightarrow> mn_cancelled s) \<and> (0 < mn_listenErrors s \<longrightarrow> mn_cancelled s)"

text \<open>The health proxy is served by at most one goroutine when it was started at most once, and it
  ends with an error at most once.\<close>

definition proxy_inv :: "main_state \<Rightarrow> bool" where
  "proxy_inv s \<longleftrightarrow>
     count_list (mn_tasks s) ProxyServer + mn_listenErrors s + count_list (mn_start s) HealthProxy \<le> 1"

lemma start_count_tasks: "start_count c = int (length (filter is_counted (start_tasks c)))"
  by (cases c) simp_all

lemma length_filter_remove1:
  "x \<in> set xs \<Longrightarrow> P x \<Longrightarrow> Suc (length (filter P (remove1 x xs))) = length (filter P xs)"
  by (induction xs) auto

lemma filter_remove1_other: "\<not> P x \<Longrightarrow> filter P (remove1 x xs) = filter P xs"
  by (induction xs) auto

lemma count_list_remove1:
  "count_list (remove1 x xs) y = (if x = y then count_list xs y - 1 else count_list xs y)"
  by (induction xs) (auto simp: count_list_0_iff)

lemmas end_defs = run_manager_end_def startHealthProxy_end_def run_uncounted_end_def end_task_def wg_Done_def Let_def

lemma wg_inv_step: "main_step ev s = Some s' \<Longrightarrow> wg_inv s \<Longrightarrow> wg_inv s'"
proof (cases "(ev, s)" rule: main_step.cases)
  case (4 t err s0)
  assume "main_step ev s = Some s'" "wg_inv s"
  with 4 show ?thesis
    using length_filter_remove1 [of t "mn_tasks s" is_counted]
    by (cases t) (auto simp: wg_inv_def counted_def end_defs filter_remove1_other split: if_splits)
qed (auto simp: wg_inv_def counted_def start_count_tasks split: list.splits if_splits)

lemma proxy_inv_step: "main_step ev s = Some s' \<Longrightarrow> proxy_inv s \<Longrightarrow> proxy_inv s'"
proof (cases "(ev, s)" rule: main_step.cases)
  case (1 s0)
  assume "main_step ev s = Some s'" "proxy_inv s"
  moreover have "count_list (start_tasks c) ProxyServer = (if c = HealthProxy then 1 else 0)" for c
    by (cases c) simp_all
  ultimately show ?thesis using 1 by (auto simp: proxy_inv_def split: list.splits if_splits)
next
  case (4 t err s0)
  assume "main_step ev s = Some s'" "proxy_inv s"
  moreover from this 4 have "count_list (mn_tasks s) t \<noteq> 0"
    by (simp add: count_list_0_iff split: if_splits)
  ultimately show ?thesis
    using 4 by (cases t) (auto simp: proxy_inv_def end_defs count_list_remove1 split: if_splits)
qed (auto simp: proxy_inv_def split: if_splits)

lemma main_run_inv:
  "main_run evs s = Some s' \<Longrightarrow> wg_inv s \<Longrightarrow> proxy_inv s \<Longrightarrow> wg_inv s' \<and> proxy_inv s'"
  by (induction evs arbitrary: s) (auto split: option.splits dest: wg_inv_step proxy_inv_step)

lemma main_init_inv:
  "count_list comps HealthProxy \<le> 1 \<Longrightarrow> wg_inv (main_init comps exits) \<and> proxy_inv (main_init comps exits)"
  by (simp add: main_init_def wg_inv_def counted_def proxy_inv_def)

text \<open>A goroutine leaves the state only by its end, and what has to be started is started in the end.\<close>

lemma main_step_keeps:
  assumes "main_step ev s = Some s'" and "t \<in> set (mn_tasks s)"
  shows "t \<in> set (mn_tasks s') \<or> t \<in> ended [ev]"
proof (cases "(ev, s)" rule: main_step.cases)
  case (4 t' err s0)
  with assms show ?thesis
    by (cases t'; cases "t = t'") (auto simp: end_defs ended_def in_set_remove1 split: if_splits)
qed (use assms in \<open>auto split: list.splits if_splits\<close>)

lemma main_step_starts:
  assumes "main_step ev s = Some s'" and "t \<in> started (mn_start s) [ev]"
  shows "t \<in> set (mn_tasks s') \<or> t \<in> started (mn_start s') []"
proof (cases "(ev, s)" rule: main_step.cases)
  case (4 t' err s0)
  with assms show ?thesis
    by (cases t') (auto simp: started_def end_defs split: if_splits)
qed (use assms in \<open>auto simp: started_def split: list.splits if_splits\<close>)

lemma ended_Cons: "ended (ev # evs) = ended [ev] \<union> ended evs"
  by (auto simp: ended_def)

lemma started_Cons: "started comps (ev # evs) = started comps [ev] \<union> started [] evs"
  by (auto simp: started_def)

lemma main_run_keeps:
  "main_run evs s = Some s' \<Longrightarrow> t \<in> set (mn_tasks s) \<Longrightarrow> t \<in> set (mn_tasks s') \<or> t \<in> ended evs"
proof (induction evs arbitrary: s)
  case (Cons ev evs)
  then obtain s1 where s1: "main_step ev s = Some s1" "main_run evs s1 = Some s'"
    by (auto split: option.splits)
  show ?case
    using main_step_keeps [OF s1(1) Cons.prems(2)] Cons.IH [OF s1(2)] ended_Cons [of ev evs] by blast
qed simp

lemma main_run_starts:
  "main_run evs s = Some s' \<Longrightarrow> t \<in> started (mn_start s) evs \<Longrightarrow>
     t \<in> set (mn_tasks s') \<or> t \<in> ended evs \<or> t \<in> started (mn_start s') []"
proof (induction evs arbitrary: s)
  case (Cons ev evs)
  then obtain s1 where s1: "main_step ev s = Some s1" "main_run evs s1 = Some s'"
    by (auto split: option.splits)
  from Cons.prems(2) consider "t \<in> started (mn_start s) [ev]" | "t \<in> started [] evs"
    using started_Cons [of "mn_start s" ev evs] by blast
  then have "t \<in> set (mn_tasks s1) \<or> t \<in> started (mn_start s1) evs"
    using main_step_starts [OF s1(1)] by cases (auto simp: started_def)
  then show ?case
    using main_run_keeps [OF s1(2)] Cons.IH [OF s1(2)] ended_Cons [of ev evs] by blast
qed simp

lemma start_parts_count:
  "count_list (fst (start_parts ps)) c \<le> sum_list (map (\<lambda>p. count_list (case p of None \<Rightarrow> [] | Some cs \<Rightarrow> cs) c) ps)"
  by (induction ps rule: start_parts.induct) (auto split: prod.splits)

lemma calls_no_proxy:
  "sum_list (map (\<lambda>p. count_list (case p of None \<Rightarrow> [] | Some cs \<Rightarrow> cs) HealthProxy)
     (map call_part (addControllers_calls ce opts))) = 0"
  by (auto simp: addControllers_calls_def call_part_def split: option.splits)

lemma start_controllers_one_proxy:
  assumes "start_controllers su parsed = (comps, exits)"
  shows "count_list comps HealthProxy \<le> 1"
proof -
  obtain flagErr opts where parsed: "parsed = (flagErr, opts)" by fastforce
  have "count_list (fst (start_controllers su parsed)) HealthProxy \<le> 1"
    unfolding start_controllers_def parsed prod.case
    by (rule order_trans [OF start_parts_count])
      (auto simp: start_lease_def start_gatekeeper_def start_watcher_def calls_no_proxy [unfolded map_map]
        split: option.splits if_splits sum.splits)
  with assms show ?thesis by simp
qed

section \<open>Properties\<close>

text \<open>C25. The wait group does what it is there for. In every run from what \<^verbatim>\<open>main\<close> and \<^verbatim>\<open>addControllers\<close> start,
  unless the server of the health proxy ended with an error, its count is that of the goroutines that were
  counted and have not ended: \<^verbatim>\<open>main\<close> that has started everything and was not ended by \<^verbatim>\<open>os.Exit\<close> or a panic
  returns exactly when none is left, and then the managers, the uninstall watcher, the goroutine that shuts the
  health proxy down and every loop of gatekeeper-sync that was started have ended. The other goroutines are
  not waited for: the server of the health proxy, the updater of the lease, the supervisor of
  gatekeeper-sync, the cache of the hub, the two dependency watchers and the watchers of constraints may
  still run then. If the server ended with an error, its goroutine and the one that shuts it down
  are both counted off for the one that was added: the context is cancelled, \<^verbatim>\<open>main\<close> then returns while one
  counted goroutine is still running, and if all end before that the wait group panics.\<close>

theorem main_waits:
  assumes "start_controllers su parsed = (comps, exits)" and "main_run evs (main_init comps exits) = Some s"
  shows "(mn_listenErrors s = 0 \<longrightarrow> mn_wg s = int (length (counted s)) \<and>
      (wait_returns s = (mn_start s = [] \<and> \<not> mn_exits s \<and> \<not> mn_exited s \<and> counted s = [])) \<and>
      (wait_returns s \<longrightarrow> (\<forall>t \<in> started comps evs. is_counted t \<longrightarrow> t \<in> ended evs))) \<and>
    (mn_listenErrors s \<noteq> 0 \<longrightarrow> mn_cancelled s \<and>
      (wait_returns s \<longrightarrow> length (counted s) = 1) \<and> (counted s = [] \<longrightarrow> mn_exited s))"
proof -
  have inv: "wg_inv s" "proxy_inv s"
    using main_run_inv [OF assms(2)] main_init_inv [OF start_controllers_one_proxy [OF assms(1)]] by blast+
  then have errors: "mn_listenErrors s = 0 \<or> mn_listenErrors s = 1" by (auto simp: proxy_inv_def)
  have "t \<in> ended evs" if "t \<in> started comps evs" "is_counted t" "mn_start s = []" "counted s = []" for t
    using main_run_starts [OF assms(2), of t] that
    by (auto simp: main_init_def started_def [of "[]"] counted_def filter_empty_conv)
  with errors inv(1) show ?thesis by (auto simp: wg_inv_def wait_returns_def)
qed

definition sample_startup :: startup_env where
  "sample_startup = \<lparr>su_environment = (\<lambda>_. None), su_logger = None, su_managers = sample_managers,
     su_controllers = \<lparr>ce_hubCache = None, ce_hubClient = None, ce_hubRecorder = None, ce_statusWatcher = None,
       ce_statusSetup = None, ce_templateWatcher = None, ce_templateSetup = None, ce_managedRecorder = None,
       ce_specSetup = None, ce_secretSetup = None\<rparr>,
     su_addToScheme = (\<lambda>_. None), su_register = (\<lambda>_. Some AlreadyRegistered),
     su_hubConfig = None, su_managedConfig = None, su_namespaceFile = Inr ''ns'',
     su_serverVersion = Inr ''v1.30.0'', su_semver116 = (\<lambda>_. True)\<rparr>"

text \<open>A signal ends the managers and the watcher; \<^verbatim>\<open>main\<close> returns then, while the supervisor of gatekeeper-sync and
  the dependency watchers still run. And the health proxy cannot listen: when everything but the hub manager
  has ended \<^verbatim>\<open>main\<close> returns too, with the code of success.\<close>

definition sample_components :: "component list" where
  "sample_components =
     [GatekeeperSupervisor, StatusDepWatcher, TemplateDepWatcher, HealthProxy, ManagedManager,
      UninstallWatcher ''ns'', HubManager]"

definition sample_signal :: "main_event list" where
  "sample_signal = replicate 7 StartNext @
     [StartLoop 0, StartWatch 0, Signal, TaskEnd (GatekeeperLoop 0) None, TaskEnd ProxyServer None,
      TaskEnd ProxyShutdown None, TaskEnd (ManagerTask ManagedManager) None,
      TaskEnd (ManagerTask HubManager) None, TaskEnd (ManagerTask (UninstallWatcher ''ns'')) None]"

definition sample_listen :: "main_event list" where
  "sample_listen = replicate 7 StartNext @
     [TaskEnd ProxyServer (Some (GErr OtherReason ''address in use'')), TaskEnd ProxyShutdown None,
      TaskEnd (ManagerTask ManagedManager) None, TaskEnd (ManagerTask (UninstallWatcher ''ns'')) None]"

definition sample_end :: "main_event list \<Rightarrow> main_state" where
  "sample_end evs = the (main_run evs (main_init sample_components False))"

lemma sample_start: "start_controllers sample_startup (None, ProcessFlags) = (sample_components, False)"
  by code_simp

lemma sample_runs:
  "main_run sample_signal (main_init sample_components False) = Some (sample_end sample_signal)"
  "main_run sample_listen (main_init sample_components False) = Some (sample_end sample_listen)"
  by code_simp+

lemma sample_returns:
  "mn_listenErrors (sample_end sample_signal) = 0" "wait_returns (sample_end sample_signal)"
  "mn_tasks (sample_end sample_signal) =
     [UncountedTask GatekeeperSupervisor, UncountedTask StatusDepWatcher, UncountedTask TemplateDepWatcher,
      ConstraintsWatcher 0]"
  "mn_listenErrors (sample_end sample_listen) \<noteq> 0" "wait_returns (sample_end sample_listen)"
  "exit_code (sample_end sample_listen) = 0"
  by code_simp+

theorem main_waits_witness:
  "GatekeeperLoop 0 \<in> ended sample_signal \<and> ManagerTask HubManager \<in> ended sample_signal \<and>
   UncountedTask GatekeeperSupervisor \<in> set (mn_tasks (sample_end sample_signal)) \<and>
   length (counted (sample_end sample_listen)) = 1"
proof -
  have "GatekeeperLoop 0 \<in> started sample_components sample_signal"
    "ManagerTask HubManager \<in> started sample_components sample_signal"
    by (simp_all add: started_def sample_components_def sample_signal_def)
  then show ?thesis
    using main_waits [OF sample_start sample_runs(1)] main_waits [OF sample_start sample_runs(2)] sample_returns
    by simp
qed

end
