(* ===== verification/TemplateCorrect.thy ===== *)
theory TemplateCorrect
  imports TemplateSync
begin

text \<open>
  The correctness of the template-sync controller. The locale \<open>template_inv\<close> is the interface
  between the reconcile and any property of the world that its calls keep: each function of
  the controller keeps the property when its calls do. It is used for what the reconcile writes
  and, with the laws of an object store, for the objects on the cluster.
\<close>

section \<open>Properties that the calls keep\<close>

text \<open>The actions that only report: events and errors counted for the policy.\<close>

fun template_report :: "policy \<Rightarrow> namespaced_name \<Rightarrow> effect \<Rightarrow> bool" where
  "template_report inst request (Recorded cl k _ _ _) \<longleftrightarrow> cl = Managed \<and> k = policy_nn inst"
| "template_report inst request (EventCreate ev) \<longleftrightarrow>
     ref_uid (ev_involved ev) = p_uid inst \<and> ref_name (ev_involved ev) = p_name inst \<and>
     ev_namespace ev = p_namespace inst"
| "template_report inst request (CounterInc _ n _ _) \<longleftrightarrow> n \<in> {p_name inst, nn_name request}"
| "template_report inst request _ \<longleftrightarrow> False"

text \<open>The actions on the object of a template.\<close>

definition ok_object :: "(effect \<Rightarrow> bool) \<Rightarrow> policy \<Rightarrow> ('c, 't) template_api \<Rightarrow> klib \<Rightarrow> template_reconciler \<Rightarrow> template_ctx \<Rightarrow> bool" where
  "ok_object ok inst api lib r t \<longleftrightarrow>
     ok (ObjectCreate (tm_rsrc t) (tm_ns t) (object_to_create lib r inst t)) \<and>
     (\<forall>e owners. owner_of lib inst t e = (owners, p_name inst) \<longrightarrow>
        ok (ObjectUpdate (tm_rsrc t) (tm_ns t)
          (updated_object e (template_defaults lib (wanted_object api r inst t owners))))) \<and>
     ok (ObjectDelete (tm_rsrc t) (tm_ns t) (tm_name t)) \<and>
     ok (ObjectPatch (tm_rsrc t) (tm_ns t) (tm_name t) status_reset_patch ''status'') \<and>
     ok (ObjectPatch (tm_rsrc t) (tm_ns t) (tm_name t) prune_patch [])"

definition ok_objects :: "(effect \<Rightarrow> bool) \<Rightarrow> policy \<Rightarrow> ('c, 't) template_api \<Rightarrow> klib \<Rightarrow> template_reconciler \<Rightarrow> bool" where
  "ok_objects ok inst api lib r \<longleftrightarrow>
     (\<forall>t. tm_ns t = (if tm_clusterScoped t then [] else p_namespace inst) \<longrightarrow> ok_object ok inst api lib r t)"

definition ok_cleanup :: "(effect \<Rightarrow> bool) \<Rightarrow> template_reconciler \<Rightarrow> string list \<Rightarrow> bool" where
  "ok_cleanup ok r names \<longleftrightarrow>
     (\<forall>g ns n. ns \<in> {[], tr_clusterNamespace r} \<longrightarrow> n \<notin> set names \<longrightarrow> ok (ObjectDelete g ns n))"

definition ok_policy :: "(effect \<Rightarrow> bool) \<Rightarrow> policy \<Rightarrow> bool" where
  "ok_policy ok inst \<longleftrightarrow>
     ok (PolicyUpdate Managed (removeFinalizer inst ClusterwideFinalizer)) \<and> (\<forall>g n. ok (ObjectDelete g [] n))"

definition ok_finalizer :: "(effect \<Rightarrow> bool) \<Rightarrow> policy \<Rightarrow> bool" where
  "ok_finalizer ok inst \<longleftrightarrow>
     ok (PolicyUpdate Managed (removeFinalizer inst ClusterwideFinalizer)) \<and>
     ok (PolicyUpdate Managed (inst\<lparr>p_finalizers := p_finalizers inst @ [ClusterwideFinalizer]\<rparr>))"

definition ok_watch :: "(effect \<Rightarrow> bool) \<Rightarrow> namespaced_name \<Rightarrow> bool" where
  "ok_watch ok request \<longleftrightarrow> ok (WatchRemove (policy_object_id request)) \<and>
     (\<forall>os. ok (WatchSet (policy_object_id request) os))"

locale template_inv =
  fixes api :: "('c, 't) template_api" and I :: "'c world \<Rightarrow> bool" and ok :: "effect \<Rightarrow> bool"
    and inst :: policy and request :: namespaced_name
  assumes I_polGet: "call (polGet (tsPolicies api) cl k) w = (x1, w') \<Longrightarrow> I w \<Longrightarrow> I w'"
    and I_clock: "call (clockNow (tsEvents api)) w = (x2, w') \<Longrightarrow> I w \<Longrightarrow> I w'"
    and I_new: "call (tsNewClient api) w = (x3, w') \<Longrightarrow> I w \<Longrightarrow> I w'"
    and I_discovery: "call (tsDiscovery api gv) w = (x4, w') \<Longrightarrow> I w \<Longrightarrow> I w'"
    and I_get: "call (tsGet api g ns n) w = (x5, w') \<Longrightarrow> I w \<Longrightarrow> I w'"
    and I_list: "call (tsList api g ns sel) w = (x6, w') \<Longrightarrow> I w \<Longrightarrow> I w'"
    and I_crd: "call (tsCrdLabels api b n) w = (x7, w') \<Longrightarrow> I w \<Longrightarrow> I w'"
    and I_lists: "call (tsListConstraintTemplates api b) w = (x8, w') \<Longrightarrow> I w \<Longrightarrow> I w'"
      "call (tsListCrds api b) w = (x9, w') \<Longrightarrow> I w \<Longrightarrow> I w'"
    and I_emit: "ok e \<Longrightarrow> I w \<Longrightarrow> I (emit e w)"
    and I_event: "act (EventCreate ev) (evCreate (tsEvents api) ev) w = (y1, w') \<Longrightarrow>
      ok (EventCreate ev) \<Longrightarrow> I w \<Longrightarrow> I w'"
    and I_create: "act (ObjectCreate g ns obj) (tsCreate api g ns obj) w = (y2, w') \<Longrightarrow>
      ok (ObjectCreate g ns obj) \<Longrightarrow> I w \<Longrightarrow> I w'"
    and I_update: "act (ObjectUpdate g ns obj) (tsUpdate api g ns obj) w = (y3, w') \<Longrightarrow>
      ok (ObjectUpdate g ns obj) \<Longrightarrow> I w \<Longrightarrow> I w'"
    and I_delete: "act (ObjectDelete g ns n) (tsDelete api g ns n) w = (y4, w') \<Longrightarrow>
      ok (ObjectDelete g ns n) \<Longrightarrow> I w \<Longrightarrow> I w'"
    and I_patch: "act (ObjectPatch g ns n p s) (tsPatch api g ns n p s) w = (y5, w') \<Longrightarrow>
      ok (ObjectPatch g ns n p s) \<Longrightarrow> I w \<Longrightarrow> I w'"
    and I_wset: "act (WatchSet i os) (wSet (tsWatcher api) i os) w = (y6, w') \<Longrightarrow>
      ok (WatchSet i os) \<Longrightarrow> I w \<Longrightarrow> I w'"
    and I_wremove: "act (WatchRemove i) (wRemove (tsWatcher api) i) w = (y7, w') \<Longrightarrow>
      ok (WatchRemove i) \<Longrightarrow> I w \<Longrightarrow> I w'"
    and I_polUpdate: "act (PolicyUpdate Managed p1) (polUpdate (tsPolicies api) Managed p1) w = (y8, w') \<Longrightarrow>
      ok (PolicyUpdate Managed p1) \<Longrightarrow> I w \<Longrightarrow> I w'"
    and report_ok: "template_report inst request e \<Longrightarrow> ok e"
begin

lemma I_errors:
  "I w \<Longrightarrow> I (user_error inst tName ty w)" "I w \<Longrightarrow> I (system_error inst tName ty w)"
  by (simp_all add: user_error_def system_error_def I_emit report_ok)

lemma I_emitTemplateEvent:
  "emitTemplateEvent lib api r inst i tName cs ety c msg w = (x, w') \<Longrightarrow> I w \<Longrightarrow> I w'"
  unfolding emitTemplateEvent_def SendEvent_def Let_def
  by (auto split: prod.splits sum.splits if_splits
      intro!: I_emit report_ok elim!: I_polGet I_clock I_event
      simp: compliance_event_def template_sender_def template_owner_def)

lemma I_emitTemplateError:
  "I w \<Longrightarrow> I (emitTemplateError lib api r inst i tName cs errMsg w)"
  unfolding emitTemplateError_def by (rule I_emitTemplateEvent [OF prod.collapse [symmetric]])

lemma I_emitTemplateSuccess:
  "emitTemplateSuccess lib api r inst i tName cs msg w = (x, w') \<Longrightarrow> I w \<Longrightarrow> I w'"
  unfolding emitTemplateSuccess_def by (rule I_emitTemplateEvent)

lemma I_emitTemplatePending:
  "emitTemplatePending lib api r inst i tName cs msg w = (x, w') \<Longrightarrow> I w \<Longrightarrow> I w'"
  unfolding emitTemplatePending_def by (auto split: if_splits elim: I_emitTemplateEvent)

lemma I_GVRFromGVK: "GVRFromGVK (tsDiscovery api) k w = (x, w') \<Longrightarrow> I w \<Longrightarrow> I w'"
  unfolding GVRFromGVK_def by (auto split: prod.splits sum.splits if_splits elim: I_discovery)

lemma I_hasPolicyTemplateLabel: "hasPolicyTemplateLabel api g w = (x, w') \<Longrightarrow> I w \<Longrightarrow> I w'"
  unfolding hasPolicyTemplateLabel_def Let_def
  by (auto split: prod.splits sum.splits if_splits elim!: I_crd)

lemma I_dependency_failure: "dependency_failure lib api dep c w = (x, w') \<Longrightarrow> I w \<Longrightarrow> I w'"
  unfolding dependency_failure_def
  by (auto split: prod.splits sum.splits if_splits elim!: I_get I_GVRFromGVK)

lemma I_processDependencies: "processDependencies lib api deps w = (x, w') \<Longrightarrow> I w \<Longrightarrow> I w'"
proof (induction deps arbitrary: w x)
  case (Cons d deps)
  obtain dep c where [simp]: "d = (dep, c)" by (cases d)
  from Cons show ?case by (auto split: prod.splits dest: I_dependency_failure)
qed simp

lemma I_emitGK:
  "emitGKConstraintTemplateErrMsg lib api r obj g ns inst i tName w = (x, w') \<Longrightarrow> I w \<Longrightarrow> I w'"
  unfolding emitGKConstraintTemplateErrMsg_def Let_def
  by (auto split: prod.splits sum.splits if_splits intro!: I_emitTemplateError elim!: I_get)

lemma I_handleSyncSuccess:
  assumes "ok (ObjectPatch g ns tName status_reset_patch ''status'')"
  shows "handleSyncSuccess lib api inst i tName msg g ns grp template w = (x, w') \<Longrightarrow> I w \<Longrightarrow> I w'"
  using assms unfolding handleSyncSuccess_def Let_def
  by (auto split: prod.splits option.splits if_splits intro!: I_emit report_ok elim!: I_patch)

lemmas I_reports = I_emitTemplateEvent I_emitTemplateSuccess I_emitTemplatePending I_GVRFromGVK
  I_hasPolicyTemplateLabel I_processDependencies I_emitGK

lemma I_report_synced:
  assumes "ok (ObjectPatch (tm_rsrc t) (tm_ns t) (tm_name t) status_reset_patch ''status'')"
  shows "report_synced lib api r inst t what msg e ls w = (ls', w') \<Longrightarrow> I w \<Longrightarrow> I w'"
  using assms unfolding report_synced_def Let_def
  by (auto split: prod.splits option.splits if_splits intro!: I_errors
      elim!: I_emitTemplateSuccess I_handleSyncSuccess [rotated])

lemma I_create_template:
  assumes "ok_object ok inst api lib r t"
  shows "create_template lib api r inst t ls w = (x, ls', w') \<Longrightarrow> I w \<Longrightarrow> I w'"
  using assms unfolding create_template_def Let_def ok_object_def
  by (auto split: prod.splits sum.splits if_splits intro!: I_errors I_emitTemplateError
      elim!: I_emitTemplatePending I_create I_emitGK I_report_synced [rotated])

lemma I_delete_template:
  assumes "ok_object ok inst api lib r t"
  shows "delete_template api inst t ls w = (ls', w') \<Longrightarrow> I w \<Longrightarrow> I w'"
  using assms unfolding delete_template_def Let_def ok_object_def
  by (auto split: prod.splits option.splits intro!: I_errors elim!: I_delete)

lemma I_pending_template:
  assumes "ok_object ok inst api lib r t"
  shows "pending_template lib api r inst t ls w = (ls', w') \<Longrightarrow> I w \<Longrightarrow> I w'"
  unfolding pending_template_def Let_def
  by (auto split: prod.splits dest!: I_delete_template [OF assms] elim!: I_emitTemplatePending)

lemma I_hub_error_template:
  assumes "ok_object ok inst api lib r t"
  shows "hub_error_template lib api r inst t ls w = (ls', w') \<Longrightarrow> I w \<Longrightarrow> I w'"
  using assms unfolding hub_error_template_def Let_def ok_object_def
  by (auto split: prod.splits option.splits if_splits intro!: I_errors I_emitTemplateError
      dest!: I_delete_template [OF assms] elim!: I_patch)

lemma I_update_template:
  assumes "ok_object ok inst api lib r t" and "owner_of lib inst t e = (owners, p_name inst)"
  shows "update_template lib api r inst t e (template_defaults lib (wanted_object api r inst t owners)) ls w
      = (x, ls', w') \<Longrightarrow> I w \<Longrightarrow> I w'"
  using assms unfolding update_template_def Let_def ok_object_def
  by (auto split: prod.splits sum.splits if_splits intro!: I_errors I_emitTemplateError
      elim!: I_update I_report_synced [rotated])

lemma I_sync_existing:
  assumes "ok_object ok inst api lib r t"
  shows "sync_existing lib api r inst t e ls w = (x, ls', w') \<Longrightarrow> I w \<Longrightarrow> I w'"
  using assms unfolding sync_existing_def confirm_template_def Let_def equivalentTemplates_in_sync
  by (auto split: prod.splits option.splits if_splits bool.splits intro!: I_errors I_emitTemplateError
      dest!: I_pending_template [OF assms] I_hub_error_template [OF assms]
      dest: I_update_template [OF assms]
      elim!: I_handleSyncSuccess [rotated] simp: ok_object_def)

lemma I_existing_template:
  assumes "ok_object ok inst api lib r t"
  shows "existing_template lib api r inst t e ls w = (x, ls', w') \<Longrightarrow> I w \<Longrightarrow> I w'"
  unfolding existing_template_def
  by (auto split: prod.splits sum.splits if_splits dest!: I_sync_existing [OF assms]
      elim!: I_emitGK I_emitTemplateSuccess)

lemma ok_objectsD:
  "ok_objects ok inst api lib r \<Longrightarrow> tm_ns t = (if tm_clusterScoped t then [] else p_namespace inst) \<Longrightarrow>
     ok_object ok inst api lib r t"
  by (simp add: ok_objects_def)

lemma I_sync_template:
  assumes "ok_objects ok inst api lib r"
  shows "sync_template lib api r inst i policyT meta k g cs fs ls w = (x, ls', w') \<Longrightarrow> I w \<Longrightarrow> I w'"
  using assms unfolding sync_template_def get_failed_def Let_def
  by (auto split: prod.splits sum.splits if_splits intro!: I_errors I_emitTemplateError
      elim!: I_get I_create_template [rotated] I_existing_template [rotated] ok_objectsD)

lemma I_map_template:
  assumes "ok_objects ok inst api lib r"
  shows "map_template lib api r request inst i policyT meta k deps ls w = (x, ls', w') \<Longrightarrow> I w \<Longrightarrow> I w'"
  using assms unfolding map_template_def Let_def
  by (auto split: prod.splits sum.splits if_splits intro!: I_emit report_ok I_errors I_emitTemplateError
      elim!: I_GVRFromGVK I_hasPolicyTemplateLabel I_processDependencies I_sync_template [rotated])

lemma I_extra_deps:
  "extra_deps lib api r inst i cs deps all tdeps w = (x, all', tdeps', w') \<Longrightarrow> I w \<Longrightarrow> I w'"
  by (induction deps arbitrary: all tdeps)
    (auto split: if_splits intro!: I_errors I_emitTemplateError simp: Let_def)

lemma I_top_level_deps: "top_level_deps r inst deps m w = (m', w') \<Longrightarrow> I w \<Longrightarrow> I w'"
  by (induction deps arbitrary: m w) (auto split: if_splits intro: I_errors)

lemma I_template_step:
  assumes "ok_objects ok inst api lib r"
  shows "template_step lib api r request inst deps i policyT ls w = (x, ls', w') \<Longrightarrow> I w \<Longrightarrow> I w'"
  using assms unfolding template_step_def Let_def
  by (auto split: prod.splits sum.splits option.splits if_splits intro!: I_errors I_emitTemplateError
      elim!: I_extra_deps I_map_template [rotated])

lemma I_templates_loop:
  assumes "ok_objects ok inst api lib r"
  shows "templates_loop lib api r request inst deps i ts ls w = (x, ls', w') \<Longrightarrow> I w \<Longrightarrow> I w'"
  by (induction ts arbitrary: i ls w)
    (auto split: prod.splits template_flow.splits dest!: I_template_step [OF assms])

lemma I_gatekeeper_gvrs: "gatekeeper_gvrs api created w = (x, created', w') \<Longrightarrow> I w \<Longrightarrow> I w'"
  unfolding gatekeeper_gvrs_def Let_def
  by (auto split: prod.splits sum.splits if_splits elim!: I_lists)

lemma I_policy_type_gvrs: "policy_type_gvrs lib api w = (x, w') \<Longrightarrow> I w \<Longrightarrow> I w'"
  unfolding policy_type_gvrs_def by (auto split: prod.splits sum.splits if_splits elim!: I_lists)

lemma I_delete_children:
  assumes "\<forall>n. n \<notin> set names \<longrightarrow> ok (ObjectDelete g ns n)"
  shows "delete_children api g ns names cs w = (x, w') \<Longrightarrow> I w \<Longrightarrow> I w'"
  by (induction cs arbitrary: w x)
    (auto split: prod.splits if_splits dest!: I_delete simp: assms)

lemma I_clean_gvrs:
  assumes "ok_cleanup ok r names"
  shows "clean_gvrs api r inst names gs w = (x, w') \<Longrightarrow> I w \<Longrightarrow> I w'"
proof (induction gs arbitrary: w x)
  case (Cons g gs)
  then show ?case
    using assms by (auto split: prod.splits sum.splits simp: Let_def ok_cleanup_def
        dest!: I_list I_delete_children [rotated])
qed simp

lemma I_cleanUpExcessTemplates:
  assumes "ok_cleanup ok r names"
  shows "cleanUpExcessTemplates lib api r inst names created w = (x, created', w') \<Longrightarrow> I w \<Longrightarrow> I w'"
  unfolding cleanUpExcessTemplates_def
  by (auto split: prod.splits sum.splits
      dest!: I_gatekeeper_gvrs I_policy_type_gvrs I_clean_gvrs [OF assms])

lemma I_finalizer_loop:
  assumes "\<forall>g n. ok (ObjectDelete g [] n)"
  shows "finalizer_loop b lib api inst ts errs w = (x, w') \<Longrightarrow> I w \<Longrightarrow> I w'"
proof (induction ts arbitrary: b errs w)
  case (Cons t ts)
  show ?case
    using Cons.prems assms
    by (auto split: prod.splits sum.splits option.splits if_splits simp: Let_def
        elim!: Cons.IH intro!: I_errors elim: I_GVRFromGVK I_delete)
qed simp

lemma I_update_policy:
  assumes "ok (PolicyUpdate Managed p1)"
  shows "update_policy api p1 w = (x, w') \<Longrightarrow> I w \<Longrightarrow> I w'"
  using assms unfolding update_policy_def by (auto split: prod.splits sum.splits elim!: I_polUpdate)

lemma I_empty_policy:
  assumes "ok_policy ok inst"
  shows "empty_policy api inst w = (x, w') \<Longrightarrow> I w \<Longrightarrow> I w'"
  using assms unfolding empty_policy_def ok_policy_def
  by (auto split: prod.splits option.splits if_splits elim!: I_update_policy [rotated])

lemma I_delete_policy:
  assumes "ok_policy ok inst"
  shows "delete_policy b lib api inst w = (x, w') \<Longrightarrow> I w \<Longrightarrow> I w'"
  using assms unfolding delete_policy_def finalizerCleanup_def ok_policy_def
  by (auto split: prod.splits option.splits if_splits intro!: I_errors
      elim!: I_update_policy [rotated] I_finalizer_loop [rotated])

lemma I_report_duplicates: "I w \<Longrightarrow> I (report_duplicates lib api r inst d is w)"
  by (induction "is" arbitrary: w) (simp_all add: I_emitTemplateError)

lemma I_settle_finalizer:
  assumes "ok_finalizer ok inst"
  shows "settle_finalizer api inst ls w = (ls', w') \<Longrightarrow> I w \<Longrightarrow> I w'"
  using assms unfolding settle_finalizer_def ok_finalizer_def
  by (auto split: prod.splits if_splits elim!: I_update_policy [rotated])

lemma I_watch_objects:
  assumes "ok_watch ok request"
  shows "watch_objects api request inst ls w = (ls', w') \<Longrightarrow> I w \<Longrightarrow> I w'"
  using assms unfolding watch_objects_def ok_watch_def Let_def
  by (auto split: prod.splits option.splits if_splits intro!: I_errors elim!: I_wset I_wremove)

lemma I_sync_policy:
  assumes "ok_objects ok inst api lib r" and "\<forall>names. ok_cleanup ok r names" and "ok_finalizer ok inst" and "ok_watch ok request"
  shows "sync_policy lib api r request inst created w = (x, created', w') \<Longrightarrow> I w \<Longrightarrow> I w'"
  using assms(2) unfolding sync_policy_def
  by (auto split: prod.splits template_flow.splits
      dest!: I_top_level_deps I_templates_loop [OF assms(1)] I_watch_objects [OF assms(4)]
        I_cleanUpExcessTemplates [rotated] I_settle_finalizer [OF assms(3)])

end

section \<open>What a reconcile writes\<close>

definition wrote :: "(effect \<Rightarrow> bool) \<Rightarrow> 'c world \<Rightarrow> 'c world \<Rightarrow> bool" where
  "wrote P w w' \<longleftrightarrow> (\<exists>es. w_log w' = w_log w @ es \<and> list_all P es)"

lemma wrote_refl [simp]: "wrote P w w"
  by (simp add: wrote_def)

lemma wrote_call: "call f w = (x, w') \<Longrightarrow> wrote P w0 w \<Longrightarrow> wrote P w0 w'"
  by (auto simp: wrote_def dest: call_log)

lemma wrote_act: "act e f w = (x, w') \<Longrightarrow> P e \<Longrightarrow> wrote P w0 w \<Longrightarrow> wrote P w0 w'"
  by (auto simp: wrote_def dest: act_log)

lemma wrote_emit: "P e \<Longrightarrow> wrote P w0 w \<Longrightarrow> wrote P w0 (emit e w)"
  by (auto simp: wrote_def)

lemma wrote_suffix:
  assumes "wrote P w w'" and "e \<in> set (drop (length (w_log w)) (w_log w'))"
  shows "P e"
  using assms by (auto simp: wrote_def list_all_iff)

text \<open>Whatever is logged is allowed, when the reports are.\<close>

lemma template_inv_wrote:
  assumes "\<And>e. template_report inst request e \<Longrightarrow> P e"
  shows "template_inv api (wrote P w0) P inst request"
  by unfold_locales (auto intro: wrote_call wrote_act wrote_emit assms)

text \<open>The actions that a reconcile of the policy may take. While the deployment is uninstalled no object
  is created, updated or patched and nothing is watched; cluster-scoped objects may be deleted, and the
  policy may lose the clusterwide finalizer.\<close>

fun template_effect ::
  "bool \<Rightarrow> klib \<Rightarrow> template_reconciler \<Rightarrow> policy \<Rightarrow> namespaced_name \<Rightarrow> effect \<Rightarrow> bool" where
  "template_effect b lib r inst request (ObjectCreate g ns obj) \<longleftrightarrow>
     \<not> b \<and> u_namespace obj = ns \<and>
     map_of (u_labels obj) ParentPolicyLabel = Some (p_name inst) \<and>
     (ns = [] \<or> ns = p_namespace inst \<and> u_owners obj = [newControllerRef lib inst])"
| "template_effect b lib r inst request (ObjectUpdate g ns obj) \<longleftrightarrow>
     \<not> b \<and> ns \<in> {[], p_namespace inst} \<and>
     map_of (u_labels obj) ParentPolicyLabel = Some (p_name inst)"
| "template_effect b lib r inst request (ObjectDelete g ns n) \<longleftrightarrow>
     ns = [] \<or> \<not> b \<and> ns \<in> {p_namespace inst, tr_clusterNamespace r}"
| "template_effect b lib r inst request (ObjectPatch g ns n patch sub) \<longleftrightarrow>
     \<not> b \<and> ns \<in> {[], p_namespace inst} \<and>
     (patch, sub) \<in> {(status_reset_patch, ''status''), (prune_patch, [])}"
| "template_effect b lib r inst request (PolicyUpdate cl p) \<longleftrightarrow>
     cl = Managed \<and> p = inst\<lparr>p_finalizers := p_finalizers p\<rparr> \<and>
     (b \<longrightarrow> ClusterwideFinalizer \<notin> set (p_finalizers p)) \<and>
     filter (\<lambda>f. f \<noteq> ClusterwideFinalizer) (p_finalizers p) =
       filter (\<lambda>f. f \<noteq> ClusterwideFinalizer) (p_finalizers inst)"
| "template_effect b lib r inst request (WatchSet i os) \<longleftrightarrow> \<not> b \<and> i = policy_object_id request"
| "template_effect b lib r inst request (WatchRemove i) \<longleftrightarrow> \<not> b \<and> i = policy_object_id request"
| "template_effect b lib r inst request e \<longleftrightarrow> template_report inst request e"

lemma template_report_effect:
  "template_report inst request e \<Longrightarrow> template_effect b lib r inst request e"
  by (cases e) simp_all

interpretation tlog: template_inv api "wrote (template_effect b lib r inst request) w0"
  "template_effect b lib r inst request" inst request for api b lib r inst request w0
  by (rule template_inv_wrote) (rule template_report_effect)

lemma object_to_create_simps [simp]:
  "u_namespace (object_to_create lib r inst t) = tm_ns t"
  "map_of (u_labels (object_to_create lib r inst t)) ParentPolicyLabel = Some (p_name inst)"
  "\<not> tm_clusterScoped t \<Longrightarrow> u_owners (object_to_create lib r inst t) = [newControllerRef lib inst]"
  by (simp_all add: object_to_create_def Let_def)

lemma updated_object_simps [simp]:
  "u_labels (updated_object e t) = u_labels t" "u_annotations (updated_object e t) = u_annotations t"
  "u_owners (updated_object e t) = u_owners t" "u_name (updated_object e t) = u_name e"
  "field (updated_object e t) ''spec'' = field t ''spec''"
  by (simp_all add: updated_object_def field_def)

lemma wanted_object_simps [simp]:
  "map_of (u_labels (wanted_object api r inst t owners)) ParentPolicyLabel = Some (p_name inst)"
  by (simp add: wanted_object_def Let_def)

lemma effect_objects_ok: "ok_objects (template_effect False lib r inst request) inst api lib r"
  by (auto simp: ok_objects_def ok_object_def)

lemma effect_cleanup_ok: "ok_cleanup (template_effect False lib r inst request) r names"
  by (auto simp: ok_cleanup_def)

lemma effect_policy_ok: "ok_policy (template_effect b lib r inst request) inst"
  by (simp add: ok_policy_def removeFinalizer_def remove_from_filter)

lemma effect_finalizer_ok: "ok_finalizer (template_effect False lib r inst request) inst"
  by (simp add: ok_finalizer_def removeFinalizer_def remove_from_filter)

lemma effect_watch_ok: "ok_watch (template_effect False lib r inst request) request"
  by (simp add: ok_watch_def)

end
