(* ===== verification/TemplateStore.thy ===== *)
theory TemplateStore
  imports TemplateCorrect
begin

text \<open>
  The objects on the cluster, as template-sync leaves them. The locale \<open>object_store\<close> states the
  documented behaviour of the dynamic client while no one else writes: an object that is read is
  the stored one, a write stores the specification, labels, annotations and owners that were
  sent, and a deleted object is gone (no object has finalizers of its own). Under these laws a
  reconciled template is in sync with its object, the objects of other policies stay, excess
  objects are removed, and the finalizer is not given up before the cluster-scoped objects are
  gone. An in-memory store at the end meets the laws.
\<close>

section \<open>The laws of the dynamic client\<close>

type_synonym 'c object_lookup = "gvr \<Rightarrow> string \<Rightarrow> string \<Rightarrow> 'c \<Rightarrow> unstr option"

definition same_template :: "unstr \<Rightarrow> unstr \<Rightarrow> bool" where
  "same_template a b \<longleftrightarrow>
     u_name a = u_name b \<and> field a ''spec'' = field b ''spec'' \<and> u_labels a = u_labels b \<and>
     u_annotations a = u_annotations b \<and> u_owners a = u_owners b"

definition untouched :: "'c object_lookup \<Rightarrow> ('c \<Rightarrow> 'r \<times> 'c) \<Rightarrow> bool" where
  "untouched olook f \<longleftrightarrow> (\<forall>c x c' g ns n. f c = (x, c') \<longrightarrow> olook g ns n c' = olook g ns n c)"

locale object_store =
  fixes api :: "('c, 't) template_api" and olook :: "'c object_lookup"
  assumes reads_untouched:
      "untouched olook (polGet (tsPolicies api) cl k)" "untouched olook (clockNow (tsEvents api))"
      "untouched olook (tsNewClient api)" "untouched olook (tsDiscovery api gv)"
      "untouched olook (tsGet api g ns n)" "untouched olook (tsList api g ns sel)"
      "untouched olook (tsCrdLabels api b n)" "untouched olook (tsListConstraintTemplates api b)"
      "untouched olook (tsListCrds api b)"
    and writes_untouched:
      "untouched olook (evCreate (tsEvents api) ev)" "untouched olook (wSet (tsWatcher api) i os)"
      "untouched olook (wRemove (tsWatcher api) i)" "untouched olook (polUpdate (tsPolicies api) cl p)"
    and olook_name: "olook g ns n c = Some e \<Longrightarrow> u_name e = n"
    and get_Inr: "tsGet api g ns n c = (Inr e, c') \<Longrightarrow> olook g ns n c = Some e"
    and get_Inl: "tsGet api g ns n c = (Inl err, c') \<Longrightarrow> IsNotFound err \<Longrightarrow> olook g ns n c = None"
    and list_Inr: "tsList api g ns (ParentPolicyLabel @ ''='' @ pol) c = (Inr names, c') \<Longrightarrow>
      n \<in> set names \<longleftrightarrow>
        (\<exists>e. olook g ns n c = Some e \<and> map_of (u_labels e) ParentPolicyLabel = Some pol)"
    and create_Inr: "tsCreate api g ns obj c = (Inr q, c') \<Longrightarrow>
      olook g ns (u_name obj) c' = Some q \<and> same_template obj q"
    and create_frame: "tsCreate api g ns obj c = (x, c') \<Longrightarrow>
      (g', ns', n') \<noteq> (g, ns, u_name obj) \<Longrightarrow> olook g' ns' n' c' = olook g' ns' n' c"
    and update_Inr: "tsUpdate api g ns obj c = (Inr q, c') \<Longrightarrow>
      olook g ns (u_name obj) c' = Some q \<and> same_template obj q"
    and update_frame: "tsUpdate api g ns obj c = (y, c') \<Longrightarrow>
      (g', ns', n') \<noteq> (g, ns, u_name obj) \<Longrightarrow> olook g' ns' n' c' = olook g' ns' n' c"
    and delete_None: "tsDelete api g ns n c = (None, c') \<Longrightarrow> olook g ns n c' = None"
    and delete_Some: "tsDelete api g ns n c = (Some err, c') \<Longrightarrow>
      olook g' ns' n' c' = olook g' ns' n' c \<and> (IsNotFound err \<longrightarrow> olook g ns n c = None)"
    and delete_frame: "tsDelete api g ns n c = (z, c') \<Longrightarrow>
      (g', ns', n') \<noteq> (g, ns, n) \<Longrightarrow> olook g' ns' n' c' = olook g' ns' n' c"
    and patch_frame: "tsPatch api g ns n pa s c = (d, c') \<Longrightarrow>
      (g', ns', n') \<noteq> (g, ns, n) \<Longrightarrow> olook g' ns' n' c' = olook g' ns' n' c"
    and patch_status: "tsPatch api g ns n pa ''status'' c = (d, c') \<Longrightarrow> olook g ns n c = Some e \<Longrightarrow>
      \<exists>e'. olook g ns n c' = Some e' \<and> same_template e e'"
    and patch_missing: "tsPatch api g ns n pa s c = (d, c') \<Longrightarrow> olook g ns n c = None \<Longrightarrow>
      olook g ns n c' = None"
begin

lemma untouched_call: "untouched olook f \<Longrightarrow> call f w = (x, w') \<Longrightarrow> olook g ns n (w_env w') = olook g ns n (w_env w)"
  by (auto simp: untouched_def call_def split: prod.splits)

lemma untouched_act: "untouched olook f \<Longrightarrow> act e f w = (x, w') \<Longrightarrow> olook g ns n (w_env w') = olook g ns n (w_env w)"
  by (auto simp: untouched_def act_def split: prod.splits)

lemmas read_calls = reads_untouched [THEN untouched_call]
lemmas write_acts = writes_untouched [THEN untouched_act]

lemma call_get:
  assumes "call (tsGet api g ns n) w = (x, w')"
  shows "x = Inr e \<Longrightarrow> olook g ns n (w_env w) = Some e"
    and "x = Inl err \<Longrightarrow> IsNotFound err \<Longrightarrow> olook g ns n (w_env w) = None"
  using assms get_Inr get_Inl by (auto simp: call_def split: prod.splits)

lemma act_create:
  assumes "act a (tsCreate api g ns obj) w = (x, w')"
  shows "x = Inr q \<Longrightarrow> olook g ns (u_name obj) (w_env w') = Some q \<and> same_template obj q"
    and "(g', ns', n') \<noteq> (g, ns, u_name obj) \<Longrightarrow> olook g' ns' n' (w_env w') = olook g' ns' n' (w_env w)"
  using assms create_Inr create_frame by (auto simp: act_def split: prod.splits)

lemma act_update:
  assumes "act a (tsUpdate api g ns obj) w = (x, w')"
  shows "x = Inr q \<Longrightarrow> olook g ns (u_name obj) (w_env w') = Some q \<and> same_template obj q"
    and "(g', ns', n') \<noteq> (g, ns, u_name obj) \<Longrightarrow> olook g' ns' n' (w_env w') = olook g' ns' n' (w_env w)"
  using assms update_Inr update_frame by (auto simp: act_def split: prod.splits)

lemma act_delete:
  assumes "act a (tsDelete api g ns n) w = (x, w')"
  shows "x = None \<Longrightarrow> olook g ns n (w_env w') = None"
    and "x = Some err \<Longrightarrow> olook g' ns' n' (w_env w') = olook g' ns' n' (w_env w)"
    and "x = Some err \<Longrightarrow> IsNotFound err \<Longrightarrow> olook g ns n (w_env w) = None"
    and "(g', ns', n') \<noteq> (g, ns, n) \<Longrightarrow> olook g' ns' n' (w_env w') = olook g' ns' n' (w_env w)"
  using assms delete_None delete_Some delete_frame by (auto simp: act_def split: prod.splits)

lemma act_patch:
  assumes "act a (tsPatch api g ns n p s) w = (x, w')"
  shows "(g', ns', n') \<noteq> (g, ns, n) \<Longrightarrow> olook g' ns' n' (w_env w') = olook g' ns' n' (w_env w)"
    and "s = ''status'' \<Longrightarrow> olook g ns n (w_env w) = Some e \<Longrightarrow>
      \<exists>e'. olook g ns n (w_env w') = Some e' \<and> same_template e e'"
    and "olook g ns n (w_env w) = None \<Longrightarrow> olook g ns n (w_env w') = None"
  using assms patch_frame patch_status patch_missing by (auto simp: act_def split: prod.splits)

end

section \<open>What is kept for one object\<close>

text \<open>The actions that leave the object with the given key alone, its status excepted.\<close>

fun spares :: "gvr \<Rightarrow> string \<Rightarrow> string \<Rightarrow> effect \<Rightarrow> bool" where
  "spares g ns n (ObjectCreate g' ns' obj) \<longleftrightarrow> (g, ns, n) \<noteq> (g', ns', u_name obj)"
| "spares g ns n (ObjectUpdate g' ns' obj) \<longleftrightarrow> (g, ns, n) \<noteq> (g', ns', u_name obj)"
| "spares g ns n (ObjectDelete g' ns' n') \<longleftrightarrow> (g, ns, n) \<noteq> (g', ns', n')"
| "spares g ns n (ObjectPatch g' ns' n' p s) \<longleftrightarrow> (g, ns, n) \<noteq> (g', ns', n') \<or> s = ''status''"
| "spares g ns n _ \<longleftrightarrow> True"

text \<open>A property of the stored object that does not look at its status.\<close>

definition status_free :: "(unstr option \<Rightarrow> bool) \<Rightarrow> bool" where
  "status_free Q \<longleftrightarrow> (\<forall>e e'. Q (Some e) \<longrightarrow> same_template e e' \<longrightarrow> Q (Some e'))"

lemma report_spares: "template_report inst request e \<Longrightarrow> spares g ns n e"
  by (cases e) simp_all

context object_store
begin

lemma keeps_object:
  assumes Q: "status_free Q"
  shows "template_inv api (\<lambda>w. Q (olook g ns n (w_env w))) (spares g ns n) inst request"
proof (unfold_locales, goal_cases)
  case (15 g' ns' m p s w y w')
  show ?case
  proof (cases "(g, ns, n) = (g', ns', m)")
    case True
    with 15(2) have s: "s = ''status''" by simp
    show ?thesis
    proof (cases "olook g ns n (w_env w)")
      case None
      then show ?thesis using True 15(3) act_patch(3) [OF 15(1)] by simp
    next
      case (Some e)
      then obtain e' where "olook g ns n (w_env w') = Some e'" "same_template e e'"
        using True act_patch(2) [OF 15(1) s] by auto
      then show ?thesis using Some 15(3) Q by (auto simp: status_free_def)
    qed
  next
    case False
    then show ?thesis using 15(3) act_patch(1) [OF 15(1) False] by simp
  qed
qed (auto simp: read_calls write_acts act_create(2) act_update(2) act_delete(4) report_spares)

lemmas keeps_lookup = keeps_object [of "\<lambda>e'. e' = None", unfolded status_free_def, simplified]

end

section \<open>Errors that are counted\<close>

fun counts :: "effect \<Rightarrow> bool" where
  "counts (CounterInc _ _ _ _) = True"
| "counts _ = False"

abbreviation no_error :: "'c world \<Rightarrow> 'c world \<Rightarrow> bool" where
  "no_error \<equiv> wrote (\<lambda>e. \<not> counts e)"

interpretation tany: template_inv api "wrote (\<lambda>_. True) w0" "\<lambda>_. True" inst request
  for api inst request w0
  by (rule template_inv_wrote) simp

lemma wrote_emitD: "wrote P w (emit e w') \<Longrightarrow> wrote (\<lambda>_. True) w w' \<Longrightarrow> P e"
  by (auto simp: wrote_def list_all_iff)

lemma error_counted [simp]:
  assumes "wrote (\<lambda>_. True) w w'"
  shows "\<not> no_error w (user_error inst n ty w')" "\<not> no_error w (system_error inst n ty w')"
  using assms wrote_emitD by (fastforce simp: user_error_def system_error_def)+

lemma any_object [simp]: "ok_object (\<lambda>_. True) inst api lib r t"
  by (simp add: ok_object_def)

lemma wrote_weaken: "wrote P w w' \<Longrightarrow> wrote (\<lambda>_. True) w w'"
  by (auto simp: wrote_def list_all_iff)

lemma wrote_later:
  assumes "wrote P w w'" and "wrote (\<lambda>_. True) w w1" and "wrote (\<lambda>_. True) w1 w'"
  shows "wrote P w1 w'"
  using assms by (auto simp: wrote_def)

section \<open>A template in sync\<close>

lemma in_sync_same:
  assumes "distinct (map fst (u_labels t))" and "distinct (map fst (u_annotations t))"
    and "same_template t e"
  shows "in_sync e t"
  using assms by (simp add: in_sync_def same_template_def covered_by_refl)

lemma in_sync_free: "status_free (\<lambda>s. \<exists>e. s = Some e \<and> in_sync e t)"
  by (auto simp: status_free_def in_sync_def same_template_def)

text \<open>The keys of the labels and annotations of the template are keys of Go maps.\<close>

definition map_keys :: "unstr \<Rightarrow> bool" where
  "map_keys u \<longleftrightarrow> distinct (map fst (u_labels u)) \<and> distinct (map fst (u_annotations u))"

lemma map_keys_object_to_create:
  "map_keys (tm_object t) \<Longrightarrow> map_keys (object_to_create lib r inst t)"
  by (simp add: map_keys_def object_to_create_def Let_def setDefaultTemplateLabels_def put_all_distinct)

lemma map_keys_wanted:
  assumes "map_keys (tm_object t)"
    and "is_gk_constraint_template (tm_gvk t) \<Longrightarrow>
      map_keys (fst (ApplyObjectDefaults (tsScheme api) ((tm_object t)\<lparr>u_owners := owners\<rparr>)))"
  shows "map_keys (template_defaults lib (wanted_object api r inst t owners))"
  using assms
  by (auto simp: map_keys_def wanted_object_def Let_def setDefaultTemplateLabels_def put_all_distinct)

lemma object_to_create_name [simp]: "u_name (object_to_create lib r inst t) = u_name (tm_object t)"
  by (simp add: object_to_create_def Let_def)

text \<open>The context that \<open>sync_template\<close> builds for a template.\<close>

definition template_ns :: "policy \<Rightarrow> bool \<Rightarrow> string" where
  "template_ns inst clusterScoped = (if \<not> clusterScoped then p_namespace inst else [])"

definition template_context ::
  "policy \<Rightarrow> nat \<Rightarrow> unstr \<Rightarrow> gvk \<Rightarrow> gvr \<Rightarrow> bool \<Rightarrow> unstr \<Rightarrow> dep_map \<Rightarrow> template_ctx" where
  "template_context inst i meta k g cs tObject fs =
     \<lparr>tm_index = i, tm_meta = meta, tm_gvk = k, tm_rsrc = g, tm_clusterScoped = cs,
      tm_ns = template_ns inst cs, tm_object = tObject, tm_failures = fs\<rparr>"

definition template_child :: "policy \<Rightarrow> gvk \<Rightarrow> bool \<Rightarrow> unstr \<Rightarrow> object_identifier" where
  "template_child inst k cs meta =
     \<lparr>oi_group = g_group k, oi_version = g_version k, oi_kind = g_kind k,
      oi_namespace = template_ns inst cs, oi_name = u_name meta\<rparr>"

lemma sync_template_context:
  assumes "unmarshalObject lib (t_raw policyT) = Inr tObject"
  shows "sync_template lib api r inst i policyT meta k g cs fs ls w =
    (let ls = ls\<lparr>ls_children := ls_children ls @ [template_child inst k cs meta]\<rparr>;
         t = template_context inst i meta k g cs tObject fs
     in case call (tsGet api g (template_ns inst cs) (u_name meta)) w of
          (Inr eObject, w) \<Rightarrow> existing_template lib api r inst t eObject ls w
        | (Inl err, w) \<Rightarrow>
            (if IsNotFound err then create_template lib api r inst t ls w
             else get_failed lib api r inst t err ls w))"
  using assms by (simp add: sync_template_def template_context_def template_child_def template_ns_def Let_def)

lemma get_failed_context:
  "get_failed lib api r inst (template_context inst i meta k g cs tObject fs) err ls w =
    (if err_reason err = Canceled
     then (TReturn (Failed (wrap_err
            (''failed to get the object in the policy template: '' @ err_msg err) err)),
           note_error (Some err) ls, w)
     else (TNext, note_error (Some err) ls, system_error inst (u_name meta) ''get-error''
             (emitTemplateError lib api r inst i (u_name meta) cs
                (''Failed to get the object in the policy template: '' @ err_msg err) w)))"
  by (simp add: get_failed_def template_context_def tm_name_def Let_def)

definition synced :: "'c object_lookup \<Rightarrow> template_ctx \<Rightarrow> unstr \<Rightarrow> 'c world \<Rightarrow> bool" where
  "synced olook t obj w \<longleftrightarrow>
     (\<exists>e. olook (tm_rsrc t) (tm_ns t) (tm_name t) (w_env w) = Some e \<and> in_sync e obj)"

context object_store
begin

lemma keeps_synced:
  "template_inv api (synced olook t obj) (spares (tm_rsrc t) (tm_ns t) (tm_name t)) inst request"
  unfolding synced_def by (rule keeps_object) (rule in_sync_free)

lemma create_template_synced:
  assumes run: "create_template lib api r inst t ls w = (TNext, ls', w')" and ok: "no_error w w'"
    and t: "tm_failures t = []" "hub_template_error t = []" "u_name (tm_object t) = tm_name t"
      "map_keys (tm_object t)"
  shows "synced olook t (object_to_create lib r inst t) w'"
proof -
  let ?obj = "object_to_create lib r inst t"
  obtain x w1 where create: "act (ObjectCreate (tm_rsrc t) (tm_ns t) ?obj)
      (tsCreate api (tm_rsrc t) (tm_ns t) ?obj) w = (x, w1)" by (metis surj_pair)
  have w1: "wrote (\<lambda>_. True) w w1" using wrote_act [OF create, of "\<lambda>_. True" w] by simp
  show ?thesis
  proof (cases x)
    case (Inl err)
    then show ?thesis
      using run ok create t w1 by (auto simp: create_template_def Let_def tany.I_emitTemplateError split: if_splits)
  next
    case (Inr e)
    then have "synced olook t ?obj w1"
      using act_create(1) [OF create] t map_keys_object_to_create [OF t(4), of lib r inst]
      by (auto simp: synced_def map_keys_def intro: in_sync_same)
    then show ?thesis
      using run create Inr t
      by (auto simp: create_template_def Let_def split: prod.splits sum.splits if_splits
          elim!: template_inv.I_emitGK [OF keeps_synced]
            template_inv.I_report_synced [OF keeps_synced, rotated])
  qed
qed

lemma update_template_synced:
  assumes run: "update_template lib api r inst t e t' ls w = (TNext, ls', w')" and ok: "no_error w w'"
    and t: "u_name e = tm_name t" "map_keys t'"
  shows "synced olook t t' w'"
proof -
  let ?obj = "updated_object e t'"
  obtain x w1 where upd: "act (ObjectUpdate (tm_rsrc t) (tm_ns t) ?obj)
      (tsUpdate api (tm_rsrc t) (tm_ns t) ?obj) w = (x, w1)" by (metis surj_pair)
  have w1: "wrote (\<lambda>_. True) w w1" using wrote_act [OF upd, of "\<lambda>_. True" w] by simp
  show ?thesis
  proof (cases x)
    case (Inl err)
    then show ?thesis
      using run ok upd w1 by (auto simp: update_template_def Let_def tany.I_emitTemplateError split: if_splits)
  next
    case (Inr q)
    then have "synced olook t t' w1"
      using act_update(1) [OF upd] t
      by (auto simp: synced_def map_keys_def same_template_def in_sync_def covered_by_refl)
    then show ?thesis
      using run upd Inr
      by (auto simp: update_template_def Let_def split: prod.splits if_splits
          elim!: template_inv.I_report_synced [OF keeps_synced, rotated])
  qed
qed

lemma sync_existing_synced:
  assumes run: "sync_existing lib api r inst t e ls w = (TNext, ls', w')" and ok: "no_error w w'"
    and t: "tm_failures t = []" "hub_template_error t = []" "u_name e = tm_name t"
      "olook (tm_rsrc t) (tm_ns t) (tm_name t) (w_env w) = Some e"
      "\<And>owners. map_keys (template_defaults lib (wanted_object api r inst t owners))"
  shows "\<exists>owners. synced olook t (template_defaults lib (wanted_object api r inst t owners)) w'"
proof -
  obtain owners refName where owner: "owner_of lib inst t e = (owners, refName)" by fastforce
  let ?t' = "template_defaults lib (wanted_object api r inst t owners)"
  show ?thesis
  proof (cases "p_name inst = refName \<and> in_sync e ?t'")
    case True
    then have "synced olook t ?t' w" using t by (simp add: synced_def)
    then show ?thesis
      using True owner run ok t(1,2)
      by (auto simp: sync_existing_def confirm_template_def Let_def equivalentTemplates_in_sync
          split: prod.splits option.splits elim!: template_inv.I_handleSyncSuccess [OF keeps_synced, rotated]
          intro!: exI [of _ owners] template_inv.I_errors [OF keeps_synced])
  next
    case False
    then show ?thesis
      using owner run ok t(1,2)
      by (auto simp: sync_existing_def confirm_template_def Let_def equivalentTemplates_in_sync tany.I_emitTemplateError
          split: if_splits intro!: exI [of _ owners] dest: update_template_synced [OF _ ok t(3,5)])
  qed
qed

text \<open>Reports change no object.\<close>

lemma keeps_all:
  "template_inv api (\<lambda>w. olook g ns n (w_env w) = s) (template_report inst request) inst request"
  by unfold_locales (auto simp: read_calls write_acts)

text \<open>Reading the object and reporting on a constraint template does not change it.\<close>

lemma existing_template_pre:
  assumes "existing_template lib api r inst t e ls w = (TNext, ls', w')"
  obtains ls1 w1 where "sync_existing lib api r inst t e ls1 w1 = (TNext, ls', w')"
    "wrote (\<lambda>_. True) w w1" "\<forall>g ns n. olook g ns n (w_env w1) = olook g ns n (w_env w)"
proof -
  note same = keeps_all [where request = undefined]
  show ?thesis
  proof (cases "is_gk_constraint_template (tm_gvk t)")
    case True
    with assms obtain b w1 where gk: "emitGKConstraintTemplateErrMsg lib api r (tm_object t) (tm_rsrc t)
        (tm_ns t) inst (tm_index t) (tm_name t) w = (Inr b, w1)"
      by (auto simp: existing_template_def split: prod.splits sum.splits)
    obtain emitErr w2 where ev: "(if \<not> b
          then emitTemplateSuccess lib api r inst (tm_index t) (tm_name t) (tm_clusterScoped t)
                 (g_kind (tm_gvk t) @ '' '' @ tm_name t @ '' was created successfully'') w1
          else (None, w1)) = (emitErr, w2)" by fastforce
    show ?thesis
    proof (rule that)
      show "sync_existing lib api r inst t e (note_error emitErr ls) w2 = (TNext, ls', w')"
        using assms True gk ev by (simp add: existing_template_def)
      show "wrote (\<lambda>_. True) w w2"
        using tany.I_emitGK [OF gk, of w] ev
        by (auto split: if_splits dest: tany.I_emitTemplateSuccess)
      have "olook g ns n (w_env w2) = olook g ns n (w_env w)" for g ns n
        using template_inv.I_emitGK [OF same gk, of g ns n] ev
        by (auto split: if_splits dest: template_inv.I_emitTemplateSuccess [OF same])
      then show "\<forall>g ns n. olook g ns n (w_env w2) = olook g ns n (w_env w)" by blast
    qed
  next
    case False
    then have "sync_existing lib api r inst t e ls w = (TNext, ls', w')"
      using assms by (simp add: existing_template_def)
    then show ?thesis by (rule that) simp_all
  qed
qed

lemma sync_template_synced:
  assumes run: "sync_template lib api r inst i policyT meta k g cs [] ls w = (TNext, ls', w')"
    and ok: "no_error w w'"
    and t: "t = template_context inst i meta k g cs tObject []"
      "unmarshalObject lib (t_raw policyT) = Inr tObject" "u_name tObject = u_name meta"
      "hub_template_error t = []" "map_keys tObject"
      "\<And>owners. map_keys (template_defaults lib (wanted_object api r inst t owners))"
  shows "synced olook t (object_to_create lib r inst t) w' \<or>
    (\<exists>owners. synced olook t (template_defaults lib (wanted_object api r inst t owners)) w')"
proof -
  let ?ls = "ls\<lparr>ls_children := ls_children ls @ [template_child inst k cs meta]\<rparr>"
  have tm: "tm_rsrc t = g" "tm_ns t = template_ns inst cs" "tm_name t = u_name meta"
    "tm_object t = tObject" "tm_failures t = []"
    by (simp_all add: t(1) template_context_def tm_name_def)
  obtain x w1 where get: "call (tsGet api g (template_ns inst cs) (u_name meta)) w = (x, w1)"
    by fastforce
  have w1: "wrote (\<lambda>_. True) w w1" using wrote_call [OF get, of "\<lambda>_. True" w] by simp
  show ?thesis
  proof (cases x)
    case (Inl err)
    show ?thesis
    proof (cases "IsNotFound err")
      case True
      then have c: "create_template lib api r inst t ?ls w1 = (TNext, ls', w')"
        using run get Inl t(1,2) by (simp add: sync_template_context)
      then have "no_error w1 w'"
        using tany.I_create_template [OF any_object c, of w1] by (intro wrote_later [OF ok w1]) simp
      with create_template_synced [OF c] tm t(3,4,5) show ?thesis by simp
    next
      case False
      then show ?thesis
        using run get Inl t(1,2) ok w1
        by (auto simp: sync_template_context get_failed_context Let_def tany.I_emitTemplateError split: if_splits)
    qed
  next
    case (Inr e)
    then have "existing_template lib api r inst t e ?ls w1 = (TNext, ls', w')"
      using run get t(1,2) by (simp add: sync_template_context)
    then obtain ls2 w2 where s: "sync_existing lib api r inst t e ls2 w2 = (TNext, ls', w')"
      "wrote (\<lambda>_. True) w1 w2" "\<forall>g ns n. olook g ns n (w_env w2) = olook g ns n (w_env w1)"
      by (rule existing_template_pre)
    have e: "olook (tm_rsrc t) (tm_ns t) (tm_name t) (w_env w2) = Some e"
      using s(3) call_get(1) [OF get Inr] read_calls(5) [OF get] by (simp add: tm)
    have "wrote (\<lambda>_. True) w w2" using w1 s(2) by (auto simp: wrote_def)
    then have "no_error w2 w'"
      using tany.I_sync_existing [OF any_object s(1), of w2] by (intro wrote_later [OF ok]) simp_all
    with sync_existing_synced [OF s(1)] e olook_name [OF e] tm t(4,6) show ?thesis by simp
  qed
qed

text \<open>What happens to an object that exists, from the read on.\<close>

lemma sync_template_found:
  assumes run: "sync_template lib api r inst i policyT meta k g cs fs ls w = (TNext, ls', w')"
    and t: "t = template_context inst i meta k g cs tObject fs"
      "unmarshalObject lib (t_raw policyT) = Inr tObject"
    and e: "olook g (template_ns inst cs) (u_name meta) (w_env w) = Some e"
  shows "(ls_error ls' \<noteq> None \<and> (\<forall>g ns n. olook g ns n (w_env w') = olook g ns n (w_env w))) \<or>
    (\<exists>ls1 w1. sync_existing lib api r inst t e ls1 w1 = (TNext, ls', w') \<and>
       (\<forall>g ns n. olook g ns n (w_env w1) = olook g ns n (w_env w)))"
proof -
  obtain x w1 where get: "call (tsGet api g (template_ns inst cs) (u_name meta)) w = (x, w1)"
    by fastforce
  note w1 = read_calls(5) [OF get]
  show ?thesis
  proof (cases x)
    case (Inl err)
    have "\<not> IsNotFound err" using call_get(2) [OF get Inl] e by auto
    then have "ls_error ls' \<noteq> None \<and> w' = system_error inst (u_name meta) ''get-error''
        (emitTemplateError lib api r inst i (u_name meta) cs
           (''Failed to get the object in the policy template: '' @ err_msg err) w1)"
      using run get Inl t(2) by (auto simp: sync_template_context get_failed_context note_error_def Let_def split: if_splits)
    moreover have "olook g ns n (w_env (system_error inst (u_name meta) ''get-error''
        (emitTemplateError lib api r inst i (u_name meta) cs
           (''Failed to get the object in the policy template: '' @ err_msg err) w1))) =
        olook g ns n (w_env w)" for g ns n
      using w1 by (intro template_inv.I_errors(2) [OF keeps_all [where request = undefined]]
          template_inv.I_emitTemplateError [OF keeps_all [where request = undefined]])
    ultimately show ?thesis by simp
  next
    case (Inr e')
    then have "e' = e" using call_get(1) [OF get Inr] e by simp
    then have "existing_template lib api r inst t e
        (ls\<lparr>ls_children := ls_children ls @ [template_child inst k cs meta]\<rparr>) w1 = (TNext, ls', w')"
      using run get Inr t by (simp add: sync_template_context)
    then obtain ls2 w2 where "sync_existing lib api r inst t e ls2 w2 = (TNext, ls', w')"
      "\<forall>g ns n. olook g ns n (w_env w2) = olook g ns n (w_env w1)"
      by (rule existing_template_pre)
    with w1 show ?thesis by auto
  qed
qed

lemma sync_template_foreign:
  assumes run: "sync_template lib api r inst i policyT meta k g cs [] ls w = (TNext, ls', w')"
    and t: "t = template_context inst i meta k g cs tObject []"
      "unmarshalObject lib (t_raw policyT) = Inr tObject" "hub_template_error t = []"
    and e: "olook g (template_ns inst cs) (u_name meta) (w_env w) = Some e"
      "snd (owner_of lib inst t e) \<noteq> p_name inst"
  shows "ls_error ls' \<noteq> None \<and> (\<forall>g ns n. olook g ns n (w_env w') = olook g ns n (w_env w))"
  using sync_template_found [OF run t(1,2) e(1)]
proof (elim disjE exE conjE)
  fix ls1 w1
  assume s: "sync_existing lib api r inst t e ls1 w1 = (TNext, ls', w')"
    and w1: "\<forall>g ns n. olook g ns n (w_env w1) = olook g ns n (w_env w)"
  have "tm_failures t = []" by (simp add: t(1) template_context_def)
  then obtain n1 n2 m where "ls_error ls' \<noteq> None" and w': "w' = user_error inst n1 n2
      (emitTemplateError lib api r inst (tm_index t) (tm_name t) (tm_clusterScoped t) m w1)"
    using s t(3) e(2) by (auto simp: sync_existing_def confirm_template_def Let_def note_error_def split: prod.splits)
  then show ?thesis
    using w1 by (auto intro!: template_inv.I_errors(1) [OF keeps_all [where request = undefined]]
        template_inv.I_emitTemplateError [OF keeps_all [where request = undefined]])
qed simp

lemma sync_template_pending:
  assumes run: "sync_template lib api r inst i policyT meta k g cs fs ls w = (TNext, ls', w')"
    and fs: "fs \<noteq> []" and t: "unmarshalObject lib (t_raw policyT) = Inr tObject"
    and ok: "ls_error ls' = None"
  shows "olook g (template_ns inst cs) (u_name meta) (w_env w') = None"
proof (cases "olook g (template_ns inst cs) (u_name meta) (w_env w)")
  case None
  obtain x w1 where get: "call (tsGet api g (template_ns inst cs) (u_name meta)) w = (x, w1)"
    by fastforce
  obtain err where x: "x = Inl err" using call_get(1) [OF get] None by (cases x) auto
  then have "IsNotFound err"
    using run get t ok by (auto simp: sync_template_context get_failed_context note_error_def Let_def split: if_splits)
  then obtain emitErr where "emitTemplatePending lib api r inst i (u_name meta) cs
      (generatePendingMsg fs) w1 = (emitErr, w')"
    using run get x t fs
    by (auto simp: sync_template_context create_template_def template_context_def tm_name_def Let_def
        split: prod.splits)
  then show ?thesis
    using template_inv.I_emitTemplatePending [OF keeps_all [where request = undefined]]
      None read_calls(5) [OF get] by metis
next
  case (Some e)
  let ?t = "template_context inst i meta k g cs tObject fs"
  from sync_template_found [OF run refl t Some] ok obtain ls1 w1
    where s: "sync_existing lib api r inst ?t e ls1 w1 = (TNext, ls', w')" by auto
  then obtain emitErr w2 ls2 where "delete_template api inst ?t ls2 w2 = (ls', w')"
    using fs by (auto simp: sync_existing_def confirm_template_def pending_template_def template_context_def Let_def
        split: prod.splits)
  then show ?thesis
    using ok act_delete(1)
    by (auto simp: delete_template_def note_error_def template_context_def tm_name_def
        split: prod.splits option.splits)
qed

end

section \<open>Objects that go\<close>

text \<open>The actions when there is nothing to sync: reports, and the reset of the status.\<close>

fun quiet :: "template_ctx \<Rightarrow> policy \<Rightarrow> effect \<Rightarrow> bool" where
  "quiet t inst (ObjectPatch g ns n patch sub) \<longleftrightarrow>
     (g, ns, n) = (tm_rsrc t, tm_ns t, tm_name t) \<and> patch = status_reset_patch \<and> sub = ''status''"
| "quiet t inst e \<longleftrightarrow> template_report inst (policy_nn inst) e"

lemma report_quiet: "template_report inst (policy_nn inst) e \<Longrightarrow> quiet t inst e"
  by (cases e) simp_all

text \<open>The actions that do not put the object with the given key on the cluster.\<close>

fun stays_away :: "gvr \<Rightarrow> string \<Rightarrow> string \<Rightarrow> effect \<Rightarrow> bool" where
  "stays_away g ns n (ObjectDelete _ _ _) \<longleftrightarrow> True"
| "stays_away g ns n e \<longleftrightarrow> spares g ns n e"

lemma report_stays_away: "template_report inst request e \<Longrightarrow> stays_away g ns n e"
  by (cases e) simp_all

fun deletes_other :: "gvr \<Rightarrow> string \<Rightarrow> string \<Rightarrow> policy \<Rightarrow> namespaced_name \<Rightarrow> effect \<Rightarrow> bool" where
  "deletes_other g ns n inst request (ObjectDelete g' ns' n') \<longleftrightarrow> (g, ns, n) \<noteq> (g', ns', n')"
| "deletes_other g ns n inst request e \<longleftrightarrow> template_report inst request e"

definition cleanup_ns :: "template_reconciler \<Rightarrow> gvr_scoped \<Rightarrow> string" where
  "cleanup_ns r gs = (if gs_namespaced gs then tr_clusterNamespace r else [])"

text \<open>The objects to be cleaned up: of the resources \<open>gs\<close>, with the label of the policy, and without a template
  of their name.\<close>

definition excess ::
  "'c object_lookup \<Rightarrow> template_reconciler \<Rightarrow> policy \<Rightarrow> string list \<Rightarrow> gvr_scoped list \<Rightarrow> 'c
     \<Rightarrow> gvr \<Rightarrow> string \<Rightarrow> string \<Rightarrow> bool" where
  "excess olook r inst names gs c g ns n \<longleftrightarrow>
     (g, ns) \<in> (\<lambda>x. (gs_gvr x, cleanup_ns r x)) ` set gs \<and> n \<notin> set names \<and>
     (\<exists>e. olook g ns n c = Some e \<and> map_of (u_labels e) ParentPolicyLabel = Some (p_name inst))"

lemma report_deletes_other: "template_report inst request e \<Longrightarrow> deletes_other g ns n inst request e"
  by (cases e) simp_all

context object_store
begin

lemma keeps_away:
  assumes Q: "status_free Q" "Q None"
  shows "template_inv api (\<lambda>w. Q (olook g ns n (w_env w))) (stays_away g ns n) inst request"
proof -
  note obj = keeps_object [OF Q(1), of g ns n inst request]
  show ?thesis
  proof (unfold_locales, goal_cases)
    case (14 g' ns' m w y w')
    show ?case
    proof (cases "(g, ns, n) = (g', ns', m) \<and> y = None")
      case True
      with act_delete(1) [OF 14(1)] Q(2) show ?thesis by auto
    next
      case False
      then have "olook g ns n (w_env w') = olook g ns n (w_env w)"
        using act_delete(2,4) [OF 14(1)] by (cases y) auto
      with 14(3) show ?thesis by simp
    qed
  next
    case (15 g' ns' m p s w y w')
    then show ?case using template_inv.I_patch [OF obj] by simp
  qed (auto simp: read_calls write_acts act_create(2) act_update(2) report_stays_away)
qed

lemma keeps_exactly:
  "template_inv api (\<lambda>w. olook g ns n (w_env w) = s) (deletes_other g ns n inst request) inst request"
  by unfold_locales (auto simp: read_calls write_acts act_delete(4) report_deletes_other)

text \<open>What a clean-up does to the objects, with or without errors.\<close>

lemma delete_children_look:
  assumes "delete_children api g ns names cs w = (errs, w')"
  shows "(g', ns') \<noteq> (g, ns) \<or> n \<in> set names \<or> n \<notin> set cs \<Longrightarrow> olook g' ns' n (w_env w') = olook g' ns' n (w_env w)"
    and "errs = [] \<Longrightarrow> n \<in> set cs \<Longrightarrow> n \<notin> set names \<Longrightarrow> olook g ns n (w_env w') = None"
proof -
  have "((g', ns') \<noteq> (g, ns) \<or> n \<in> set names \<or> n \<notin> set cs \<longrightarrow> olook g' ns' n (w_env w') = olook g' ns' n (w_env w)) \<and>
    (errs = [] \<and> n \<in> set cs \<and> n \<notin> set names \<longrightarrow> olook g ns n (w_env w') = None)" for g' ns'
    using assms
  proof (induction cs arbitrary: w w' errs g' ns')
    case (Cons c cs)
    show ?case
    proof (cases "c \<in> set names")
      case True
      then have "delete_children api g ns names cs w = (errs, w')" using Cons.prems by simp
      from Cons.IH [OF this, of g' ns'] show ?thesis using True by auto
    next
      case False
      obtain d w1 where d: "act (ObjectDelete g ns c) (tsDelete api g ns c) w = (d, w1)" by fastforce
      obtain errs1 w2 where rest: "delete_children api g ns names cs w1 = (errs1, w2)" by fastforce
      have r: "w' = w2" "errs = [] \<Longrightarrow> d = None \<and> errs1 = []"
        using Cons.prems False d rest by (auto split: option.splits)
      note IH = Cons.IH [OF rest, of g' ns'] Cons.IH [OF rest, of g ns]
      show ?thesis
      proof (intro conjI impI)
        assume a: "(g', ns') \<noteq> (g, ns) \<or> n \<in> set names \<or> n \<notin> set (c # cs)"
        then have "(g', ns', n) \<noteq> (g, ns, c)" using False by auto
        then have "olook g' ns' n (w_env w1) = olook g' ns' n (w_env w)" by (rule act_delete(4) [OF d])
        then show "olook g' ns' n (w_env w') = olook g' ns' n (w_env w)" using a IH(1) r(1) by auto
      next
        assume a: "errs = [] \<and> n \<in> set (c # cs) \<and> n \<notin> set names"
        then have "olook g ns c (w_env w1) = None" using r(2) act_delete(1) [OF d] by simp
        then show "olook g ns n (w_env w') = None" using a IH(2) r by (cases "n \<in> set cs") auto
      qed
    qed
  qed simp
  then show "(g', ns') \<noteq> (g, ns) \<or> n \<in> set names \<or> n \<notin> set cs \<Longrightarrow> olook g' ns' n (w_env w') = olook g' ns' n (w_env w)"
    and "errs = [] \<Longrightarrow> n \<in> set cs \<Longrightarrow> n \<notin> set names \<Longrightarrow> olook g ns n (w_env w') = None" by blast+
qed

lemma clean_gvrs_exact:
  assumes "clean_gvrs api r inst names gs w = (errs, w')"
  shows "(\<not> excess olook r inst names gs (w_env w) g ns n \<longrightarrow> olook g ns n (w_env w') = olook g ns n (w_env w)) \<and>
    (errs = [] \<and> excess olook r inst names gs (w_env w) g ns n \<longrightarrow> olook g ns n (w_env w') = None)"
  using assms
proof (induction gs arbitrary: w w' errs)
  case (Cons g1 gs)
  let ?ns = "cleanup_ns r g1" and ?sel = "ParentPolicyLabel @ ''='' @ p_name inst"
  let ?here = "(g, ns) = (gs_gvr g1, ?ns)"
  let ?labelled = "\<lambda>c. \<exists>e. olook g ns n c = Some e \<and> map_of (u_labels e) ParentPolicyLabel = Some (p_name inst)"
  have split: "excess olook r inst names (g1 # gs) c g ns n \<longleftrightarrow>
      (?here \<and> n \<notin> set names \<and> ?labelled c) \<or> excess olook r inst names gs c g ns n" for c
    by (auto simp: excess_def)
  obtain l w1 where l: "call (tsList api (gs_gvr g1) ?ns ?sel) w = (l, w1)" by fastforce
  have w1: "olook g ns n (w_env w1) = olook g ns n (w_env w)" using read_calls(6) [OF l] .
  show ?case
  proof (cases l)
    case (Inl err)
    obtain errs1 w2 where rest: "clean_gvrs api r inst names gs w1 = (errs1, w2)" by fastforce
    have "w' = w2" "errs \<noteq> []" using Cons.prems l Inl rest by (auto simp: cleanup_ns_def Let_def)
    then show ?thesis using Cons.IH [OF rest] w1 split by (auto simp: excess_def)
  next
    case (Inr cs)
    obtain errs1 w2 where d: "delete_children api (gs_gvr g1) ?ns names cs w1 = (errs1, w2)" by fastforce
    obtain errs2 w3 where rest: "clean_gvrs api r inst names gs w2 = (errs2, w3)" by fastforce
    have r: "w' = w3" "errs = errs1 @ errs2" using Cons.prems l Inr d rest by (auto simp: cleanup_ns_def Let_def)
    have cs: "?here \<Longrightarrow> n \<in> set cs \<longleftrightarrow> ?labelled (w_env w)"
      using l Inr list_Inr by (auto simp: call_def split: prod.splits)
    have keep: "\<not> (?here \<and> n \<notin> set names \<and> ?labelled (w_env w)) \<Longrightarrow> olook g ns n (w_env w2) = olook g ns n (w_env w)"
      using delete_children_look(1) [OF d, of g ns n] cs w1 by auto
    have gone: "?here \<and> n \<notin> set names \<and> ?labelled (w_env w) \<Longrightarrow> errs1 = [] \<Longrightarrow> olook g ns n (w_env w2) = None"
      using delete_children_look(2) [OF d, of n] cs by auto
    have same: "olook g ns n (w_env w2) = olook g ns n (w_env w) \<Longrightarrow>
        excess olook r inst names gs (w_env w2) g ns n \<longleftrightarrow> excess olook r inst names gs (w_env w) g ns n"
      by (simp add: excess_def)
    have none: "olook g ns n (w_env w2) = None \<Longrightarrow> \<not> excess olook r inst names gs (w_env w2) g ns n"
      by (simp add: excess_def)
    note IH = Cons.IH [OF rest]
    show ?thesis
    proof (cases "?here \<and> n \<notin> set names \<and> ?labelled (w_env w)")
      case True
      then have "excess olook r inst names (g1 # gs) (w_env w) g ns n" using split by blast
      moreover have "errs = [] \<Longrightarrow> olook g ns n (w_env w') = None" using IH none gone [OF True] r by auto
      ultimately show ?thesis by blast
    next
      case False
      then have "excess olook r inst names (g1 # gs) (w_env w) g ns n \<longleftrightarrow> excess olook r inst names gs (w_env w2) g ns n"
        using split [of "w_env w"] same keep by blast
      then show ?thesis using IH keep [OF False] r by auto
    qed
  qed
qed (simp add: excess_def)

lemma cleanUp_exact:
  assumes "cleanUpExcessTemplates lib api r inst names created w = (x, created', w')"
    and "gatekeeper_gvrs api created w = (gk, created1, w1)"
    and "policy_type_gvrs lib api w1 = (Inr crds, w2)"
  shows "\<not> excess olook r inst names (gk @ crds) (w_env w) g ns n \<Longrightarrow> olook g ns n (w_env w') = olook g ns n (w_env w)"
    and "x = None \<Longrightarrow> excess olook r inst names (gk @ crds) (w_env w) g ns n \<Longrightarrow> olook g ns n (w_env w') = None"
proof -
  obtain errs w3 where c: "clean_gvrs api r inst names (gk @ crds) w2 = (errs, w3)" by fastforce
  have r: "w' = w3" "x = None \<Longrightarrow> errs = []"
    using assms c by (auto simp: cleanUpExcessTemplates_def)
  have "olook g ns n (w_env w2) = olook g ns n (w_env w)" for g ns n
    using template_inv.I_gatekeeper_gvrs [OF keeps_all [where request = undefined] assms(2), of g ns n]
      template_inv.I_policy_type_gvrs [OF keeps_all [where request = undefined] assms(3), of g ns n] by simp
  then have "excess olook r inst names (gk @ crds) (w_env w2) g ns n \<longleftrightarrow>
      excess olook r inst names (gk @ crds) (w_env w) g ns n" "olook g ns n (w_env w2) = olook g ns n (w_env w)"
    by (simp_all add: excess_def)
  then show "\<not> excess olook r inst names (gk @ crds) (w_env w) g ns n \<Longrightarrow> olook g ns n (w_env w') = olook g ns n (w_env w)"
    and "x = None \<Longrightarrow> excess olook r inst names (gk @ crds) (w_env w) g ns n \<Longrightarrow> olook g ns n (w_env w') = None"
    using clean_gvrs_exact [OF c, of g ns n] r by simp_all
qed

lemma finalizer_loop_errors:
  assumes "finalizer_loop b lib api pol ts errs w = (errs', w')"
  shows "\<exists>more. errs' = errs @ more"
  using assms
proof (induction ts arbitrary: b errs w)
  case (Cons t ts)
  from Cons.prems show ?case
    by (auto simp: Let_def split: sum.splits prod.splits option.splits if_splits dest!: Cons.IH)
qed simp

lemma finalizer_loop_gone:
  assumes "finalizer_loop b lib api pol ts errs w = ([], w')" and "t \<in> set ts"
    and "decodeTemplate lib (t_raw t) = Inr (Some obj, k)"
    and "\<And>w. fst (GVRFromGVK (tsDiscovery api) k w) = Inr (g, False)"
  shows "olook g [] (u_name obj) (w_env w') = None"
  using assms(1,2)
proof (induction ts arbitrary: errs w)
  case (Cons t1 ts)
  have keeps: "template_inv api (\<lambda>w. olook g [] (u_name obj) (w_env w) = None)
      (stays_away g [] (u_name obj)) pol undefined"
    by (rule keeps_away) (simp_all add: status_free_def)
  show ?case
  proof (cases "t \<in> set ts")
    case True
    obtain errs1 w1 where "finalizer_loop b lib api pol ts errs1 w1 = ([], w')"
      using Cons.prems(1)
      by (auto simp: Let_def split: sum.splits prod.splits option.splits if_splits)
    with Cons.IH True show ?thesis by blast
  next
    case False
    with Cons.prems(2) have t1: "t1 = t" by simp
    obtain w1 where m: "GVRFromGVK (tsDiscovery api) k w = (Inr (g, False), w1)"
      using assms(4) [of w] by (cases "GVRFromGVK (tsDiscovery api) k w") simp
    obtain x w2 where d: "act (ObjectDelete g [] (u_name obj)) (tsDelete api g [] (u_name obj)) w1 = (x, w2)"
      by fastforce
    have x: "x = None \<or> (\<exists>err. x = Some err \<and> IsNotFound err)"
      using Cons.prems(1) assms(3) t1 m d
      by (auto simp: Let_def split: option.splits if_splits dest!: finalizer_loop_errors)
    then have "finalizer_loop b lib api pol ts errs w2 = ([], w')"
      using Cons.prems(1) assms(3) t1 m d by (auto simp: Let_def)
    moreover have "olook g [] (u_name obj) (w_env w2) = None"
      using x act_delete(1,2,3) [OF d] by auto
    ultimately show ?thesis using template_inv.I_finalizer_loop [OF keeps] by simp
  qed
qed simp

lemma sync_template_quiet:
  assumes run: "sync_template lib api r inst i policyT meta k g cs [] ls w = (x, ls', w')"
    and t: "t = template_context inst i meta k g cs tObject []"
      "unmarshalObject lib (t_raw policyT) = Inr tObject" "hub_template_error t = []"
    and e: "olook g (template_ns inst cs) (u_name meta) (w_env w) = Some e"
      "owner_of lib inst t e = (owners, p_name inst)"
      "in_sync e (template_defaults lib (wanted_object api r inst t owners))"
  shows "wrote (quiet t inst) w w'"
proof -
  have inv: "template_inv api (wrote (quiet t inst) w) (quiet t inst) inst (policy_nn inst)"
    by (rule template_inv_wrote) (rule report_quiet)
  have tm: "tm_failures t = []" "tm_rsrc t = g" "tm_ns t = template_ns inst cs" "tm_name t = u_name meta"
    by (simp_all add: t(1) template_context_def tm_name_def)
  have ex: "existing_template lib api r inst t e ls1 w1 = (x1, ls2, w2) \<Longrightarrow>
      wrote (quiet t inst) w w1 \<Longrightarrow> wrote (quiet t inst) w w2" for ls1 ls2 w1 w2 x1
    using e(2,3) t(3) tm
    by (auto simp: existing_template_def sync_existing_def confirm_template_def equivalentTemplates_in_sync Let_def
        split: prod.splits sum.splits option.splits if_splits
        elim!: template_inv.I_emitGK [OF inv] template_inv.I_emitTemplateSuccess [OF inv]
          template_inv.I_handleSyncSuccess [OF inv, rotated]
        intro!: template_inv.I_errors [OF inv])
  obtain y w1 where get: "call (tsGet api g (template_ns inst cs) (u_name meta)) w = (y, w1)"
    by fastforce
  have w1: "wrote (quiet t inst) w w1" using template_inv.I_get [OF inv get] by simp
  show ?thesis
  proof (cases y)
    case (Inl err)
    have "\<not> IsNotFound err" using call_get(2) [OF get Inl] e(1) by auto
    then show ?thesis
      using run get Inl t(2) w1
      by (auto simp: sync_template_context get_failed_context Let_def split: if_splits
          intro!: template_inv.I_errors [OF inv] template_inv.I_emitTemplateError [OF inv])
  next
    case (Inr e')
    then have "e' = e" using call_get(1) [OF get Inr] e(1) by simp
    then show ?thesis
      using run get Inr t(1,2) ex w1 by (auto simp: sync_template_context Let_def)
  qed
qed

end

section \<open>An in-memory cluster\<close>

text \<open>One policy and a list of objects; the resources are those of the configuration policies and
  of a cluster-scoped kind with the policy-type label.\<close>

record omem =
  om_policy :: "policy option"
  om_objects :: "((gvr \<times> string \<times> string) \<times> unstr) list"

definition om_look :: "omem object_lookup" where
  "om_look g ns n m =
     (case map_of (om_objects m) (g, ns, n) of
        None \<Rightarrow> None
      | Some e \<Rightarrow> if u_name e = n then Some e else None)"

definition om_put :: "gvr \<Rightarrow> string \<Rightarrow> unstr \<Rightarrow> omem \<Rightarrow> omem" where
  "om_put g ns e m = m\<lparr>om_objects := ((g, ns, u_name e), e) # om_objects m\<rparr>"

definition om_missing :: gerr where
  "om_missing = GErr NotFound ''not found''"

definition om_get :: "gvr \<Rightarrow> string \<Rightarrow> string \<Rightarrow> omem \<Rightarrow> (gerr + unstr) \<times> omem" where
  "om_get g ns n m = (case om_look g ns n m of None \<Rightarrow> Inl om_missing | Some e \<Rightarrow> Inr e, m)"

definition om_list :: "gvr \<Rightarrow> string \<Rightarrow> string \<Rightarrow> omem \<Rightarrow> (gerr + string list) \<times> omem" where
  "om_list g ns sel m =
     (Inr (filter (\<lambda>n. case om_look g ns n m of
            None \<Rightarrow> False
          | Some e \<Rightarrow> map_of (u_labels e) ParentPolicyLabel = Some (TrimPrefix sel (ParentPolicyLabel @ ''='')))
        (map (\<lambda>((_, _, n), _). n) (om_objects m))), m)"

definition om_create :: "gvr \<Rightarrow> string \<Rightarrow> unstr \<Rightarrow> omem \<Rightarrow> (gerr + unstr) \<times> omem" where
  "om_create g ns e m =
     (case om_look g ns (u_name e) m of
        None \<Rightarrow> (Inr e, om_put g ns e m)
      | Some _ \<Rightarrow> (Inl (GErr OtherReason ''already exists''), m))"

definition om_update :: "gvr \<Rightarrow> string \<Rightarrow> unstr \<Rightarrow> omem \<Rightarrow> (gerr + unstr) \<times> omem" where
  "om_update g ns e m =
     (case om_look g ns (u_name e) m of
        None \<Rightarrow> (Inl om_missing, m)
      | Some _ \<Rightarrow> (let e = e\<lparr>u_resourceVersion := ''1'' @ u_resourceVersion e\<rparr> in (Inr e, om_put g ns e m)))"

definition om_delete :: "gvr \<Rightarrow> string \<Rightarrow> string \<Rightarrow> omem \<Rightarrow> gerr option \<times> omem" where
  "om_delete g ns n m =
     (case om_look g ns n m of
        None \<Rightarrow> (Some om_missing, m)
      | Some _ \<Rightarrow> (None, m\<lparr>om_objects := filter (\<lambda>(k, _). k \<noteq> (g, ns, n)) (om_objects m)\<rparr>))"

definition om_patch :: "gvr \<Rightarrow> string \<Rightarrow> string \<Rightarrow> string \<Rightarrow> string \<Rightarrow> omem \<Rightarrow> gerr option \<times> omem" where
  "om_patch g ns n patch sub m =
     (if om_look g ns n m = None then (Some om_missing, m) else (None, m))"

definition om_papi :: "omem policy_api" where
  "om_papi = \<lparr>polGet = \<lambda>cl k m. (case om_policy m of
         None \<Rightarrow> Inl om_missing
       | Some p \<Rightarrow> if policy_nn p = k then Inr p else Inl om_missing, m),
     polCreate = \<lambda>cl p m. (Inr p, m\<lparr>om_policy := Some p\<rparr>),
     polUpdate = \<lambda>cl p m. (Inr p, m\<lparr>om_policy := Some p\<rparr>),
     polStatusUpdate = \<lambda>cl p m. (Inr p, m\<lparr>om_policy := Some p\<rparr>),
     polDelete = \<lambda>cl k m. (None, m\<lparr>om_policy := None\<rparr>)\<rparr>"

definition om_discovery :: "string \<Rightarrow> omem \<Rightarrow> (gerr + api_resource list) \<times> omem" where
  "om_discovery gv m =
     (Inr [\<lparr>ar_name = ''configurationpolicies'', ar_kind = ''ConfigurationPolicy'', ar_namespaced = True\<rparr>,
           \<lparr>ar_name = ''clusterpolicies'', ar_kind = ''ClusterPolicy'', ar_namespaced = False\<rparr>], m)"

definition om_api :: "(bool \<Rightarrow> gerr + (bool \<times> string) list) \<Rightarrow> (omem, unit) template_api" where
  "om_api cts = \<lparr>tsPolicies = om_papi,
     tsEvents = \<lparr>evList = \<lambda>_ m. (Inr [], m), evCreate = \<lambda>_ m. (None, m), clockNow = \<lambda>m. (0, m)\<rparr>,
     tsWatcher = \<lparr>wStart = \<lambda>_ m. (None, m), wEnd = \<lambda>_ m. (None, m),
       wGet = \<lambda>_ _ _ _ m. ((None, None), m), wSet = \<lambda>_ _ m. (None, m), wRemove = \<lambda>_ m. (None, m)\<rparr>,
     tsNewClient = \<lambda>m. (None, m), tsDiscovery = om_discovery, tsGet = om_get, tsCreate = om_create,
     tsUpdate = om_update, tsDelete = om_delete, tsPatch = om_patch, tsList = om_list,
     tsCrdLabels = \<lambda>_ _ m. (Inr [PolicyTypeLabel \<mapsto> ''template''], m),
     tsListConstraintTemplates = \<lambda>b m. (cts b, m),
     tsListCrds = \<lambda>_ m. (Inr [\<lparr>cr_group = APIGroup, cr_plural = ''configurationpolicies'',
       cr_versions = [''v1''], cr_namespaced = True\<rparr>], m),
     tsScheme = \<lparr>sNew = \<lambda>_. Inl (GErr NotRegistered []), sKind = \<lambda>_. [], sFromUnstructured = \<lambda>_ t. Inr t,
       sDefault = id, sMarshal = \<lambda>_. Inr [], sUnmarshal = \<lambda>_. Inl (GErr OtherReason [])\<rparr>\<rparr>"

lemma om_look_put [simp]:
  "om_look g ns n (om_put g' ns' e m) =
     (if (g, ns, n) = (g', ns', u_name e) then Some e else om_look g ns n m)"
  by (simp add: om_look_def om_put_def)

lemma om_look_remove [simp]:
  "om_look g ns n (m\<lparr>om_objects := filter (\<lambda>(k, _). k \<noteq> (g', ns', n')) (om_objects m)\<rparr>) =
     (if (g, ns, n) = (g', ns', n') then None else om_look g ns n m)"
proof -
  have "map_of (filter (\<lambda>(k, _). k \<noteq> (g', ns', n')) xs) (g, ns, n) =
      (if (g, ns, n) = (g', ns', n') then None else map_of xs (g, ns, n))" for xs :: "((gvr \<times> string \<times> string) \<times> unstr) list"
    by (induction xs) auto
  then show ?thesis by (simp add: om_look_def)
qed

lemma om_look_policy [simp]: "om_look g ns n (m\<lparr>om_policy := p\<rparr>) = om_look g ns n m"
  by (simp add: om_look_def)

lemmas om_defs = om_api_def om_papi_def om_discovery_def om_get_def om_list_def om_create_def
  om_update_def om_delete_def om_patch_def om_missing_def IsNotFound_def

lemma om_list_mem:
  assumes "om_look g ns n m = Some e"
  shows "n \<in> set (map (\<lambda>((_, _, n), _). n) (om_objects m))"
  using assms by (force simp: om_look_def dest: map_of_SomeD split: option.splits if_splits)

lemma om_look_name: "om_look g ns n m = Some e \<Longrightarrow> u_name e = n"
  by (simp add: om_look_def split: option.splits if_splits)

interpretation om: object_store "om_api cts" om_look for cts
proof (unfold_locales, goal_cases)
  case (17 g ns pol c names c' n)
  moreover have "TrimPrefix (ParentPolicyLabel @ CHR ''='' # pol) (ParentPolicyLabel @ ''='') = pol"
    using TrimPrefix_append [of "ParentPolicyLabel @ ''=''" pol] by simp
  ultimately show ?case
    using om_list_mem [of g ns n c] by (auto simp: om_defs split: option.splits)
next
  case 14
  then show ?case by (rule om_look_name)
qed (fastforce simp: om_defs untouched_def same_template_def field_def Let_def
    split: option.splits if_splits)+

end
