(* ===== verification/TemplateProperties.thy ===== *)
theory TemplateProperties
  imports TemplateStore
begin

text \<open>
  The properties of the template-sync controller, with witnesses on the in-memory cluster of
  theory \<open>TemplateStore\<close>: what a reconcile may write, that a synced template agrees with its
  object and is then left alone, which objects are never touched, what goes when a dependency is
  not satisfied, when templates are dropped and when the policy is deleted, and three defects.
\<close>

section \<open>A sample policy\<close>

definition ts_obj :: "string \<Rightarrow> unstr" where
  "ts_obj raw =
     \<lparr>u_gvk = \<lparr>g_group = APIGroup, g_version = ''v1'',
        g_kind = (if raw = ''cluster'' then ''ClusterPolicy'' else ''ConfigurationPolicy'')\<rparr>,
      u_name = raw, u_namespace = [], u_uid = [], u_resourceVersion = [], u_labels = [],
      u_annotations = [], u_owners = [],
      u_content = [(''spec'', JObj [(''severity'', JStr ''low'')])]\<rparr>"

definition ts_lib :: klib where
  "ts_lib = tu_lib\<lparr>decodeTemplate := \<lambda>raw. Inr (Some (ts_obj raw), u_gvk (ts_obj raw)),
     unmarshalObject := \<lambda>raw. Inr (ts_obj raw)\<rparr>"

definition ts_reconciler :: template_reconciler where
  "ts_reconciler = \<lparr>tr_clusterNamespace = ''c1'', tr_instanceName = ''me'', tr_disableGkSync = False\<rparr>"

definition ts_api :: "(omem, unit) template_api" where
  "ts_api = om_api (\<lambda>_. Inr [])"

definition ts_world :: "policy \<Rightarrow> ((gvr \<times> string \<times> string) \<times> unstr) list \<Rightarrow> omem world" where
  "ts_world p objs = \<lparr>w_env = \<lparr>om_policy = Some p, om_objects = objs\<rparr>, w_log = []\<rparr>"

definition ts_gvr :: gvr where
  "ts_gvr = \<lparr>r_group = APIGroup, r_version = ''v1'', r_resource = ''configurationpolicies''\<rparr>"

interpretation ts: object_store ts_api om_look
  unfolding ts_api_def by (rule om.object_store_axioms)

lemmas ts_defs = ts_api_def ts_world_def ts_lib_def ts_reconciler_def ts_obj_def ts_gvr_def
  tu_lib_def tu_policy_def tu_template_def

lemma ts_get: "call (polGet (tsPolicies ts_api) Managed (nn ''c1'' ''pol'')) (ts_world (tu_policy ns) objs) =
    (Inr (tu_policy ns), ts_world (tu_policy ns) objs)"
  by (simp add: call_def ts_api_def ts_world_def om_api_def om_papi_def policy_nn_def tu_policy_def)

section \<open>What a reconcile writes\<close>


abbreviation ts_run :: "policy \<Rightarrow> ((gvr \<times> string \<times> string) \<times> unstr) list
    \<Rightarrow> reconcile_result \<times> bool option \<times> omem world" where
  "ts_run p objs \<equiv>
     Reconcile_template False ts_lib ts_api ts_reconciler (nn ''c1'' ''pol'') None (ts_world p objs)"


section \<open>Templates and their objects\<close>

text \<open>C4. A template whose dependencies are satisfied and whose pass ends without a counted error
  has its object on the cluster, with the specification, annotations, labels and owners that
  were to be created or, for an object that existed, that the defaulted template asks for.\<close>

theorem template_in_sync:
  assumes "object_store api olook"
    and "sync_template lib api r inst i policyT meta k g cs [] ls w = (TNext, ls', w')"
    and "no_error w w'" and "t = template_context inst i meta k g cs tObject []"
    and "unmarshalObject lib (t_raw policyT) = Inr tObject" and "u_name tObject = u_name meta"
    and "hub_template_error t = []" and "map_keys tObject"
    and "\<And>owners. map_keys (template_defaults lib (wanted_object api r inst t owners))"
  shows "synced olook t (object_to_create lib r inst t) w' \<or>
    (\<exists>owners. synced olook t (template_defaults lib (wanted_object api r inst t owners)) w')"
  by (rule object_store.sync_template_synced [OF assms])

abbreviation ts_start :: loop_state where
  "ts_start \<equiv> loop_start [] None"

abbreviation ts_sync :: "dep_map \<Rightarrow> omem world \<Rightarrow> template_flow \<times> loop_state \<times> omem world" where
  "ts_sync fs w \<equiv> sync_template ts_lib ts_api ts_reconciler (tu_policy [''a'']) 0 (tu_template ''a'') (ts_obj ''a'')
     (u_gvk (ts_obj ''a'')) ts_gvr False fs ts_start w"

abbreviation ts_ctx :: "dep_map \<Rightarrow> template_ctx" where
  "ts_ctx \<equiv> template_context (tu_policy [''a'']) 0 (ts_obj ''a'') (u_gvk (ts_obj ''a'')) ts_gvr False (ts_obj ''a'')"

lemma ts_ctx_facts:
  "unmarshalObject ts_lib (t_raw (tu_template ''a'')) = Inr (ts_obj ''a'')"
  "hub_template_error (ts_ctx fs) = []" "map_keys (ts_obj ''a'')"
  "map_keys (template_defaults lib (wanted_object ts_api r inst (ts_ctx fs) owners))"
  "u_name (ts_obj ''a'') = ''a''" "template_ns (tu_policy [''a'']) False = ''c1''"
proof -
  show keys: "map_keys (ts_obj ''a'')" by (simp add: map_keys_def ts_obj_def)
  show "map_keys (template_defaults lib (wanted_object ts_api r inst (ts_ctx fs) owners))"
    by (rule map_keys_wanted) (use keys in \<open>simp_all add: template_context_def ts_obj_def
        is_gk_constraint_template_def APIGroup_def ConstraintTemplateGroup_def\<close>)
qed (simp_all add: ts_lib_def tu_template_def ts_obj_def hub_template_error_def template_context_def
    lookup_str_def template_ns_def tu_policy_def)

lemma ts_sync_created:
  "fst (ts_sync [] (ts_world (tu_policy [''a'']) [])) = TNext \<and>
   list_all (\<lambda>e. \<not> counts e) (w_log (snd (snd (ts_sync [] (ts_world (tu_policy [''a'']) [])))))"
  by code_simp

theorem template_in_sync_witness:
  "\<exists>e. om_look ts_gvr ''c1'' ''a'' (w_env (snd (snd (ts_sync [] (ts_world (tu_policy [''a'']) []))))) = Some e"
proof -
  obtain x ls' w' where run: "ts_sync [] (ts_world (tu_policy [''a'']) []) = (x, ls', w')"
    by (rule prod_cases3)
  have x: "x = TNext" and ok: "no_error (ts_world (tu_policy [''a'']) []) w'"
    using ts_sync_created run by (simp_all add: wrote_def ts_world_def)
  from template_in_sync [OF ts.object_store_axioms run [unfolded x] ok refl ts_ctx_facts(1) refl
      ts_ctx_facts(2,3,4)] run
  show ?thesis
    by (auto simp: synced_def template_context_def tm_name_def ts_ctx_facts)
qed

text \<open>C18. An object that belongs to the policy and agrees with its template is left alone: a pass
  over it only reports, or resets its status.\<close>

theorem template_sync_quiescent:
  assumes "object_store api olook"
    and "sync_template lib api r inst i policyT meta k g cs [] ls w = (x, ls', w')"
    and "t = template_context inst i meta k g cs tObject []"
    and "unmarshalObject lib (t_raw policyT) = Inr tObject" and "hub_template_error t = []"
    and "olook g (template_ns inst cs) (u_name meta) (w_env w) = Some e"
    and "owner_of lib inst t e = (owners, p_name inst)"
    and "in_sync e (template_defaults lib (wanted_object api r inst t owners))"
  shows "wrote (quiet t inst) w w'"
  by (rule object_store.sync_template_quiet [OF assms])

definition ts_existing :: "string \<Rightarrow> unstr" where
  "ts_existing owner =
     (object_to_create ts_lib ts_reconciler (tu_policy [''a'']) (ts_ctx []))
       \<lparr>u_owners := [\<lparr>or_apiVersion = ''v1'', or_kind = ''Policy'', or_name = owner, or_uid = ''u1'',
          or_controller = Some True, or_blockOwnerDeletion = Some True\<rparr>]\<rparr>"

abbreviation ts_found :: "string \<Rightarrow> omem world" where
  "ts_found owner \<equiv> ts_world (tu_policy [''a'']) [((ts_gvr, ''c1'', ''a''), ts_existing owner)]"

lemma ts_found_look:
  "om_look ts_gvr (template_ns (tu_policy [''a'']) False) (u_name (ts_obj ''a'')) (w_env (ts_found owner)) =
     Some (ts_existing owner)"
  by (simp add: ts_ctx_facts om_look_def ts_world_def ts_existing_def) (simp add: template_context_def ts_obj_def)

lemma ts_existing_owner:
  "owner_of ts_lib (tu_policy [''a'']) (ts_ctx []) (ts_existing ''pol'') = (u_owners (ts_existing ''pol''), ''pol'')"
  "snd (owner_of ts_lib (tu_policy [''a'']) (ts_ctx []) (ts_existing ''other'')) = ''other''"
  by (simp_all add: owner_of_def ts_existing_def tu_policy_def Let_def)

lemma ts_existing_sync:
  "in_sync (ts_existing ''pol'') (template_defaults ts_lib
     (wanted_object ts_api ts_reconciler (tu_policy [''a'']) (ts_ctx []) (u_owners (ts_existing ''pol''))))"
  by code_simp

theorem template_sync_quiescent_witness:
  "wrote (quiet (ts_ctx []) (tu_policy [''a''])) (ts_found ''pol'') (snd (snd (ts_sync [] (ts_found ''pol''))))"
proof -
  obtain x ls' w' where run: "ts_sync [] (ts_found ''pol'') = (x, ls', w')" by (rule prod_cases3)
  have own: "owner_of ts_lib (tu_policy [''a'']) (ts_ctx []) (ts_existing ''pol'') =
      (u_owners (ts_existing ''pol''), p_name (tu_policy [''a'']))"
    using ts_existing_owner(1) by (simp add: tu_policy_def)
  show ?thesis
    using template_sync_quiescent [OF ts.object_store_axioms run refl ts_ctx_facts(1,2) ts_found_look own
        ts_existing_sync] run by simp
qed

text \<open>C17. The object of a template that belongs to another policy, or to none, is not touched, provided that
  the dependencies of the template are satisfied and that the hub resolved the template without an
  error: the pass changes no object at all and the reconcile has an error to return. In the two cases left
  out the owner is not checked: a pending template deletes the object (the next property), and a template
  that carries a hub template error patches and deletes it.\<close>

theorem foreign_object_untouched:
  assumes "object_store api olook"
    and "sync_template lib api r inst i policyT meta k g cs [] ls w = (TNext, ls', w')"
    and "t = template_context inst i meta k g cs tObject []"
    and "unmarshalObject lib (t_raw policyT) = Inr tObject" and "hub_template_error t = []"
    and "olook g (template_ns inst cs) (u_name meta) (w_env w) = Some e"
    and "snd (owner_of lib inst t e) \<noteq> p_name inst"
  shows "ls_error ls' \<noteq> None \<and> (\<forall>g ns n. olook g ns n (w_env w') = olook g ns n (w_env w))"
  by (rule object_store.sync_template_foreign [OF assms])

lemma ts_foreign_next: "fst (ts_sync [] (ts_found ''other'')) = TNext"
  by code_simp

theorem foreign_object_untouched_witness:
  "om_look ts_gvr ''c1'' ''a'' (w_env (snd (snd (ts_sync [] (ts_found ''other''))))) = Some (ts_existing ''other'')"
proof -
  obtain x ls' w' where run: "ts_sync [] (ts_found ''other'') = (x, ls', w')" by (rule prod_cases3)
  then have x: "x = TNext" using ts_foreign_next by simp
  have own: "snd (owner_of ts_lib (tu_policy [''a'']) (ts_ctx []) (ts_existing ''other'')) \<noteq> p_name (tu_policy [''a''])"
    using ts_existing_owner(2) by (simp add: tu_policy_def)
  show ?thesis
    using foreign_object_untouched [OF ts.object_store_axioms run [unfolded x] refl ts_ctx_facts(1,2)
        ts_found_look own] ts_found_look run by (simp add: ts_ctx_facts)
qed

text \<open>C19. A template with an unsatisfied dependency has no object on the cluster once its pass ends
  without an error to return. An object with its name is deleted whatever policy it belongs to:
  the owner is only checked for templates that are not pending.\<close>

theorem pending_template_absent:
  assumes "object_store api olook"
    and "sync_template lib api r inst i policyT meta k g cs fs ls w = (TNext, ls', w')"
    and "fs \<noteq> []" and "unmarshalObject lib (t_raw policyT) = Inr tObject" and "ls_error ls' = None"
  shows "olook g (template_ns inst cs) (u_name meta) (w_env w') = None"
  by (rule object_store.sync_template_pending [OF assms])

lemma ts_pending_next:
  "fst (ts_sync [tu_dep ''d''] (ts_found ''other'')) = TNext \<and>
   ls_error (fst (snd (ts_sync [tu_dep ''d''] (ts_found ''other'')))) = None"
  by code_simp

theorem pending_template_absent_witness:
  "om_look ts_gvr ''c1'' ''a'' (w_env (ts_found ''other'')) = Some (ts_existing ''other'') \<and>
   om_look ts_gvr ''c1'' ''a'' (w_env (snd (snd (ts_sync [tu_dep ''d''] (ts_found ''other''))))) = None"
proof -
  obtain x ls' w' where run: "ts_sync [tu_dep ''d''] (ts_found ''other'') = (x, ls', w')" by (rule prod_cases3)
  then have x: "x = TNext" and ok: "ls_error ls' = None" using ts_pending_next by simp_all
  from pending_template_absent [OF ts.object_store_axioms run [unfolded x] _ ts_ctx_facts(1) ok] run
  show ?thesis using ts_found_look by (simp add: ts_ctx_facts)
qed

section \<open>Objects without a template\<close>

text \<open>C11. The clean-up removes exactly the excess objects: those of the resources it looks through, in the
  cluster namespace or the cluster scope, that carry the label of the policy and whose name is not that
  of a template. Every other object is as it was, the objects of other policies and those without a label
  included, whether the clean-up succeeds or not; after a clean-up without an error the excess objects are
  gone.\<close>

theorem cleanup_exact:
  assumes "object_store api olook"
    and "cleanUpExcessTemplates lib api r inst names created w = (x, created', w')"
    and "gatekeeper_gvrs api created w = (gk, created1, w1)"
    and "policy_type_gvrs lib api w1 = (Inr crds, w2)"
  shows "(\<forall>g ns n. \<not> excess olook r inst names (gk @ crds) (w_env w) g ns n \<longrightarrow>
      olook g ns n (w_env w') = olook g ns n (w_env w)) \<and>
    (x = None \<longrightarrow> (\<forall>g ns n. excess olook r inst names (gk @ crds) (w_env w) g ns n \<longrightarrow> olook g ns n (w_env w') = None))"
  using object_store.cleanUp_exact [OF assms] by blast

abbreviation ts_cleanup :: "string list \<Rightarrow> gerr option \<times> bool option \<times> omem world" where
  "ts_cleanup names \<equiv> cleanUpExcessTemplates ts_lib ts_api ts_reconciler (tu_policy [''a'']) names None (ts_found ''pol'')"

lemma ts_cleanup_None: "fst (ts_cleanup []) = None"
  by code_simp

lemma ts_cleanup_gvrs:
  "gatekeeper_gvrs ts_api None w = ([], Some False, w)"
  "policy_type_gvrs ts_lib ts_api w = (Inr [\<lparr>gs_gvr = ts_gvr, gs_namespaced = True\<rparr>], w)"
  by (simp_all add: gatekeeper_gvrs_def policy_type_gvrs_def call_def ts_api_def om_api_def ts_gvr_def)

theorem cleanup_exact_witness:
  "om_look ts_gvr ''c1'' ''a'' (w_env (ts_found ''pol'')) = Some (ts_existing ''pol'') \<and>
   om_look ts_gvr ''c1'' ''a'' (w_env (snd (snd (ts_cleanup [])))) = None \<and>
   om_look ts_gvr ''c1'' ''a'' (w_env (snd (snd (ts_cleanup [''a''])))) = Some (ts_existing ''pol'')"
proof -
  let ?gs = "[] @ [\<lparr>gs_gvr = ts_gvr, gs_namespaced = True\<rparr>]"
  have look: "om_look ts_gvr ''c1'' ''a'' (w_env (ts_found ''pol'')) = Some (ts_existing ''pol'')"
    using ts_found_look by (simp add: ts_ctx_facts)
  have ex: "excess om_look ts_reconciler (tu_policy [''a'']) [] ?gs (w_env (ts_found ''pol'')) ts_gvr ''c1'' ''a''"
    "\<not> excess om_look ts_reconciler (tu_policy [''a'']) [''a''] ?gs (w_env (ts_found ''pol'')) ts_gvr ''c1'' ''a''"
    using look by (simp_all add: excess_def cleanup_ns_def ts_reconciler_def ts_existing_def tu_policy_def)
  obtain x gk w' where run: "ts_cleanup [] = (x, gk, w')" by (rule prod_cases3)
  then have x: "x = None" using ts_cleanup_None by simp
  obtain y gk2 w2 where run2: "ts_cleanup [''a''] = (y, gk2, w2)" by (rule prod_cases3)
  show ?thesis
    using cleanup_exact [OF ts.object_store_axioms run ts_cleanup_gvrs]
      cleanup_exact [OF ts.object_store_axioms run2 ts_cleanup_gvrs] ex x look run run2 by simp
qed

section \<open>The finalizer\<close>

text \<open>C12. When a policy that has templates and the clusterwide finalizer is being deleted, the finalizer is
  only given up (the policy updated) after the objects of all its cluster-scoped templates are gone. This
  is about the deletion only: a policy that is not being deleted loses the finalizer without this clean-up
  when it has no templates left, or when a pass found none of its templates to be cluster-scoped.\<close>

theorem finalizer_guards_cleanup:
  assumes "object_store api olook"
    and "call (polGet (tsPolicies api) Managed request) w = (Inr inst, w1)"
    and "p_deleting inst" and "hasClusterwideFinalizer inst" and "getDupName lib inst = []"
    and "Reconcile_template uninstalling lib api r request createdGk w = (res, createdGk', w')"
    and "PolicyUpdate Managed p \<in> set (drop (length (w_log w)) (w_log w'))"
    and "t \<in> set (sp_templates (p_spec inst))" and "decodeTemplate lib (t_raw t) = Inr (Some obj, k)"
    and "\<And>w. fst (GVRFromGVK (tsDiscovery api) k w) = Inr (g, False)"
  shows "olook g [] (u_name obj) (w_env w') = None"
proof -
  let ?P = "\<lambda>e. e \<noteq> PolicyUpdate Managed p"
  have inv: "template_inv api (wrote ?P w) ?P inst request"
    by (rule template_inv_wrote) auto
  have ts: "sp_templates (p_spec inst) \<noteq> []" using assms(8) by auto
  have w1: "wrote ?P w w1" using template_inv.I_polGet [OF inv assms(2)] by simp
  obtain c w2 where new: "call (tsNewClient api) w1 = (c, w2)" by fastforce
  have w2: "wrote ?P w w2" using template_inv.I_new [OF inv new w1] .
  obtain errs w3 where loop: "finalizer_loop uninstalling lib api inst (sp_templates (p_spec inst)) [] w2 =
      (errs, w3)" by fastforce
  have w3: "wrote ?P w w3" using template_inv.I_finalizer_loop [OF inv _ loop w2] by simp
  have updated: "\<not> wrote ?P w w'" using wrote_suffix assms(7) by blast
  have c: "c = None"
    using assms(2,6) new ts w2 updated
    by (cases c) (auto simp: Reconcile_template_def intro!: template_inv.I_errors [OF inv] elim!: notE)
  have "delete_policy uninstalling lib api inst w2 = (res, w')"
    using assms(2,3,5,6) new ts c by (auto simp: Reconcile_template_def split: prod.splits)
  then have errs: "errs = []" and w': "\<exists>w4 y. update_policy api (removeFinalizer inst ClusterwideFinalizer) w3 = (y, w4) \<and>
      w_env w' = w_env w4"
    using assms(4) loop w3 updated
    by (auto simp: delete_policy_def finalizerCleanup_def system_error_def split: prod.splits option.splits)
  from w' have "olook g [] (u_name obj) (w_env w') = olook g [] (u_name obj) (w_env w3)"
    using object_store.write_acts(4) [OF assms(1)]
    by (auto simp: update_policy_def split: prod.splits sum.splits)
  then show ?thesis
    using object_store.finalizer_loop_gone [OF assms(1) loop [unfolded errs] assms(8,9,10)] by simp
qed

definition ts_deleting :: policy where
  "ts_deleting = (tu_policy [''cluster''])\<lparr>p_deleting := True, p_finalizers := [ClusterwideFinalizer]\<rparr>"

definition ts_cluster_gvr :: gvr where
  "ts_cluster_gvr = \<lparr>r_group = APIGroup, r_version = ''v1'', r_resource = ''clusterpolicies''\<rparr>"

abbreviation ts_deletion :: "reconcile_result \<times> bool option \<times> omem world" where
  "ts_deletion \<equiv> ts_run ts_deleting [((ts_cluster_gvr, [], ''cluster''), ts_obj ''cluster'')]"

fun updates_policy :: "effect \<Rightarrow> bool" where
  "updates_policy (PolicyUpdate cl p) \<longleftrightarrow> cl = Managed"
| "updates_policy _ \<longleftrightarrow> False"

lemma ts_deletion_log: "list_ex updates_policy (w_log (snd (snd ts_deletion)))"
  by code_simp

theorem finalizer_guards_cleanup_witness:
  "om_look ts_cluster_gvr [] ''cluster'' (w_env (snd (snd ts_deletion))) = None"
proof -
  obtain res gk w' where run: "ts_deletion = (res, gk, w')" by (rule prod_cases3)
  obtain p where p: "PolicyUpdate Managed p \<in> set (w_log w')"
    using ts_deletion_log run by (auto simp: list_ex_iff elim!: updates_policy.elims)
  have get: "call (polGet (tsPolicies ts_api) Managed (nn ''c1'' ''pol''))
      (ts_world ts_deleting [((ts_cluster_gvr, [], ''cluster''), ts_obj ''cluster'')]) =
      (Inr ts_deleting, ts_world ts_deleting [((ts_cluster_gvr, [], ''cluster''), ts_obj ''cluster'')])"
    by (simp add: call_def ts_api_def ts_world_def om_api_def om_papi_def policy_nn_def ts_deleting_def
        tu_policy_def)
  have "om_look ts_cluster_gvr [] (u_name (ts_obj ''cluster'')) (w_env w') = None"
  proof (rule finalizer_guards_cleanup [OF ts.object_store_axioms get _ _ _ run, where p = p and
        t = "tu_template ''cluster''" and k = "u_gvk (ts_obj ''cluster'')"])
    show "hasClusterwideFinalizer ts_deleting" by code_simp
    show "getDupName ts_lib ts_deleting = []" by code_simp
    show "fst (GVRFromGVK (tsDiscovery ts_api) (u_gvk (ts_obj ''cluster'')) w) = Inr (ts_cluster_gvr, False)" for w
      by (simp add: GVRFromGVK_def call_def ts_api_def om_api_def om_discovery_def ts_obj_def ts_cluster_gvr_def)
  qed (use p in \<open>simp_all add: ts_deleting_def tu_policy_def ts_world_def ts_lib_def tu_template_def\<close>)
  with run show ?thesis by (simp add: ts_obj_def)
qed

section \<open>Defects\<close>

text \<open>C34. On a cluster that serves only the \<^verbatim>\<open>v1beta1\<close> version of the constraint templates, the
  clean-up never looks through the constraint templates: the branch tests the length of the
  \<^verbatim>\<open>v1\<close> list, whose query has failed. It also forgets that Gatekeeper objects were created.\<close>

theorem cleanup_v1beta1_skips_templates:
  assumes "call (tsListConstraintTemplates api False) w = (Inl err, w1)" and "IsNoMatchError err"
    and "call (tsListConstraintTemplates api True) w1 = (Inr items, w2)" and "created \<noteq> Some False"
  shows "gatekeeper_gvrs api created w = (map (\<lambda>(_, kind). constraint_gvr kind) items, Some False, w2) \<and>
    list_all (\<lambda>g. gs_gvr g \<noteq> gs_gvr (constraint_template_gvr v)) (fst (gatekeeper_gvrs api created w))"
proof -
  have "gatekeeper_gvrs api created w = (map (\<lambda>(_, kind). constraint_gvr kind) items, Some False, w2)"
    using assms by (cases created) (auto simp: gatekeeper_gvrs_def)
  then show ?thesis
    by (auto simp: list_all_iff constraint_gvr_def constraint_template_gvr_def GConstraint_def
        ConstraintTemplateGroup_def)
qed

definition ts_beta :: "bool \<Rightarrow> gerr + (bool \<times> string) list" where
  "ts_beta b = (if b then Inr [(True, ''K8sLabels'')] else Inl (GErr NoMatch ''no match''))"

theorem cleanup_v1beta1_skips_templates_witness:
  "gatekeeper_gvrs (om_api ts_beta) (Some True) (ts_found ''pol'') =
     ([constraint_gvr ''K8sLabels''], Some False, ts_found ''pol'')"
  using cleanup_v1beta1_skips_templates [of "om_api ts_beta" "ts_found ''pol''"
      "GErr NoMatch ''no match''" "ts_found ''pol''" "[(True, ''K8sLabels'')]" "ts_found ''pol''" "Some True"]
  by (simp add: call_def om_api_def ts_beta_def IsNoMatchError_def)

text \<open>C37. When the event for a pending template cannot be sent and the object is deleted, the error
  stored for the reconcile becomes nil, even one of an earlier template, so that the request is
  not queued again.\<close>

theorem pending_error_lost:
  assumes "emitTemplatePending lib api r inst (tm_index t) (tm_name t) (tm_clusterScoped t)
      (generatePendingMsg (tm_failures t)) w = (Some emitErr, w1)"
    and "act (ObjectDelete (tm_rsrc t) (tm_ns t) (tm_name t))
      (tsDelete api (tm_rsrc t) (tm_ns t) (tm_name t)) w1 = (None, w2)"
  shows "\<exists>ls'. pending_template lib api r inst t ls w = (ls', w2) \<and> result_of ls' = Done"
  using assms by (simp add: pending_template_def delete_template_def result_of_def)

definition ts_broken :: "(omem, unit) template_api" where
  "ts_broken = ts_api\<lparr>tsEvents := (tsEvents ts_api)\<lparr>evCreate := \<lambda>_ m. (Some (GErr ServerTimeout ''timeout''), m)\<rparr>\<rparr>"

theorem pending_error_lost_witness:
  "result_of (fst (pending_template ts_lib ts_broken ts_reconciler (tu_policy [''a'']) (ts_ctx [tu_dep ''d''])
     (ts_start\<lparr>ls_error := Some (GErr OtherReason ''earlier'')\<rparr>) (ts_found ''pol''))) = Done"
proof -
  let ?t = "ts_ctx [tu_dep ''d'']"
  let ?emit = "emitTemplatePending ts_lib ts_broken ts_reconciler (tu_policy [''a'']) (tm_index ?t) (tm_name ?t)
    (tm_clusterScoped ?t) (generatePendingMsg (tm_failures ?t)) (ts_found ''pol'')"
  obtain x w1 where e: "?emit = (x, w1)" by fastforce
  have x: "fst ?emit = Some (GErr ServerTimeout ''timeout'')" by code_simp
  obtain y w2 where d: "act (ObjectDelete (tm_rsrc ?t) (tm_ns ?t) (tm_name ?t))
      (tsDelete ts_broken (tm_rsrc ?t) (tm_ns ?t) (tm_name ?t)) w1 = (y, w2)" by fastforce
  have y: "fst (act (ObjectDelete (tm_rsrc ?t) (tm_ns ?t) (tm_name ?t))
      (tsDelete ts_broken (tm_rsrc ?t) (tm_ns ?t) (tm_name ?t)) (snd ?emit)) = None" by code_simp
  show ?thesis
    using pending_error_lost [of ts_lib ts_broken ts_reconciler "tu_policy [''a'']" ?t "ts_found ''pol''"
        "GErr ServerTimeout ''timeout''" w1 w2 "ts_start\<lparr>ls_error := Some (GErr OtherReason ''earlier'')\<rparr>"] e d x y
    by auto
qed

text \<open>C35. A template that is a list panics: its decoded object is not a \<^verbatim>\<open>metav1.Object\<close>, and its name
  is read before the conversion is checked. Wherever such a template is in a policy that is neither being
  deleted nor has duplicate names, a reconcile outside of an uninstallation panics when it gets to it: when
  the passes over the templates before it did not end the reconcile and its extra dependencies are in
  order.\<close>

theorem list_template_panics:
  assumes "call (polGet (tsPolicies api) Managed request) w = (Inr inst, w1)"
    and "call (tsNewClient api) w1 = (None, w2)" and "getDupName lib inst = []" and "\<not> p_deleting inst"
    and "sp_templates (p_spec inst) = earlier @ t # ts"
    and "top_level_deps r inst (sp_dependencies (p_spec inst)) [] w2 = (deps, w3)"
    and "templates_loop lib api r request inst deps 0 earlier (loop_start deps createdGk) w3 = (TNext, ls, w4)"
    and "decodeTemplate lib (t_raw t) = Inr (None, k)"
    and "extra_deps lib api r inst (length earlier) (is_gk_obj k) (t_extraDependencies t) (ls_deps ls) deps w4 =
      (None, allDeps, templateDeps, w5)"
  shows "fst (Reconcile_template False lib api r request createdGk w) = Panicked"
proof -
  have "templates_loop lib api r request inst deps 0 (earlier @ t # ts) (loop_start deps createdGk) w3 =
      (TReturn Panicked, ls\<lparr>ls_deps := allDeps\<rparr>, w5)"
    using templates_loop_append [OF assms(7)] assms(8,9) by (simp add: template_step_def)
  then show ?thesis
    using assms(1-6) by (simp add: Reconcile_template_def sync_policy_def)
qed

definition ts_list_lib :: klib where
  "ts_list_lib = ts_lib\<lparr>decodeTemplate := \<lambda>raw.
     if raw = ''list'' then Inr (None, \<lparr>g_group = [], g_version = ''v1'', g_kind = ''List''\<rparr>)
     else decodeTemplate ts_lib raw\<rparr>"

abbreviation ts_before :: "template_flow \<times> loop_state \<times> omem world" where
  "ts_before \<equiv> templates_loop ts_list_lib ts_api ts_reconciler (nn ''c1'' ''pol'') (tu_policy [''a'', ''list'']) [] 0
     [tu_template ''a''] (loop_start [] None) (ts_world (tu_policy [''a'', ''list'']) [])"

lemma ts_before_next: "fst ts_before = TNext"
  by code_simp

theorem list_template_panics_witness:
  "fst (Reconcile_template False ts_list_lib ts_api ts_reconciler (nn ''c1'' ''pol'') None
     (ts_world (tu_policy [''a'', ''list'']) [])) = Panicked"
proof -
  obtain x ls w4 where loop: "ts_before = (x, ls, w4)" by (rule prod_cases3)
  then have x: "x = TNext" using ts_before_next by simp
  show ?thesis
  proof (rule list_template_panics [OF ts_get _ _ _ _ _ loop [unfolded x]])
    show "call (tsNewClient ts_api) (ts_world (tu_policy [''a'', ''list'']) []) =
        (None, ts_world (tu_policy [''a'', ''list'']) [])"
      by (simp add: call_def ts_api_def om_api_def)
    show "getDupName ts_list_lib (tu_policy [''a'', ''list'']) = []" by code_simp
    show "sp_templates (p_spec (tu_policy [''a'', ''list''])) = [tu_template ''a''] @ tu_template ''list'' # []"
      by (simp add: tu_policy_def)
    show "decodeTemplate ts_list_lib (t_raw (tu_template ''list'')) =
        Inr (None, \<lparr>g_group = [], g_version = ''v1'', g_kind = ''List''\<rparr>)"
      by (simp add: ts_list_lib_def tu_template_def)
  qed (simp_all add: tu_policy_def tu_template_def)
qed

end
