(* ===== verification/Setup.thy ===== *)
theory Setup
  imports Startup
begin

text \<open>
  How the controllers are hooked up: the \<^verbatim>\<open>SetupWithManager\<close> functions and their calls in
  \<^verbatim>\<open>addControllers\<close>. A function builds a registration, which says which kind of object, which events and
  which additional sources make a request, and with which predicates. What a registration does is
  the documented behaviour of \<^verbatim>\<open>controller-runtime\<close>, stated as the locale \<open>controller_runtime\<close>.
\<close>

section \<open>Registrations\<close>

text \<open>The channels of requests between spec-sync and status-sync, and the events of the watch library.\<close>

datatype source_id =
    SpecSyncRequests
  | StatusSyncRequests
  | StatusDepEvents
  | TemplateDepEvents
  | ConstraintEvents

type_synonym event_watch = "(kevent \<Rightarrow> namespaced_name list) \<times> (watch_event \<Rightarrow> kevent option \<Rightarrow> bool)"

text \<open>\<open>rg_filter\<close> is \<^verbatim>\<open>WithEventFilter\<close>, which lets everything pass when it is not called.\<close>

record registration =
  rg_name :: string
  rg_for :: string
  rg_filter :: "policy_event \<Rightarrow> bool"
  rg_events :: "event_watch option"
  rg_sources :: "source_id list"
  rg_maxConcurrent :: int
  rg_skipNameValidation :: bool

definition new_registration :: "string \<Rightarrow> string \<Rightarrow> int \<Rightarrow> registration" where
  "new_registration name kind concurrent =
     \<lparr>rg_name = name, rg_for = kind, rg_filter = (\<lambda>_. True), rg_events = None, rg_sources = [],
      rg_maxConcurrent = concurrent, rg_skipNameValidation = False\<rparr>"

definition WatchesRawSource :: "source_id \<Rightarrow> registration \<Rightarrow> registration" where
  "WatchesRawSource s reg = reg\<lparr>rg_sources := rg_sources reg @ [s]\<rparr>"

definition SetupWithManager_spec :: "int \<Rightarrow> source_id option \<Rightarrow> registration" where
  "SetupWithManager_spec concurrentReconciles additionalSource =
     (let builder = new_registration ''policy-spec-sync'' PolicyKind concurrentReconciles
      in case additionalSource of None \<Rightarrow> builder | Some s \<Rightarrow> WatchesRawSource s builder)"

definition SetupWithManager_secret :: "int \<Rightarrow> registration" where
  "SetupWithManager_secret concurrentReconciles = new_registration ''secret-sync'' ''Secret'' concurrentReconciles"

fun add_sources :: "source_id option list \<Rightarrow> registration \<Rightarrow> registration" where
  "add_sources [] builder = builder"
| "add_sources (None # sources) builder = add_sources sources builder"
| "add_sources (Some addlSource # sources) builder = add_sources sources (WatchesRawSource addlSource builder)"

definition SetupWithManager_status :: "int \<Rightarrow> source_id option list \<Rightarrow> registration" where
  "SetupWithManager_status concurrentReconciles additionalSources =
     add_sources additionalSources
       ((new_registration ''policy-status-sync'' PolicyKind concurrentReconciles)
          \<lparr>rg_events := Some (eventMapper, eventPredicateFuncs)\<rparr>)"

definition SetupWithManager_gatekeeper :: "klib \<Rightarrow> int \<Rightarrow> source_id \<Rightarrow> registration" where
  "SetupWithManager_gatekeeper lib concurrentReconciles constraintEvents =
     WatchesRawSource constraintEvents
       ((new_registration ''gatekeeper-constraint-status-sync'' PolicyKind concurrentReconciles)
          \<lparr>rg_filter := policyPredicates lib, rg_skipNameValidation := True\<rparr>)"

text \<open>A predicate function that is not given lets the event pass.\<close>

fun templatePredicates :: "policy_event \<Rightarrow> bool" where
  "templatePredicates (PolUpdated oldPolicy updatedPolicy) = templatePredicates_update oldPolicy updatedPolicy"
| "templatePredicates (PolCreated pol) = True"
| "templatePredicates (PolDeleted pol) = True"

definition Setup_template :: "int \<Rightarrow> source_id \<Rightarrow> registration" where
  "Setup_template concurrentReconciles depEvents =
     WatchesRawSource depEvents
       ((new_registration ''policy-template-sync'' PolicyKind concurrentReconciles)
          \<lparr>rg_filter := templatePredicates\<rparr>)"

text \<open>The registrations that \<^verbatim>\<open>addControllers\<close> makes, with the cluster of the manager; the channels exist
  only when there is a hub manager.\<close>

definition registered :: "syncer_options \<Rightarrow> (cluster \<times> registration) list" where
  "registered opts =
     (let hasHubMgr = (\<not> op_onMulticlusterhub opts);
          concurrent = uint (op_evaluationConcurrency opts);
          specSyncRequestsSource = (if hasHubMgr then Some SpecSyncRequests else None);
          statusSyncRequestsSource = (if hasHubMgr then Some StatusSyncRequests else None);
          onManaged =
            [(Managed, SetupWithManager_status concurrent [statusSyncRequestsSource, Some StatusDepEvents]),
             (Managed, Setup_template concurrent TemplateDepEvents)]
      in if op_onMulticlusterhub opts then onManaged
         else onManaged @
           [(Hub, SetupWithManager_spec concurrent specSyncRequestsSource),
            (Hub, SetupWithManager_secret concurrent)])"

section \<open>What a registration does\<close>

datatype stimulus =
    OnPolicy policy_event
  | OnSecret namespaced_name
  | OnEvent watch_event kevent
  | OnSource source_id namespaced_name

fun subject :: "policy_event \<Rightarrow> policy" where
  "subject (PolCreated p) = p"
| "subject (PolUpdated p q) = q"
| "subject (PolDeleted p) = p"

text \<open>A change of an object of the kind makes a request for it unless the filter stops it, an event makes
  the requests of its mapper if its predicate holds, and a source makes the request that it sends.\<close>

locale controller_runtime =
  fixes deliver :: "registration \<Rightarrow> stimulus \<Rightarrow> namespaced_name set"
  assumes deliver_policy: "deliver reg (OnPolicy pe) =
      (if rg_for reg = PolicyKind \<and> rg_filter reg pe then {policy_nn (subject pe)} else {})"
    and deliver_secret: "deliver reg (OnSecret k) = (if rg_for reg = ''Secret'' then {k} else {})"
    and deliver_event: "deliver reg (OnEvent we ev) =
      (case rg_events reg of
         None \<Rightarrow> {}
       | Some (mapper, predicate) \<Rightarrow> if predicate we (Some ev) then set (mapper ev) else {})"
    and deliver_source: "deliver reg (OnSource s k) = (if s \<in> set (rg_sources reg) then {k} else {})"

fun requests_of :: "registration \<Rightarrow> stimulus \<Rightarrow> namespaced_name set" where
  "requests_of reg (OnPolicy pe) =
     (if rg_for reg = PolicyKind \<and> rg_filter reg pe then {policy_nn (subject pe)} else {})"
| "requests_of reg (OnSecret k) = (if rg_for reg = ''Secret'' then {k} else {})"
| "requests_of reg (OnEvent we ev) =
     (case rg_events reg of
        None \<Rightarrow> {}
      | Some (mapper, predicate) \<Rightarrow> if predicate we (Some ev) then set (mapper ev) else {})"
| "requests_of reg (OnSource s k) = (if s \<in> set (rg_sources reg) then {k} else {})"

interpretation runtime: controller_runtime requests_of
  by unfold_locales simp_all

lemmas setup_defs = SetupWithManager_spec_def SetupWithManager_secret_def SetupWithManager_status_def
  SetupWithManager_gatekeeper_def Setup_template_def new_registration_def WatchesRawSource_def

lemma add_sources_kept:
  "rg_name (add_sources ss reg) = rg_name reg" "rg_events (add_sources ss reg) = rg_events reg"
  by (induction ss reg rule: add_sources.induct) (simp_all add: WatchesRawSource_def)

lemma registered_status:
  assumes "(Managed, reg) \<in> set (registered opts)" and "rg_name reg = ''policy-status-sync''"
  shows "\<exists>ss. reg = SetupWithManager_status (uint (op_evaluationConcurrency opts)) ss"
proof -
  have "rg_name (Setup_template n s) = ''policy-template-sync''" for n s by (simp add: setup_defs)
  then show ?thesis using assms by (auto simp: registered_def Let_def split: if_splits)
qed

context controller_runtime
begin

lemma status_event:
  assumes "ref_kind (ev_involved ev) = PolicyKind" and "ref_apiVersion (ev_involved ev) = policiesv1APIVersion"
    and "we \<noteq> WatchDelete"
  shows "deliver (SetupWithManager_status n ss) (OnEvent we ev) =
    {nn (ref_namespace (ev_involved ev)) (ref_name (ev_involved ev))}"
proof -
  have "rg_events (SetupWithManager_status n ss) = Some (eventMapper, eventPredicateFuncs)"
    by (simp add: SetupWithManager_status_def add_sources_kept)
  then show ?thesis
    using assms by (cases we) (simp_all add: deliver_event eventPredicateFuncs_def eventMapper_def)
qed

text \<open>A change of the status alone does not wake template-sync, unless the policy has dependencies and is
  not pending or its history has an old template error.\<close>

lemma template_status_change:
  assumes "p_generation p = p_generation q" and "\<not> hasAnyDependencies q"
    and "\<not> stale_details (s_details (p_status q))"
  shows "deliver (Setup_template n s) (OnPolicy (PolUpdated p q)) = {}"
  using assms by (simp add: deliver_policy setup_defs templatePredicates_update_def)

end

end
