(* ===== verification/StatusStable.thy ===== *)
theory StatusStable
  imports StatusSync
begin

text \<open>
  The details that status-sync computes are stable: while the events and the objects of the
  templates stay as they are, computing the details of a policy whose stored details were computed
  before gives them again. This is what lets the status updates of the two clusters come to rest.

  The time stamps of the events at hand must be readable again after truncation, and closeness in
  time must be transitive on them; both are said of one set of entries that contains the events and
  is closed under merging.
\<close>

section \<open>Entries that merge well\<close>

text \<open>\<open>P\<close> is a set of entries with precise times.\<close>

definition known :: "history set \<Rightarrow> history \<Rightarrow> bool" where
  "known P e \<longleftrightarrow> time_survives e \<and> precise e \<in> P"

definition similar_trans :: "history set \<Rightarrow> bool" where
  "similar_trans P \<longleftrightarrow>
     (\<forall>a\<in>P. \<forall>b\<in>P. \<forall>c\<in>P. too_similar a b \<longrightarrow> too_similar b c \<longrightarrow> too_similar a c)"

definition known_details :: "history set \<Rightarrow> details option list \<Rightarrow> bool" where
  "known_details P ds \<longleftrightarrow>
     list_all (\<lambda>d. case d of None \<Rightarrow> False | Some d \<Rightarrow> \<forall>h\<in>set (d_history d). known P h) ds"

lemma known_details_None: "known_details P ds \<Longrightarrow> None \<notin> set ds"
  by (auto simp: known_details_def list_all_iff)

lemma known_details_append [simp]:
  "known_details P (xs @ ys) \<longleftrightarrow> known_details P xs \<and> known_details P ys"
  by (simp add: known_details_def)

lemma known_details_simps [simp]:
  "known_details P []" "known_details P [Some d] \<longleftrightarrow> (\<forall>h\<in>set (d_history d). known P h)"
  by (simp_all add: known_details_def)

lemma existing_history_known:
  assumes "known_details P ex" and "h \<in> set (existing_history n ex)"
  shows "known P h"
proof -
  obtain d where d: "find_details n ex = Some (Some d)" "h \<in> set (d_history d)"
    using assms(2) by (cases "find_details n ex") (auto simp: existing_history_def split: option.splits)
  then have "Some d \<in> set ex" using find_details_name by blast
  with assms(1) d(2) show ?thesis by (auto simp: known_details_def list_all_iff)
qed

lemma truncate_survives: "time_survives (truncate_time e)"
  by (simp add: time_survives_def truncate_time_def Rfc3339Copy_def Second_def)

lemma known_merge:
  assumes "\<forall>e\<in>set E \<union> set D. known P e" and "h \<in> set (merge_history E D)"
  shows "known P h"
proof -
  obtain e where e: "e \<in> set E \<union> set D" "h = truncate_time (precise e)"
    using merge_history_set [of E D] assms(2) by blast
  with assms(1) have "time_survives e" "precise e \<in> P" by (auto simp: known_def)
  with e(2) show ?thesis by (simp add: known_def truncate_survives precise_truncate)
qed

lemma known_runs_ok:
  assumes "similar_trans P" and "\<forall>e\<in>set E \<union> set D. known P e"
  shows "runs_ok (candidates E D)"
proof -
  have "set (candidates E D) \<subseteq> P"
    using assms(2) set_add_old_events(2) [of E D] by (auto simp: set_candidates known_def)
  then show ?thesis using assms(1) by (auto simp: runs_ok_def similar_trans_def)
qed

lemma mergeDetails_known_again:
  assumes "similar_trans P" and "\<forall>e\<in>set E. known P e" and "known_details P ex"
    and "mergeDetails E ex n = Some d" and "find_details n ex' = Some (Some d)"
  shows "mergeDetails E ex' n = Some d"
proof -
  have k: "\<forall>e\<in>set E \<union> set (existing_history n ex). known P e"
    using assms(2,3) existing_history_known by blast
  then show ?thesis
    using mergeDetails_again [OF assms(4) _ known_runs_ok [OF assms(1) k] assms(5)]
    by (simp add: known_def)
qed

lemma mergeDetails_known:
  assumes "\<forall>e\<in>set E. known P e" and "known_details P ex" and "mergeDetails E ex n = Some d"
  shows "\<forall>h\<in>set (d_history d). known P h"
  using known_merge [of E "existing_history n ex" P] assms existing_history_known
    mergeDetails_history [OF assms(3)] by (metis Un_iff)

section \<open>One template\<close>

text \<open>The object of a template, from a function that gives the objects the watcher knows.\<close>

type_synonym template_objects = "object_identifier \<Rightarrow> gvk \<Rightarrow> string \<Rightarrow> string \<Rightarrow> unstr option"

definition template_object :: "klib \<Rightarrow> template_objects \<Rightarrow> policy \<Rightarrow> policy_template \<Rightarrow> unstr option" where
  "template_object lib T inst t =
     (case decodeTemplate lib (t_raw t) of
        Inr (Some obj, g) \<Rightarrow> T (policyID (p_name inst) (p_namespace inst)) g (p_namespace inst) (u_name obj)
      | _ \<Rightarrow> None)"

definition template_events :: "klib \<Rightarrow> template_objects \<Rightarrow> policy \<Rightarrow> policy_template \<Rightarrow> history list" where
  "template_events lib T inst t =
     (let u = template_object lib T inst t
      in if templateOwnedByPolicy u (p_name inst) then getEventsInTemplate lib u (p_name inst) else [])"

definition foreign_template :: "klib \<Rightarrow> template_objects \<Rightarrow> policy \<Rightarrow> policy_template \<Rightarrow> bool" where
  "foreign_template lib T inst t \<longleftrightarrow>
     template_object lib T inst t \<noteq> None \<and> \<not> templateOwnedByPolicy (template_object lib T inst t) (p_name inst)"

definition answers :: "'c watch_api \<Rightarrow> template_objects \<Rightarrow> bool" where
  "answers wapi T \<longleftrightarrow> (\<forall>oid g ns n c x err c'.
     wGet wapi oid g ns n c = ((x, err), c') \<longrightarrow> should_return err = None \<longrightarrow> x = T oid g ns n)"

lemma answers_call:
  assumes "answers wapi T" and "call (wGet wapi oid g ns n) w = ((x, err), w')" and "should_return err = None"
  shows "x = T oid g ns n"
proof -
  obtain c where "wGet wapi oid g ns n (w_env w) = ((x, err), c)"
    using assms(2) by (auto simp: call_def split: prod.splits)
  with assms(1,3) show ?thesis unfolding answers_def by blast
qed

lemma resolve_template_answers:
  assumes "answers wapi T" and "resolve_template lib wapi inst i t m w = (Inr (n, m', ex), w')"
  shows "n = template_name lib i t"
    and "m' = m(n := m n @ template_events lib T inst t)"
    and "ex = (if foreign_template lib T inst t then [] else s_details (p_status inst))"
proof -
  show n: "n = template_name lib i t" by (rule resolve_template_name(1) [OF assms(2)])
  have id: "oi_name (policyID (p_name inst) ns) = p_name inst" for ns by (simp add: policyID_def)
  consider (undecoded) "\<forall>obj g. decodeTemplate lib (t_raw t) \<noteq> Inr (Some obj, g)"
    | (decoded) obj g where "decodeTemplate lib (t_raw t) = Inr (Some obj, g)" by blast
  then have "m' = m(n := m n @ template_events lib T inst t) \<and>
      ex = (if foreign_template lib T inst t then [] else s_details (p_status inst))"
  proof cases
    case undecoded
    then have "template_object lib T inst t = None"
      by (auto simp: template_object_def split: sum.splits option.splits)
    then show ?thesis
      using assms(2) undecoded
      by (auto simp: resolve_template_def template_events_def foreign_template_def Let_def
          templateOwnedByPolicy_def split: sum.splits prod.splits option.splits)
  next
    case decoded
    obtain x err w1 where c: "call (wGet wapi (policyID (p_name inst) (p_namespace inst)) g
        (p_namespace inst) (u_name obj)) w = ((x, err), w1)" by (metis prod.collapse)
    then have ok: "should_return err = None"
      using assms(2) decoded by (auto simp: resolve_template_def Let_def split: option.splits)
    have x: "x = template_object lib T inst t"
      using answers_call [OF assms(1) c ok] decoded by (simp add: template_object_def)
    show ?thesis
      using assms(2) decoded c ok n
      by (auto simp: resolve_template_def template_events_def foreign_template_def template_name_def
          Let_def id simp flip: x)
  qed
  then show "m' = m(n := m n @ template_events lib T inst t)"
    and "ex = (if foreign_template lib T inst t then [] else s_details (p_status inst))" by simp_all
qed

section \<open>All templates\<close>

text \<open>What the loop computes, without the watcher.\<close>

fun pure_details ::
  "klib \<Rightarrow> template_objects \<Rightarrow> policy \<Rightarrow> nat \<Rightarrow> policy_template list \<Rightarrow> event_map \<Rightarrow> details list option" where
  "pure_details lib T inst i [] m = Some []"
| "pure_details lib T inst i (t # ts) m =
     (let n = template_name lib i t; m = m(n := m n @ template_events lib T inst t)
      in case mergeDetails (m n) (if foreign_template lib T inst t then [] else s_details (p_status inst)) n of
           None \<Rightarrow> None
         | Some d \<Rightarrow> map_option (\<lambda>ds. d # ds) (pure_details lib T inst (Suc i) ts m))"

lemma details_loop_pure:
  assumes "answers wapi T" and "details_loop lib wapi inst i ts m acc w = (Ok ds, w')"
  shows "\<exists>ds'. ds = acc @ map Some ds' \<and> pure_details lib T inst i ts m = Some ds'"
  using assms(2)
proof (induction ts arbitrary: i m acc w)
  case (Cons t ts)
  obtain n m1 ex w1 d
    where r: "resolve_template lib wapi inst i t m w = (Inr (n, m1, ex), w1)"
      and d: "mergeDetails (m1 n) ex n = Some d"
      and l: "details_loop lib wapi inst (Suc i) ts m1 (acc @ [Some d]) w1 = (Ok ds, w')"
    using Cons.prems by (auto split: prod.splits sum.splits option.splits)
  note R = resolve_template_answers [OF assms(1) r]
  from Cons.IH [OF l] obtain ds' where "ds = acc @ map Some (d # ds')"
    "pure_details lib T inst (Suc i) ts m1 = Some ds'" by auto
  with d show ?case using R by (auto simp: Let_def)
qed simp

lemma pure_details_shape:
  assumes "pure_details lib T inst i ts m = Some ds"
  shows "length ds = length ts" and "j < length ts \<Longrightarrow> d_name (ds ! j) = template_name lib (i + j) (ts ! j)"
proof -
  have "length ds = length ts \<and> (\<forall>j < length ts. d_name (ds ! j) = template_name lib (i + j) (ts ! j))"
    using assms
  proof (induction ts arbitrary: i m ds)
    case (Cons t ts)
    then obtain d ds' where *: "ds = d # ds'" "d_name d = template_name lib i t"
      "\<exists>m'. pure_details lib T inst (Suc i) ts m' = Some ds'"
      using mergeDetails_good by (fastforce simp: Let_def good_details_def split: option.splits)
    with Cons.IH have IH: "length ds' = length ts \<and>
        (\<forall>j < length ts. d_name (ds' ! j) = template_name lib (Suc i + j) (ts ! j))" by blast
    have "d_name (ds ! j) = template_name lib (i + j) ((t # ts) ! j)" if "j < length (t # ts)" for j
      using that * IH by (cases j) auto
    with * IH show ?case by simp
  qed simp
  then show "length ds = length ts"
    and "j < length ts \<Longrightarrow> d_name (ds ! j) = template_name lib (i + j) (ts ! j)" by blast+
qed

text \<open>The names of the templates, as in the status.\<close>

definition template_names :: "klib \<Rightarrow> policy_template list \<Rightarrow> string list" where
  "template_names lib ts = map (\<lambda>(i, t). template_name lib i t) (enumerate 0 ts)"

lemma find_details_distinct:
  "distinct (map d_name ds) \<Longrightarrow> d \<in> set ds \<Longrightarrow> find_details (d_name d) (map Some ds) = Some (Some d)"
  by (induction ds) auto

lemma pure_details_known:
  assumes "pure_details lib T inst i ts m = Some ds" and "\<forall>n. \<forall>e\<in>set (m n). known P e"
    and "known_details P (s_details (p_status inst))"
    and "\<forall>t\<in>set ts. \<forall>e\<in>set (template_events lib T inst t). known P e"
  shows "known_details P (map Some ds)"
  using assms
proof (induction ts arbitrary: i m ds)
  case (Cons t ts)
  let ?n = "template_name lib i t"
  let ?m = "m(?n := m ?n @ template_events lib T inst t)"
  obtain d ds' where d: "ds = d # ds'" "pure_details lib T inst (Suc i) ts ?m = Some ds'"
    "mergeDetails (?m ?n) (if foreign_template lib T inst t then [] else s_details (p_status inst)) ?n = Some d"
    using Cons.prems(1) by (auto simp: Let_def split: option.splits)
  have m: "\<forall>n. \<forall>e\<in>set (?m n). known P e" using Cons.prems(2,4) by auto
  have "\<forall>h\<in>set (d_history d). known P h"
    using mergeDetails_known [OF _ _ d(3), of P] m Cons.prems(3) by (simp split: if_splits)
  moreover have "known_details P (map Some ds')"
    using Cons.IH [OF d(2) m Cons.prems(3)] Cons.prems(4) by simp
  ultimately show ?case using d(1) by (simp add: known_details_def)
qed simp

text \<open>Another policy object with the same name, whose stored details are those computed.\<close>

lemma pure_details_again:
  assumes "similar_trans P" and "pure_details lib T inst i ts m = Some ds"
    and "\<forall>n. \<forall>e\<in>set (m n). known P e" and "known_details P (s_details (p_status inst))"
    and "\<forall>t\<in>set ts. \<forall>e\<in>set (template_events lib T inst t). known P e"
    and "p_name inst' = p_name inst" and "p_namespace inst' = p_namespace inst"
    and "\<forall>d\<in>set ds. find_details (d_name d) (s_details (p_status inst')) = Some (Some d)"
  shows "pure_details lib T inst' i ts m = Some ds"
  using assms(2,3,5,8)
proof (induction ts arbitrary: i m ds)
  case (Cons t ts)
  let ?n = "template_name lib i t"
  let ?m = "m(?n := m ?n @ template_events lib T inst t)"
  let ?old = "\<lambda>inst. if foreign_template lib T inst t then [] else s_details (p_status inst)"
  obtain d ds' where d: "ds = d # ds'" "pure_details lib T inst (Suc i) ts ?m = Some ds'"
    "mergeDetails (?m ?n) (?old inst) ?n = Some d"
    using Cons.prems(1) by (auto simp: Let_def split: option.splits)
  have same: "template_object lib T inst' t = template_object lib T inst t"
    using assms(6,7) by (simp add: template_object_def split: sum.splits option.splits)
  then have eq: "template_events lib T inst' t = template_events lib T inst t"
    "foreign_template lib T inst' t = foreign_template lib T inst t"
    using assms(6) by (simp_all add: template_events_def foreign_template_def Let_def)
  have m: "\<forall>n. \<forall>e\<in>set (?m n). known P e" using Cons.prems(2,3) by auto
  have "d_name d = ?n" using mergeDetails_good [OF d(3)] by (simp add: good_details_def)
  then have f: "find_details ?n (s_details (p_status inst')) = Some (Some d)"
    using Cons.prems(4) d(1) by simp
  have "mergeDetails (?m ?n) (?old inst') ?n = Some d"
  proof (cases "foreign_template lib T inst t")
    case True
    then show ?thesis using d(3) eq by simp
  next
    case False
    have "mergeDetails (?m ?n) (s_details (p_status inst')) ?n = Some d"
      by (rule mergeDetails_known_again [OF assms(1) spec [OF m] assms(4) _ f])
        (use d(3) False in simp_all)
    then show ?thesis using False eq by simp
  qed
  moreover have "pure_details lib T inst' (Suc i) ts ?m = Some ds'"
    by (rule Cons.IH [OF d(2) m]) (use Cons.prems(3,4) d(1) in simp_all)
  ultimately show ?case using d(1) eq by (simp add: Let_def)
qed simp

end
