(* ===== verification/SyncSystem.thy ===== *)
theory SyncSystem
  imports Setup StatusStable
begin

text \<open>
  Spec-sync and status-sync as one system: the requests that wait for the two controllers, the
  reconciles that work them off in any order, and the requests that a reconcile causes, through the
  channels between the controllers and through the changes that their registrations react to. A
  request that fails stays, as the comment above the reconciles says of the runtime.

  The theory shows what one reconcile of either controller does to the copies of its policy, and that a
  reconcile that fails, or that ignores the error of its update, uses up one of finitely many faults of
  the API servers; \<open>Convergence\<close> derives from it that the system comes to rest.
\<close>

section \<open>Queues\<close>

text \<open>A step takes any request that waits; it leaves the queue when the reconcile returns without an
  error, and the requests that it woke join. A run keeps the list of the reconciles, the latest first,
  each with the state of the world in which it began.\<close>

inductive queue_step ::
  "('j \<Rightarrow> 'c world \<Rightarrow> reconcile_result \<times> 'c world) \<Rightarrow> ('c world \<Rightarrow> 'c world \<Rightarrow> 'j set)
     \<Rightarrow> 'j \<Rightarrow> 'j set \<times> 'c world \<Rightarrow> 'j set \<times> 'c world \<Rightarrow> bool" for run wake where
  work: "j \<in> K \<Longrightarrow> run j w = (res, w') \<Longrightarrow>
    queue_step run wake j (K, w) ((if res = Done then K - {j} else K) \<union> wake w w', w')"

inductive queue_run ::
  "('j \<Rightarrow> 'c world \<Rightarrow> reconcile_result \<times> 'c world) \<Rightarrow> ('c world \<Rightarrow> 'c world \<Rightarrow> 'j set)
     \<Rightarrow> ('j \<times> 'c world) list \<Rightarrow> 'j set \<times> 'c world \<Rightarrow> 'j set \<times> 'c world \<Rightarrow> bool" for run wake where
  rest: "queue_run run wake [] s s"
| step: "queue_run run wake tr s (K, w) \<Longrightarrow> queue_step run wake j (K, w) s' \<Longrightarrow>
    queue_run run wake ((j, w) # tr) s s'"

lemma queue_progress: "K \<noteq> {} \<Longrightarrow> \<exists>j s'. queue_step run wake j (K, w) s'"
  by (metis all_not_in_conv prod.collapse queue_step.work)

lemma queue_run_first:
  assumes "queue_run run wake tr s1 s'" and "queue_step run wake j (K, w) s1"
  shows "queue_run run wake (tr @ [(j, w)]) (K, w) s'"
  using assms
proof (induction rule: queue_run.induct)
  case (rest s)
  then show ?case using queue_run.step [OF queue_run.rest] by simp
next
  case (step tr s K' w' j' s')
  then show ?case by (simp add: queue_run.step)
qed

text \<open>An invariant and a potential that goes down with every step bound the length of every run.\<close>

locale draining_queue =
  fixes run :: "'j \<Rightarrow> 'c world \<Rightarrow> reconcile_result \<times> 'c world"
    and wake :: "'c world \<Rightarrow> 'c world \<Rightarrow> 'j set"
    and inv :: "('j \<times> 'c world) list \<Rightarrow> 'j set \<times> 'c world \<Rightarrow> bool"
    and pot :: "'j set \<times> 'c world \<Rightarrow> nat"
  assumes step_inv: "inv tr (K, w) \<Longrightarrow> queue_step run wake j (K, w) s' \<Longrightarrow> inv ((j, w) # tr) s'"
    and step_pot: "inv tr (K, w) \<Longrightarrow> queue_step run wake j (K, w) s' \<Longrightarrow> pot s' < pot (K, w)"
begin

lemma run_bounded:
  assumes "queue_run run wake tr s s'" and "inv [] s"
  shows "inv tr s' \<and> length tr + pot s' \<le> pot s"
  using assms
proof (induction rule: queue_run.induct)
  case (step tr s K w j s')
  then have i: "inv tr (K, w)" "length tr + pot (K, w) \<le> pot s" by simp_all
  show ?case using step_inv [OF i(1) step.hyps(2)] step_pot [OF i(1) step.hyps(2)] i(2) by simp
qed simp

lemma drains: "inv tr s \<Longrightarrow> \<exists>tr' w'. queue_run run wake tr' s ({}, w')"
proof (induction "pot s" arbitrary: s tr rule: less_induct)
  case less
  obtain K w where s: "s = (K, w)" by fastforce
  show ?case
  proof (cases "K = {}")
    case False
    from queue_progress [OF False, of run wake w] obtain j s1 where st: "queue_step run wake j (K, w) s1" by blast
    note i = less.prems [unfolded s]
    from less.hyps [OF step_pot [OF i st, folded s] step_inv [OF i st]]
    show ?thesis using queue_run_first [OF _ st] s by blast
  next
    case True
    then show ?thesis unfolding s by (intro exI [of _ "[]"] exI [of _ w]) (simp add: queue_run.rest)
  qed
qed

end

section \<open>The system\<close>

datatype job = SpecJob namespaced_name | StatusJob namespaced_name

definition run_job ::
  "klib \<Rightarrow> 'c policy_api \<Rightarrow> 'c event_api \<Rightarrow> 'c watch_api \<Rightarrow> spec_reconciler \<Rightarrow> status_reconciler
     \<Rightarrow> job \<Rightarrow> 'c world \<Rightarrow> reconcile_result \<times> 'c world" where
  "run_job lib papi eapi wapi r sr j =
     (case j of
        SpecJob k \<Rightarrow> Reconcile_spec False papi r k
      | StatusJob k \<Rightarrow> Reconcile_status False lib papi eapi wapi sr k)"

text \<open>The changes of the policies of a cluster between two states.\<close>

fun change :: "policy option \<Rightarrow> policy option \<Rightarrow> policy_event option" where
  "change None None = None"
| "change None (Some q) = Some (PolCreated q)"
| "change (Some p) None = Some (PolDeleted p)"
| "change (Some p) (Some q) = (if p = q then None else Some (PolUpdated p q))"

definition policy_changes :: "'c policy_lookup \<Rightarrow> cluster \<Rightarrow> 'c world \<Rightarrow> 'c world \<Rightarrow> stimulus set" where
  "policy_changes look cl w w' =
     {OnPolicy pe | pe k. change (look cl k (w_env w)) (look cl k (w_env w')) = Some pe}"

definition sent_between :: "'c world \<Rightarrow> 'c world \<Rightarrow> effect set" where
  "sent_between w w' = set (drop (length (w_log w)) (w_log w'))"

abbreviation spec_registration :: "int \<Rightarrow> registration" where
  "spec_registration n \<equiv> SetupWithManager_spec n (Some SpecSyncRequests)"

abbreviation status_registration :: "int \<Rightarrow> registration" where
  "status_registration n \<equiv> SetupWithManager_status n [Some StatusSyncRequests, Some StatusDepEvents]"

lemma registrations_registered:
  "\<not> op_onMulticlusterhub opts \<Longrightarrow> n = uint (op_evaluationConcurrency opts) \<Longrightarrow>
     {(Hub, spec_registration n), (Managed, status_registration n)} \<subseteq> set (registered opts)"
  by (simp add: registered_def Let_def)

definition woken ::
  "(registration \<Rightarrow> stimulus \<Rightarrow> namespaced_name set) \<Rightarrow> int \<Rightarrow> 'c policy_lookup \<Rightarrow> 'c world \<Rightarrow> 'c world
     \<Rightarrow> job set" where
  "woken deliver n look w w' =
     SpecJob ` (\<Union>s \<in> policy_changes look Hub w w' \<union>
         {OnSource SpecSyncRequests k | k. SpecSyncRequest k \<in> sent_between w w'}. deliver (spec_registration n) s) \<union>
     StatusJob ` (\<Union>s \<in> policy_changes look Managed w w' \<union>
         {OnSource StatusSyncRequests k | k. StatusSyncRequest k \<in> sent_between w w'}. deliver (status_registration n) s)"

section \<open>A settled policy\<close>

text \<open>The details that the events and the templates' objects give now, and a policy whose status has them.\<close>

definition policy_events :: "(string \<Rightarrow> kevent list) \<Rightarrow> policy \<Rightarrow> event_map" where
  "policy_events evs m = events_for_policy (p_uid m) (evs (p_namespace m)) (\<lambda>_. [])"

definition current_details ::
  "klib \<Rightarrow> (string \<Rightarrow> kevent list) \<Rightarrow> template_objects \<Rightarrow> policy \<Rightarrow> details list option" where
  "current_details lib evs T m = pure_details lib T m 0 (sp_templates (p_spec m)) (policy_events evs m)"

definition up_to_date :: "klib \<Rightarrow> (string \<Rightarrow> kevent list) \<Rightarrow> template_objects \<Rightarrow> policy \<Rightarrow> bool" where
  "up_to_date lib evs T m =
     (case current_details lib evs T m of
        None \<Rightarrow> False
      | Some ds \<Rightarrow> s_details (p_status m) = map Some ds \<and>
          s_compliance (p_status m) = compliance_spec (s_compliance (p_status m)) (d_compliance ` set ds))"

text \<open>A policy of the hub is on both clusters with the same annotations, spec and status, and the status is
  up to date; one that is not on the hub is not on the managed cluster either, or is being deleted there.\<close>

definition settled ::
  "klib \<Rightarrow> (string \<Rightarrow> kevent list) \<Rightarrow> template_objects \<Rightarrow> 'c policy_lookup \<Rightarrow> spec_reconciler \<Rightarrow> string
     \<Rightarrow> 'c \<Rightarrow> string \<Rightarrow> bool" where
  "settled lib evs T look r hubNamespace c n =
     (case (look Hub (nn hubNamespace n) c, look Managed (nn (ss_targetNamespace r) n) c) of
        (None, None) \<Rightarrow> True
      | (None, Some m) \<Rightarrow> p_deleting m
      | (Some h, None) \<Rightarrow> False
      | (Some h, Some m) \<Rightarrow>
          EquivalentReplicatedPolicies h m \<and> p_status h = p_status m \<and> up_to_date lib evs T m)"

text \<open>A policy that can settle: it is not on the hub, or the names of its templates differ (template-sync
  refuses it otherwise) and the status on the managed cluster, if there is one, came from entries of
  \<open>P\<close>.\<close>

definition ready ::
  "klib \<Rightarrow> history set \<Rightarrow> 'c policy_lookup \<Rightarrow> spec_reconciler \<Rightarrow> string \<Rightarrow> 'c \<Rightarrow> string \<Rightarrow> bool" where
  "ready lib P look r hubNamespace c n =
     (case look Hub (nn hubNamespace n) c of
        None \<Rightarrow> True
      | Some h \<Rightarrow> distinct (template_names lib (sp_templates (p_spec h))) \<and>
          (case look Managed (nn (ss_targetNamespace r) n) c of
             None \<Rightarrow> True
           | Some m \<Rightarrow> known_details P (s_details (p_status m))))"

text \<open>The last reconcile of spec-sync for the key \<open>k\<close> in a run ignored the error of its update.\<close>

fun last_ignored ::
  "'c policy_api \<Rightarrow> spec_reconciler \<Rightarrow> namespaced_name \<Rightarrow> (job \<times> 'c world) list \<Rightarrow> bool" where
  "last_ignored papi r k [] = False"
| "last_ignored papi r k ((j, w) # tr) =
     (if j = SpecJob k then update_ignored papi r k w else last_ignored papi r k tr)"

text \<open>The requests for all policies of a list, as at the start of the controllers.\<close>

definition all_jobs :: "spec_reconciler \<Rightarrow> string \<Rightarrow> string list \<Rightarrow> job set" where
  "all_jobs r hubNamespace names =
     (\<Union>n \<in> set names. {SpecJob (nn hubNamespace n), StatusJob (nn (ss_targetNamespace r) n)})"

section \<open>The environment\<close>

text \<open>Clients that fail only finitely often: \<open>faults\<close> counts the failures that are still to come. An answer
  that the stored objects explain, such as "not found", is not a fault.\<close>

locale fallible_clients = status_env papi look eapi wapi
  for papi :: "'c policy_api" and look :: "'c policy_lookup" and eapi :: "'c event_api" and wapi :: "'c watch_api" +
  fixes faults :: "'c \<Rightarrow> nat"
  assumes get_faults: "polGet papi cl k c = (x, c') \<Longrightarrow> faults c' \<le> faults c"
      "polGet papi cl k c = (Inl e, c') \<Longrightarrow> \<not> IsNotFound e \<Longrightarrow> faults c' < faults c"
    and create_faults: "polCreate papi cl p c = (x, c') \<Longrightarrow> faults c' \<le> faults c"
      "polCreate papi cl p c = (Inl e, c') \<Longrightarrow> look cl (policy_nn p) c = None \<Longrightarrow> faults c' < faults c"
    and update_faults: "polUpdate papi cl p c = (x, c') \<Longrightarrow> faults c' \<le> faults c"
      "polUpdate papi cl p c = (Inl e, c') \<Longrightarrow> look cl (policy_nn p) c \<noteq> None \<Longrightarrow> faults c' < faults c"
    and status_faults: "polStatusUpdate papi cl p c = (x, c') \<Longrightarrow> faults c' \<le> faults c"
      "polStatusUpdate papi cl p c = (Inl e, c') \<Longrightarrow> look cl (policy_nn p) c \<noteq> None \<Longrightarrow> faults c' < faults c"
    and delete_faults: "polDelete papi cl k c = (d, c') \<Longrightarrow> faults c' \<le> faults c"
      "polDelete papi cl k c = (Some e, c') \<Longrightarrow> \<not> IsNotFound e \<Longrightarrow> faults c' < faults c"
    and list_faults: "evList eapi ns c = (y, c') \<Longrightarrow> faults c' \<le> faults c"
      "evList eapi ns c = (Inl e, c') \<Longrightarrow> faults c' < faults c"
    and watch_faults: "wGet wapi oid g ns n c = (z, c') \<Longrightarrow> faults c' \<le> faults c"
      "wGet wapi oid g ns n c = ((u, err), c') \<Longrightarrow> should_return err \<noteq> None \<Longrightarrow> faults c' < faults c"
    and batch_faults: "wStart wapi oid c = (d, c') \<Longrightarrow> faults c' \<le> faults c"
      "wStart wapi oid c = (Some e, c') \<Longrightarrow> faults c' < faults c"
      "wEnd wapi oid c = (d, c') \<Longrightarrow> faults c' \<le> faults c"

text \<open>Events and objects of templates that stay as they are while the system runs, with entries that merge
  well.\<close>

locale stable_inputs =
  fixes eapi :: "'c event_api" and wapi :: "'c watch_api" and lib :: klib
    and evs :: "string \<Rightarrow> kevent list" and T :: template_objects and P :: "history set"
  assumes similar: "similar_trans P"
    and events_stay: "evList eapi ns c = (Inr es, c') \<Longrightarrow> es = evs ns"
    and objects_stay: "answers wapi T"
    and events_known: "ev \<in> set (evs ns) \<Longrightarrow> known P (history_of_event ev)"
    and objects_known: "h \<in> set (getEventsInTemplate lib (T oid g ns n) pol) \<Longrightarrow> known P h"

text \<open>The whole system, with the documented treatment of the status as a subresource: a new policy has no
  details, an update keeps the status, and an update of the status keeps the identity; and deleting again
  what is being deleted changes nothing or completes it.\<close>

locale sync_system =
  fallible_clients papi look eapi wapi faults + stable_inputs eapi wapi lib evs T P + controller_runtime deliver
  for papi :: "'c policy_api" and look :: "'c policy_lookup"
    and eapi :: "'c event_api" and wapi :: "'c watch_api" and faults :: "'c \<Rightarrow> nat"
    and lib :: klib and evs :: "string \<Rightarrow> kevent list" and T :: template_objects and P :: "history set"
    and deliver :: "registration \<Rightarrow> stimulus \<Rightarrow> namespaced_name set" +
  fixes r :: spec_reconciler and hubNamespace :: string and sr :: status_reconciler and concurrent :: int
  assumes sr: "sr_clusterNamespaceOnHub sr = hubNamespace" "sr_hasSpecSyncRequests sr"
      "\<not> sr_onMulticlusterhub sr"
    and create_status: "polCreate papi Managed p c = (Inr q, c') \<Longrightarrow> s_details (p_status q) = []"
    and update_status: "polUpdate papi Managed p c = (Inr q, c') \<Longrightarrow>
      look Managed (policy_nn p) c = Some old \<Longrightarrow> p_status q = p_status old"
    and status_uid: "polStatusUpdate papi cl p c = (Inr q, c') \<Longrightarrow> p_uid q = p_uid p"
    and delete_again: "polDelete papi Managed k c = (d, c') \<Longrightarrow>
      (case look Managed k c of None \<Rightarrow> True | Some p \<Rightarrow> p_deleting p) \<Longrightarrow> look Managed k c' \<in> {look Managed k c, None}"
begin

text \<open>The faults that are left, and a computation that uses one up when it fails.\<close>

abbreviation left :: "'c world \<Rightarrow> nat" where
  "left w \<equiv> faults (w_env w)"

lemma call_faults:
  assumes "call f w = (x, w')" and "\<And>c x c'. f c = (x, c') \<Longrightarrow> faults c' \<le> faults c"
  shows "left w' \<le> left w"
  using assms by (auto simp: call_def split: prod.splits)

lemma get_call_faults: "call (polGet papi cl k) w = (x, w') \<Longrightarrow> left w' \<le> left w"
  by (erule call_faults) (rule get_faults(1))

lemma call_get_fault:
  "call (polGet papi cl k) w = (Inl e, w') \<Longrightarrow> \<not> IsNotFound e \<Longrightarrow> left w' < left w"
  using get_faults(2) by (auto simp: call_def split: prod.splits)

lemma act_faults:
  shows "act eff (polCreate papi cl p) w = (x, w') \<Longrightarrow> left w' \<le> left w"
    and "act eff (polCreate papi cl p) w = (Inl e, w') \<Longrightarrow> look cl (policy_nn p) (w_env w) = None \<Longrightarrow>
      left w' < left w"
    and "act eff (polUpdate papi cl p) w = (y, w') \<Longrightarrow> left w' \<le> left w"
    and "act eff (polUpdate papi cl p) w = (Inl e, w') \<Longrightarrow> look cl (policy_nn p) (w_env w) \<noteq> None \<Longrightarrow>
      left w' < left w"
    and "act eff (polStatusUpdate papi cl p) w = (z, w') \<Longrightarrow> left w' \<le> left w"
    and "act eff (polStatusUpdate papi cl p) w = (Inl e, w') \<Longrightarrow> look cl (policy_nn p) (w_env w) \<noteq> None \<Longrightarrow>
      left w' < left w"
  using create_faults update_faults status_faults by (auto simp: act_def split: prod.splits)


abbreviation hkey :: "string \<Rightarrow> namespaced_name" where
  "hkey n \<equiv> nn hubNamespace n"

abbreviation mkey :: "string \<Rightarrow> namespaced_name" where
  "mkey n \<equiv> nn (ss_targetNamespace r) n"

section \<open>A reconcile of spec-sync\<close>

lemma compare_and_update_step:
  assumes "compare_and_update papi r h q w = (res, w')" and "look Managed (policy_nn q) (w_env w) = Some q"
  shows "(res = Done \<and> left w' \<le> left w \<or> (\<exists>e. res = Failed e \<and> left w' < left w)) \<and>
    (ignores_update papi h q w \<longrightarrow> res = Done \<and> left w' < left w) \<and>
    (\<exists>q'. look Managed (policy_nn q) (w_env w') = Some q' \<and> p_status q' = p_status q) \<and>
    (EquivalentReplicatedPolicies h q \<longrightarrow> w_env w' = w_env w)"
proof (cases "EquivalentReplicatedPolicies h q")
  case True
  then show ?thesis using assms by (auto simp: compare_and_update_def ignores_update_def split: if_splits)
next
  case False
  let ?q = "q\<lparr>p_annotations := p_annotations h, p_spec := p_spec h\<rparr>"
  obtain x w1 where u: "act (PolicyUpdate Managed ?q) (polUpdate papi Managed ?q) w = (x, w1)" by fastforce
  show ?thesis
  proof (cases x)
    case (Inl e)
    then have "left w1 < left w"
      using u act_faults(4) [of "PolicyUpdate Managed ?q" Managed ?q w e w1] assms(2) by simp
    moreover have "look Managed (policy_nn q) (w_env w1) = Some q"
      using act_update(2) [OF u, of Managed "policy_nn q"] Inl assms(2) by simp
    moreover have "ignores_update papi h q w \<longleftrightarrow> \<not> IsNotFound e"
      using False u Inl by (auto simp: ignores_update_def act_def split: prod.splits)
    moreover have "res = (if IsNotFound e then Failed e else Done)" "w_env w' = w_env w1"
      using assms(1) False u Inl by (auto simp: compare_and_update_def Let_def split: if_splits)
    ultimately show ?thesis using False by auto
  next
    case (Inr q')
    have "p_status q' = p_status q"
      using u Inr update_status [of ?q "w_env w" q' _ q] assms(2) by (auto simp: act_def split: prod.splits)
    moreover have "look Managed (policy_nn q) (w_env w1) = Some q'" using act_update(1) [OF u] Inr by simp
    moreover have "\<not> ignores_update papi h q w"
      using u Inr by (auto simp: ignores_update_def act_def split: prod.splits)
    ultimately show ?thesis
      using assms(1) False u Inr act_faults(3) [OF u] by (auto simp: compare_and_update_def Let_def)
  qed
qed

text \<open>What a reconcile of the policy \<open>n\<close>, which is on the hub as \<open>h\<close>, does to the managed copy.\<close>

definition spec_copies :: "string \<Rightarrow> policy \<Rightarrow> 'c world \<Rightarrow> 'c world \<Rightarrow> bool" where
  "spec_copies n h w w' \<longleftrightarrow>
     (case look Managed (mkey n) (w_env w) of
        None \<Rightarrow> (\<forall>m'. look Managed (mkey n) (w_env w') = Some m' \<longrightarrow> s_details (p_status m') = [])
      | Some m \<Rightarrow> (\<exists>m'. look Managed (mkey n) (w_env w') = Some m' \<and> p_status m' = p_status m) \<and>
          (EquivalentReplicatedPolicies h m \<longrightarrow> (\<forall>cl k. look cl k (w_env w') = look cl k (w_env w))))"

lemma spec_copies_same: "(\<And>cl k. look cl k (w_env w') = look cl k (w_env w)) \<Longrightarrow> spec_copies n h w w'"
  by (auto simp: spec_copies_def split: option.split)

lemma create_fault_step:
  assumes hub: "call (polGet papi Hub k) w = (Inr h, w1)"
    and managed: "call (polGet papi Managed m) w1 = (Inl e, w2)" "IsNotFound e"
    and create: "policy_nn p = m" "act (PolicyCreate Managed p) (polCreate papi Managed p) w2 = (Inl e2, w')"
  shows "left w' < left w \<and> (\<forall>cl k. look cl k (w_env w') = look cl k (w_env w))"
proof -
  have same: "look cl k (w_env w2) = look cl k (w_env w)" for cl k
    using call_get(1) [OF hub] call_get(1) [OF managed(1)] by simp
  have "look Managed m (w_env w) = None"
    using call_get(3) [OF managed(1) refl managed(2)] call_get(1) [OF hub] by simp
  then have "left w' < left w"
    using act_faults(2) [OF create(2)] create(1) same get_call_faults [OF hub] get_call_faults [OF managed(1)] by simp
  then show ?thesis using act_create(2) [OF create(2)] same by simp
qed

lemma spec_reconcile_step:
  assumes run: "Reconcile_spec False papi r (hkey n) w = (res, w')"
    and hub: "look Hub (hkey n) (w_env w) = Some h"
  shows "(res = Done \<and> left w' \<le> left w \<or> (\<exists>e. res = Failed e \<and> left w' < left w)) \<and>
    (update_ignored papi r (hkey n) w \<longrightarrow> res = Done \<and> left w' < left w) \<and> spec_copies n h w w'"
proof -
  have m: "mkey n = nn (ss_targetNamespace r) (nn_name (hkey n))" by simp
  show ?thesis
    using run m
  proof (cases rule: Reconcile_spec_cases)
    case (hub_error e)
    then show ?thesis
      using call_get_fault [OF hub_error(2,3)] call_get(1) [OF hub_error(2)] spec_copies_same
      by (simp add: update_ignored_def)
  next
    case (gone e w1 d)
    then show ?thesis using call_get(3) [OF gone(2)] hub by simp
  next
    case (managed_error h' w1 e)
    then show ?thesis
      using call_get_fault [OF managed_error(3,4)] get_call_faults [OF managed_error(2)]
        call_get(1) [OF managed_error(2)] call_get(1) [OF managed_error(3)] spec_copies_same
      by (simp add: update_ignored_def)
  next
    case (create_error h' w1 e w2 e2)
    then have "\<not> update_ignored papi r (hkey n) w" by (simp add: update_ignored_def)
    then show ?thesis
      using create_fault_step [OF create_error(2-6)] create_error(7) spec_copies_same by simp
  next
    case (created h' w1 e w2 q w3)
    have "look Managed (mkey n) (w_env w) = None"
      using call_get(3) [OF created(3) refl created(4)] call_get(1) [OF created(2)] by simp
    moreover have "s_details (p_status q) = []"
      using created(6) create_status by (auto simp: act_def split: prod.splits)
    moreover have "update_ignored papi r (hkey n) w \<longleftrightarrow>
        ignores_update papi h' q (emit (spec_event q (synchronized_text r h')) w3)"
      using created by (simp add: update_ignored_def ignores_update_def)
    ultimately show ?thesis
      using compare_and_update_step [OF created(8)] create_same(1) [OF created(6)] created(5,7) act_faults(1) [OF created(6)]
        get_call_faults [OF created(2)] get_call_faults [OF created(3)] by (auto simp: spec_copies_def)
  next
    case (there h' w1 q w2)
    have "h' = h" using call_get(2) [OF there(2)] hub by simp
    moreover have same: "look cl k (w_env w2) = look cl k (w_env w)" for cl k
      using call_get(1) [OF there(2)] call_get(1) [OF there(3)] by simp
    moreover have q: "look Managed (mkey n) (w_env w) = Some q"
      using call_get(2) [OF there(3)] call_get(1) [OF there(2)] by simp
    moreover have "update_ignored papi r (hkey n) w \<longleftrightarrow> ignores_update papi h' q w2"
      using there by (simp add: update_ignored_def)
    ultimately show ?thesis
      using compare_and_update_step [OF there(5)] there(4) get_call_faults [OF there(2)] get_call_faults [OF there(3)]
      by (auto simp: spec_copies_def)
  qed simp
qed


section \<open>A reconcile of status-sync\<close>

lemma resolve_template_faults:
  assumes "resolve_template lib wapi inst i t m w = (x, w')"
  shows "left w' \<le> left w" and "x = Inl e \<Longrightarrow> left w' < left w"
proof -
  have "left w' \<le> left w \<and> (\<forall>e. x = Inl e \<longrightarrow> left w' < left w)"
    using assms watch_faults unfolding resolve_template_def
    by (fastforce simp: call_def Let_def split: sum.splits prod.splits option.splits)
  then show "left w' \<le> left w" and "x = Inl e \<Longrightarrow> left w' < left w" by simp_all
qed

lemma details_loop_faults:
  assumes "details_loop lib wapi inst i ts m acc w = (x, w')"
  shows "left w' \<le> left w \<and> (\<forall>e. x = Err e \<longrightarrow> left w' < left w)"
  using assms
proof (induction ts arbitrary: i m acc w)
  case (Cons t ts)
  obtain y w1 where y: "resolve_template lib wapi inst i t m w = (y, w1)" by fastforce
  note R = resolve_template_faults [OF y]
  show ?case
  proof (cases y)
    case (Inr z)
    obtain n m1 ex where z: "z = (n, m1, ex)" by (cases z)
    show ?thesis
    proof (cases "mergeDetails (m1 n) ex n")
      case (Some d)
      with Cons.prems y Inr z have "details_loop lib wapi inst (Suc i) ts m1 (acc @ [Some d]) w1 = (x, w')"
        by simp
      from Cons.IH [OF this] R show ?thesis by auto
    qed (use Cons.prems y Inr z R in auto)
  qed (use Cons.prems y R in auto)
qed auto

lemma events_for_policy_known:
  assumes "\<forall>ev\<in>set es. known P (history_of_event ev)" and "\<forall>n. \<forall>e\<in>set (m n). known P e"
  shows "\<forall>n. \<forall>e\<in>set (events_for_policy uid es m n). known P e"
  using assms
proof (induction es arbitrary: m)
  case (Cons ev es)
  have "\<forall>n. \<forall>e\<in>set ((m(t := m t @ [history_of_event ev])) n). known P e" for t
    using Cons.prems by auto
  note grown = Cons.IH [OF _ this]
  consider "events_for_policy uid (ev # es) m = events_for_policy uid es m"
    | t where "events_for_policy uid (ev # es) m = events_for_policy uid es (m(t := m t @ [history_of_event ev]))"
    by (cases "reason_template (ev_reason ev)"; cases "ref_uid (ev_involved ev) = uid") auto
  then show ?case
  proof cases
    case 1
    show ?thesis unfolding 1 by (rule Cons.IH) (use Cons.prems in simp_all)
  next
    case 2
    show ?thesis unfolding 2 by (rule grown) (use Cons.prems in simp)
  qed
qed simp

lemma policy_events_known: "\<forall>n. \<forall>e\<in>set (policy_events evs m n). known P e"
  unfolding policy_events_def by (rule events_for_policy_known) (simp_all add: events_known)

lemma template_events_known: "\<forall>t\<in>set ts. \<forall>e\<in>set (template_events lib T m t). known P e"
proof (intro ballI)
  fix t e assume e: "e \<in> set (template_events lib T m t)"
  then have "e \<in> set (getEventsInTemplate lib (template_object lib T m t) (p_name m))"
    by (simp add: template_events_def Let_def split: if_splits)
  moreover have "template_object lib T m t \<noteq> None"
    using e by (cases "template_object lib T m t") (simp_all add: template_events_def templateOwnedByPolicy_def)
  then obtain oid g ns n where "T oid g ns n = template_object lib T m t"
    by (auto simp: template_object_def split: sum.splits option.splits)
  ultimately show "known P e" using objects_known by metis
qed

lemma getDetails_step:
  assumes "getDetails lib eapi wapi m w = (x, w')" and "known_details P (s_details (p_status m))"
  shows "left w' \<le> left w \<and> (\<forall>e. x = Err e \<longrightarrow> left w' < left w) \<and> x \<noteq> Panic \<and>
    (\<forall>ds. x = Ok ds \<longrightarrow> (\<exists>ds'. ds = map Some ds' \<and> current_details lib evs T m = Some ds' \<and> known_details P ds))"
proof -
  have np: "x \<noteq> Panic"
    using getDetails_no_panic [OF known_details_None [OF assms(2)], of lib eapi wapi w] assms(1) by simp
  obtain y w1 where e: "call (evList eapi (p_namespace m)) w = (y, w1)" by fastforce
  have le: "left w1 \<le> left w" using call_faults [OF e list_faults(1)] .
  show ?thesis
  proof (cases y)
    case (Inl err)
    then have "left w1 < left w" using e list_faults(2) by (auto simp: call_def split: prod.splits)
    then show ?thesis using assms(1) e Inl by (auto simp: getDetails_def getEventsInCluster_def)
  next
    case (Inr es)
    then have "es = evs (p_namespace m)" using e events_stay by (auto simp: call_def split: prod.splits)
    then have l: "details_loop lib wapi m 0 (sp_templates (p_spec m)) (policy_events evs m) [] w1 = (x, w')"
      using assms(1) e Inr by (simp add: getDetails_def getEventsInCluster_def policy_events_def)
    have "\<exists>ds'. ds = map Some ds' \<and> current_details lib evs T m = Some ds' \<and> known_details P ds" if x: "x = Ok ds" for ds
    proof -
      obtain ds' where "ds = map Some ds'" "current_details lib evs T m = Some ds'"
        using details_loop_pure [OF objects_stay l [unfolded x]] by (auto simp: current_details_def)
      then show ?thesis
        using pure_details_known [OF _ policy_events_known assms(2) template_events_known]
        by (auto simp: current_details_def)
    qed
    then show ?thesis using details_loop_faults [OF l] le np by auto
  qed
qed

text \<open>The two status updates, whatever they return.\<close>

lemma update_managed_status_step:
  assumes u: "update_managed_status papi inst (p_status m) w = (x, w')"
    and inst: "inst = m\<lparr>p_status := (p_status m)\<lparr>s_details := ds, s_compliance := c\<rparr>\<rparr>"
    and m: "look Managed (policy_nn m) (w_env w) = Some m"
  shows "left w' \<le> left w \<and> (\<forall>e. x = Inl e \<longrightarrow> left w' < left w \<and> (\<forall>cl k. look cl k (w_env w') = look cl k (w_env w))) \<and>
    (\<forall>i. x = Inr i \<longrightarrow> p_name i = p_name m \<and> p_status i = p_status inst \<and>
      (\<exists>m'. look Managed (policy_nn m) (w_env w') = Some m' \<and> same_object m m' \<and> p_uid m' = p_uid m \<and>
        p_status m' = p_status inst)) \<and>
    (\<forall>cl k. (cl, k) \<noteq> (Managed, policy_nn m) \<longrightarrow> look cl k (w_env w') = look cl k (w_env w)) \<and>
    (p_status inst = p_status m \<longrightarrow> x = Inr inst \<and> w' = w)"
proof (cases "p_status inst = p_status m")
  case True
  then have "s_details (p_status inst) = s_details (p_status m)" "s_compliance (p_status inst) = s_compliance (p_status m)"
    by simp_all
  then have "x = Inr inst" "w' = w" using u by (auto simp: update_managed_status_def)
  then show ?thesis using True inst m by (auto intro!: exI [of _ m])
next
  case False
  then have ne: "\<not> (s_details (p_status inst) = s_details (p_status m) \<and>
      s_compliance (p_status inst) = s_compliance (p_status m))" using inst by auto
  let ?e = "PolicyStatusUpdate Managed inst"
  obtain y w1 where a: "act ?e (polStatusUpdate papi Managed inst) w = (y, w1)" by fastforce
  have nn: "policy_nn inst = policy_nn m" using inst by simp
  note frame = act_status(2) [OF a] act_faults(5) [OF a]
  show ?thesis
  proof (cases y)
    case (Inl e)
    then have "left w1 < left w" using act_faults(6) [OF a [unfolded Inl]] nn m by simp
    then show ?thesis using u ne a Inl frame False by (auto simp: update_managed_status_def)
  next
    case (Inr i)
    have uid: "p_uid i = p_uid inst"
      using a Inr status_uid by (auto simp: act_def split: prod.splits)
    have so: "same_object inst i" "p_status i = p_status inst" "look Managed (policy_nn m) (w_env w1) = Some i"
      using act_status(1) [OF a Inr] nn by auto
    have "same_object m i" "p_name i = p_name m" "p_uid i = p_uid m"
      using so(1) uid inst by (simp_all add: same_object_def)
    with so show ?thesis
      using u ne a Inr frame nn False by (auto simp: update_managed_status_def)
  qed
qed

lemma update_hub_status_step:
  assumes u: "update_hub_status papi sr inst h w = (x, w')" and name: "p_name inst = n"
    and h: "look Hub (hkey n) (w_env w) = Some h"
  shows "left w' \<le> left w \<and> (\<forall>e. x = Some e \<longrightarrow> left w' < left w) \<and>
    (\<exists>h'. look Hub (hkey n) (w_env w') = Some h' \<and> same_object h h' \<and> (x = None \<longrightarrow> p_status h' = p_status inst)) \<and>
    (\<forall>cl k. (cl, k) \<noteq> (Hub, hkey n) \<longrightarrow> look cl k (w_env w') = look cl k (w_env w)) \<and>
    (p_status h = p_status inst \<longrightarrow> (\<forall>cl k. look cl k (w_env w') = look cl k (w_env w)) \<and> w_log w' = w_log w)"
proof -
  let ?h = "h\<lparr>p_status := p_status inst\<rparr>"
  obtain y w1 where g: "call (polGet papi Hub (hkey n)) w = (y, w1)" by fastforce
  have y: "(case y of Inl _ \<Rightarrow> h | Inr updated \<Rightarrow> updated) = h"
    using call_get(2) [OF g] h by (cases y) auto
  obtain z w2 where a: "act (PolicyStatusUpdate Hub ?h) (polStatusUpdate papi Hub ?h) w1 = (z, w2)" by fastforce
  have nn: "policy_nn ?h = hkey n" using look_nn [OF h] by simp
  have g1: "look cl k (w_env w1) = look cl k (w_env w)" for cl k by (rule call_get(1) [OF g])
  note le = get_call_faults [OF g] act_faults(5) [OF a] and frame = act_status(2) [OF a]
  show ?thesis
  proof (cases "p_status h = p_status inst")
    case True
    then have "x = None" "w' = w1" using u g y name sr by (auto simp: update_hub_status_def)
    then show ?thesis using True g1 h le call_log [OF g] by auto
  next
    case False
    show ?thesis
    proof (cases z)
      case (Inl e)
      then have "left w2 < left w1" using act_faults(6) [OF a [unfolded Inl]] nn g1 h by simp
      moreover have "x = Some e" "w' = w2" using u g y a Inl False name sr by (auto simp: update_hub_status_def)
      ultimately show ?thesis using frame Inl g1 h le False by auto
    next
      case (Inr q)
      have "look Hub (hkey n) (w_env w2) = Some q" "p_status q = p_status inst" "same_object h q"
        using act_status(1) [OF a Inr] nn by (auto simp: same_object_def)
      moreover have "x = None" "w_env w' = w_env w2"
        using u g y a Inr False name sr by (auto simp: update_hub_status_def)
      ultimately show ?thesis using frame nn g1 le False by auto
    qed
  qed
qed

lemma updateStatuses_step:
  assumes u: "updateStatuses papi sr (m\<lparr>p_status := (p_status m)\<lparr>s_details := map Some ds\<rparr>\<rparr>) (Some h) (p_status m) w = (x, w')"
    and m: "look Managed (mkey n) (w_env w) = Some m" and h: "look Hub (hkey n) (w_env w) = Some h"
  defines "s \<equiv> (p_status m)\<lparr>s_details := map Some ds,
      s_compliance := compliance_spec (s_compliance (p_status m)) (d_compliance ` set ds)\<rparr>"
  shows "x \<noteq> Panic \<and> left w' \<le> left w \<and> (\<forall>e. x = Err e \<longrightarrow> left w' < left w) \<and>
    (\<exists>h' m'. look Hub (hkey n) (w_env w') = Some h' \<and> same_object h h' \<and>
      look Managed (mkey n) (w_env w') = Some m' \<and> same_object m m' \<and> p_uid m' = p_uid m \<and>
      p_status m' \<in> {p_status m, s} \<and> (x = Ok () \<longrightarrow> p_status m' = s \<and> p_status h' = s)) \<and>
    (\<forall>cl k. (cl, k) \<notin> {(Hub, hkey n), (Managed, mkey n)} \<longrightarrow> look cl k (w_env w') = look cl k (w_env w)) \<and>
    (p_status m = s \<and> p_status h = s \<longrightarrow> (\<forall>cl k. look cl k (w_env w') = look cl k (w_env w)) \<and> w_log w' = w_log w)"
proof -
  let ?inst = "m\<lparr>p_status := s\<rparr>"
  have nn: "policy_nn m = mkey n" "p_name m = n" using look_nn [OF m] look_name [OF m] by auto
  obtain y w1 where um: "update_managed_status papi ?inst (p_status m) w = (y, w1)" by fastforce
  note U = update_managed_status_step [OF um [unfolded s_def] refl, folded s_def, unfolded nn, OF m]
  have Ul: "left w1 \<le> left w" and U_Inl: "\<And>e. y = Inl e \<Longrightarrow> left w1 < left w"
      "\<And>e cl k. y = Inl e \<Longrightarrow> look cl k (w_env w1) = look cl k (w_env w)"
    and U_frame: "\<And>cl k. (cl, k) \<noteq> (Managed, mkey n) \<Longrightarrow> look cl k (w_env w1) = look cl k (w_env w)"
    and U_eq: "p_status ?inst = p_status m \<Longrightarrow> y = Inr ?inst \<and> w1 = w"
    and U_Inr: "\<And>i. y = Inr i \<Longrightarrow> p_name i = n \<and> p_status i = p_status ?inst \<and>
      (\<exists>m'. look Managed (mkey n) (w_env w1) = Some m' \<and> same_object m m' \<and> p_uid m' = p_uid m \<and>
        p_status m' = p_status ?inst)"
    using U by blast+
  have U_same: "p_status m = s \<Longrightarrow> y = Inr ?inst \<and> w1 = w" by (rule U_eq) simp
  show ?thesis
  proof (cases y)
    case (Inl e)
    have "x = Err e" "w' = w1"
      using u um Inl by (auto simp: updateStatuses_def overall_compliance_Some s_def)
    moreover have "p_status m \<noteq> s" using U_same Inl by auto
    ultimately show ?thesis using Ul U_Inl [OF Inl] m h by simp
  next
    case (Inr i)
    obtain m' where i: "p_name i = n" "p_status i = s"
      and m': "look Managed (mkey n) (w_env w1) = Some m'" "same_object m m'" "p_uid m' = p_uid m" "p_status m' = s"
      using U_Inr [OF Inr] by auto
    have h1: "look Hub (hkey n) (w_env w1) = Some h" using U_frame [of Hub] h by simp
    obtain z w2 where uh: "update_hub_status papi sr i h w1 = (z, w2)" by fastforce
    note V = update_hub_status_step [OF uh i(1) h1, unfolded i(2)]
    have w: "w' = w2" "x = (case z of None \<Rightarrow> Ok () | Some e \<Rightarrow> Err e)"
      using u um Inr uh sr(3) by (auto simp: updateStatuses_def overall_compliance_Some s_def split: option.splits)
    obtain h' where h': "look Hub (hkey n) (w_env w2) = Some h'" "same_object h h'" "z = None \<longrightarrow> p_status h' = s"
      using V by blast
    have frame: "look cl k (w_env w2) = look cl k (w_env w)" if "(cl, k) \<notin> {(Hub, hkey n), (Managed, mkey n)}" for cl k
      using V U_frame [of cl k] that by auto
    have same: "look cl k (w_env w2) = look cl k (w_env w)" "w_log w2 = w_log w"
      if "p_status m = s" "p_status h = s" for cl k
      using V U_same that by auto
    have "look Managed (mkey n) (w_env w2) = Some m'" using V m'(1) by auto
    moreover have "left w2 \<le> left w" "z \<noteq> None \<longrightarrow> left w2 < left w" using V Ul by auto
    moreover have "x \<noteq> Panic" "x = Ok () \<longleftrightarrow> z = None" "\<exists>e. x = Err e \<Longrightarrow> z \<noteq> None"
      using w(2) by (auto split: option.splits)
    ultimately show ?thesis using h' m'(2-4) frame same unfolding w(1) by blast
  qed
qed

text \<open>A policy whose details were just written is up to date.\<close>

lemma written_up_to_date:
  assumes "current_details lib evs T m = Some ds" and "known_details P (s_details (p_status m))"
    and "distinct (template_names lib (sp_templates (p_spec m)))"
    and "same_object m m'" and "p_uid m' = p_uid m"
    and "p_status m' = (p_status m)\<lparr>s_details := map Some ds,
      s_compliance := compliance_spec (s_compliance (p_status m)) (d_compliance ` set ds)\<rparr>"
  shows "up_to_date lib evs T m'"
proof -
  note pd = assms(1) [unfolded current_details_def]
  have "map d_name ds = template_names lib (sp_templates (p_spec m))"
    using pure_details_shape [OF pd] by (intro nth_equalityI) (auto simp: template_names_def nth_enumerate_eq)
  then have "distinct (map d_name ds)" using assms(3) by simp
  then have "\<forall>d\<in>set ds. find_details (d_name d) (s_details (p_status m')) = Some (Some d)"
    using find_details_distinct assms(6) by simp
  then have "pure_details lib T m' 0 (sp_templates (p_spec m)) (policy_events evs m) = Some ds"
    using assms(4)
    by (intro pure_details_again [OF similar pd policy_events_known assms(2) template_events_known])
      (auto simp: same_object_def)
  then have "current_details lib evs T m' = Some ds"
    using assms(4,5) by (simp add: current_details_def policy_events_def same_object_def)
  then show ?thesis using assms(6) by (simp add: up_to_date_def compliance_spec_def)
qed

lemma getInstances_step:
  assumes "getInstances papi sr k w = (x, w')"
  shows "left w' \<le> left w \<and> (\<forall>e. x = Inl e \<longrightarrow> left w' < left w)"
proof -
  obtain y w1 where g: "call (polGet papi Managed k) w = (y, w1)" by fastforce
  obtain z w2 where h: "call (polGet papi Hub (nn (sr_clusterNamespaceOnHub sr) (nn_name k))) w1 = (z, w2)" by fastforce
  note l = get_call_faults [OF g] get_call_faults [OF h]
  have "left w1 < left w" if "y = Inl e" "\<not> IsNotFound e" for e
    using call_get_fault g that by blast
  moreover have "left w2 < left w1" if "z = Inl e" "\<not> IsNotFound e" for e
    using call_get_fault h that by blast
  ultimately show ?thesis
    using assms g h l sr(3)
    by (cases y; cases z) (auto simp: getInstances_def Let_def split: if_splits)
qed

abbreviation agreed :: "string \<Rightarrow> 'c \<Rightarrow> bool" where
  "agreed n c \<equiv> in_agreement look r hubNamespace c n"

abbreviation at_rest :: "string \<Rightarrow> 'c \<Rightarrow> bool" where
  "at_rest n c \<equiv> settled lib evs T look r hubNamespace c n"

definition proper :: "string \<Rightarrow> 'c \<Rightarrow> bool" where
  "proper n c \<longleftrightarrow>
     (\<exists>h. look Hub (hkey n) c = Some h \<and> distinct (template_names lib (sp_templates (p_spec h)))) \<and>
     (\<forall>m. look Managed (mkey n) c = Some m \<longrightarrow> known_details P (s_details (p_status m)))"

lemma ready_iff: "ready lib P look r hubNamespace c n \<longleftrightarrow> look Hub (hkey n) c = None \<or> proper n c"
  by (auto simp: ready_def proper_def split: option.splits)

definition unmoved :: "'c \<Rightarrow> 'c \<Rightarrow> bool" where
  "unmoved c c' \<longleftrightarrow> (\<forall>cl k. look cl k c' = look cl k c)"

definition status_effect :: "string \<Rightarrow> reconcile_result \<Rightarrow> 'c world \<Rightarrow> 'c world \<Rightarrow> bool" where
  "status_effect n res w w' \<longleftrightarrow>
     (res = Done \<and> left w' \<le> left w \<or> (\<exists>e. res = Failed e) \<and> left w' < left w) \<and>
     (\<forall>cl k. (cl, k) \<notin> {(Hub, hkey n), (Managed, mkey n)} \<longrightarrow> look cl k (w_env w') = look cl k (w_env w)) \<and>
     proper n (w_env w') \<and>
     (agreed n (w_env w') \<longleftrightarrow> agreed n (w_env w)) \<and>
     (\<not> agreed n (w_env w) \<longrightarrow> unmoved (w_env w) (w_env w') \<and>
        (res = Done \<longrightarrow> w_log w' = w_log w @ [SpecSyncRequest (hkey n)])) \<and>
     (agreed n (w_env w) \<and> res = Done \<longrightarrow> at_rest n (w_env w')) \<and>
     (at_rest n (w_env w) \<longrightarrow> unmoved (w_env w) (w_env w') \<and> w_log w' = w_log w)"

lemma unmoved_same:
  assumes "unmoved c c'"
  shows "agreed n c' \<longleftrightarrow> agreed n c" and "at_rest n c' \<longleftrightarrow> at_rest n c" and "proper n c' \<longleftrightarrow> proper n c"
  using assms by (simp_all add: unmoved_def in_agreement_def settled_def proper_def split: option.split)

lemma at_rest_agreed: "at_rest n c \<Longrightarrow> agreed n c"
  by (auto simp: settled_def in_agreement_def split: option.splits)

lemma write_statuses_step:
  assumes agree: "agreed n (w_env w)" and "proper n (w_env w)" and m: "look Managed (mkey n) (w_env w) = Some m"
    and h: "look Hub (hkey n) (w_env w) = Some h" and ds: "current_details lib evs T m = Some ds"
    and u: "updateStatuses papi sr (m\<lparr>p_status := (p_status m)\<lparr>s_details := map Some ds\<rparr>\<rparr>) (Some h) (p_status m) w = (x, w')"
    and res: "res = (case x of Err e \<Rightarrow> Failed e | Panic \<Rightarrow> Panicked | Ok _ \<Rightarrow> Done)"
  shows "status_effect n res w w'"
proof -
  let ?s = "(p_status m)\<lparr>s_details := map Some ds,
      s_compliance := compliance_spec (s_compliance (p_status m)) (d_compliance ` set ds)\<rparr>"
  note S = updateStatuses_step [OF u m h]
  obtain h' m' where l: "look Hub (hkey n) (w_env w') = Some h'" "look Managed (mkey n) (w_env w') = Some m'"
    and so: "same_object h h'" "same_object m m'" "p_uid m' = p_uid m" "p_status m' \<in> {p_status m, ?s}"
    and ok: "x = Ok () \<longrightarrow> p_status m' = ?s \<and> p_status h' = ?s" using S by blast
  have eq: "EquivalentReplicatedPolicies h m" using agree h m by (simp add: in_agreement_def)
  have known: "known_details P (s_details (p_status m))" using assms(2) m by (simp add: proper_def)
  have dist: "distinct (template_names lib (sp_templates (p_spec h)))" using assms(2) h by (simp add: proper_def)
  have "known_details P (map Some ds)"
    using pure_details_known [OF ds [unfolded current_details_def] policy_events_known known template_events_known] .
  then have proper': "proper n (w_env w')" using l so dist known by (auto simp: proper_def same_object_def)
  have eq': "EquivalentReplicatedPolicies h' m'" using eq so by (simp add: EquivalentReplicatedPolicies_iff same_object_def)
  then have agree': "agreed n (w_env w')" using l by (simp add: in_agreement_def)
  have rest: "at_rest n (w_env w')" if "x = Ok ()"
  proof -
    have "up_to_date lib evs T m'"
      by (rule written_up_to_date [OF ds known _ so(2,3)])
        (use ok that dist eq in \<open>simp_all add: EquivalentReplicatedPolicies_iff\<close>)
    then show ?thesis using l eq' ok that by (simp add: settled_def)
  qed
  have "p_status m = ?s \<and> p_status h = ?s" if "at_rest n (w_env w)"
  proof -
    from that h m have "p_status h = p_status m" "up_to_date lib evs T m" by (simp_all add: settled_def)
    moreover from this have "s_details (p_status m) = map Some ds"
      "s_compliance (p_status m) = compliance_spec (s_compliance (p_status m)) (d_compliance ` set ds)"
      using ds by (simp_all add: up_to_date_def)
    ultimately show ?thesis by simp
  qed
  then have quiet: "unmoved (w_env w) (w_env w') \<and> w_log w' = w_log w" if "at_rest n (w_env w)"
    using S that unfolding unmoved_def by blast
  have "res = Done \<and> left w' \<le> left w \<or> (\<exists>e. res = Failed e) \<and> left w' < left w"
    using S res by (cases x) auto
  moreover have "res = Done \<Longrightarrow> x = Ok ()" using res by (cases x) auto
  moreover have "\<forall>cl k. (cl, k) \<notin> {(Hub, hkey n), (Managed, mkey n)} \<longrightarrow> look cl k (w_env w') = look cl k (w_env w)"
    using S by blast
  ultimately show ?thesis unfolding status_effect_def using proper' agree agree' rest quiet by blast
qed

lemma status_effect_quiet:
  assumes "status_effect n res w w'" and "unmoved (w_env v) (w_env w)" and "w_log w = w_log v" and "left w \<le> left v"
  shows "status_effect n res v w'"
proof -
  have "look cl k (w_env w) = look cl k (w_env v)" for cl k using assms(2) by (simp add: unmoved_def)
  then show ?thesis
    using assms(1,3,4) unmoved_same [OF assms(2)] by (auto simp: status_effect_def unmoved_def)
qed

lemma status_effect_unmoved:
  assumes "unmoved (w_env w) (w_env w')" and "w_log w' = w_log w" and "left w' < left w" and "proper n (w_env w)"
  shows "status_effect n (Failed e) w w'"
  using assms unmoved_same [OF assms(1)] by (simp add: status_effect_def unmoved_def)

text \<open>What the fetch finds for a policy that is on the hub.\<close>

lemma getInstances_apart:
  assumes "getInstances papi sr (mkey n) w = (Inr (mi, hi), w')" and "look Hub (hkey n) (w_env w) = Some h"
  shows "mi \<noteq> None \<longleftrightarrow> agreed n (w_env w)" and "mi = None \<Longrightarrow> w_log w' = w_log w @ [SpecSyncRequest (hkey n)]"
    and "mi \<noteq> None \<Longrightarrow> hi = Some h"
proof -
  have hk: "hub_key sr (mkey n) = hkey n" using sr(1) by (simp add: hub_key_def)
  obtain es where "instances_spec sr (mkey n) (look Managed (mkey n) (w_env w)) (Some h) = (mi, hi, es)"
    "w_log w' = w_log w @ es"
    using getInstances_Inr [OF assms(1)] hk assms(2) by auto
  then show "mi \<noteq> None \<longleftrightarrow> agreed n (w_env w)" and "mi = None \<Longrightarrow> w_log w' = w_log w @ [SpecSyncRequest (hkey n)]"
    and "mi \<noteq> None \<Longrightarrow> hi = Some h"
    using sr(2,3) hk assms(2)
    by (auto simp: instances_spec_def in_agreement_def spec_requests_def EquivalentReplicatedPolicies_iff
        dest: sym [of "Some _"] split: option.splits if_splits)
qed

lemma reconcile_policy_status_step:
  assumes run: "reconcile_policy_status lib papi eapi wapi sr (mkey n) w = (res, w')" and "proper n (w_env w)"
  shows "status_effect n res w w'"
proof -
  obtain h where h: "look Hub (hkey n) (w_env w) = Some h"
    using assms(2) by (auto simp: proper_def)
  have known: "known_details P (s_details (p_status m))" if "look Managed (mkey n) (w_env w) = Some m" for m
    using assms(2) that by (simp add: proper_def)
  from run show ?thesis
  proof (cases rule: reconcile_policy_status_cases)
    case (fetch_error e)
    have u: "unmoved (w_env w) (w_env w')" using getInstances_frame [OF fetch_error(1)] by (simp add: unmoved_def)
    show ?thesis unfolding fetch_error(2)
      by (rule status_effect_unmoved [OF u getInstances_Inl [OF fetch_error(1)] _ assms(2)])
        (use getInstances_step [OF fetch_error(1)] in simp)
  next
    case no_work
    have u: "unmoved (w_env w) (w_env w')" using getInstances_frame [OF no_work(1)] by (simp add: unmoved_def)
    show ?thesis
      using getInstances_apart [OF no_work(1) h] getInstances_step [OF no_work(1)] u unmoved_same [OF u] no_work(2)
        assms(2) at_rest_agreed by (auto simp: status_effect_def unmoved_def)
  next
    case (no_details m hi w1 x)
    note G = getInstances_found [OF no_details(1)] and D = getDetails_step [OF no_details(2) known]
    obtain e where e: "res = Failed e" "left w' < left w1" using D G(1) no_details(3) by blast
    have u: "unmoved (w_env w) (w_env w')"
      using getInstances_frame [OF no_details(1)] getDetails_frame(1) [OF no_details(2)] by (simp add: unmoved_def)
    show ?thesis unfolding e(1)
      by (rule status_effect_unmoved [OF u _ _ assms(2)])
        (use G(2) getDetails_frame(2) [OF no_details(2)] getInstances_step [OF no_details(1)] e(2) in simp_all)
  next
    case (written m hi w1 details w2 x)
    note G = getInstances_found [OF written(1)] and A = getInstances_apart [OF written(1) h]
      and D = getDetails_step [OF written(2) known]
    obtain ds where ds: "details = map Some ds" "current_details lib evs T m = Some ds" using D G(1) by blast
    have l2: "look cl k (w_env w2) = look cl k (w_env w)" for cl k
      using getInstances_frame [OF written(1)] getDetails_frame(1) [OF written(2)] by simp
    then have u: "unmoved (w_env w) (w_env w2)" by (simp add: unmoved_def)
    have hi: "hi = Some h" using A(3) by simp
    have "status_effect n res w2 w'"
      by (rule write_statuses_step [OF _ _ _ _ ds(2) written(3) [unfolded ds(1) hi] written(4)])
        (use l2 G(1) A(1) h assms(2) unmoved_same [OF u] in simp_all)
    then show ?thesis
      by (rule status_effect_quiet [OF _ u])
        (use G(2) getDetails_frame(2) [OF written(2)] D G(1) getInstances_step [OF written(1)] in auto)
  qed
qed

lemma status_effect_then_quiet:
  assumes "status_effect n res v w" and "unmoved (w_env w) (w_env w')" and "w_log w' = w_log w" and "left w' \<le> left w"
  shows "status_effect n res v w'"
proof -
  have "look cl k (w_env w') = look cl k (w_env w)" for cl k using assms(2) by (simp add: unmoved_def)
  then show ?thesis
    using assms(1,3,4) unmoved_same [OF assms(2)] by (auto simp: status_effect_def unmoved_def)
qed

lemma status_reconcile_step:
  assumes run: "Reconcile_status False lib papi eapi wapi sr (mkey n) w = (res, w')" and "proper n (w_env w)"
  shows "status_effect n res w w'"
  using run
proof (cases rule: Reconcile_status_cases)
  case (no_batch e)
  have u: "unmoved (w_env w) (w_env w')" using neutral_call [OF start_neutral no_batch(2)] by (simp add: unmoved_def)
  have "left w' < left w" using no_batch(2) batch_faults(2) by (auto simp: call_def split: prod.splits)
  then show ?thesis unfolding no_batch(3) by (rule status_effect_unmoved [OF u call_log [OF no_batch(2)] _ assms(2)])
next
  case (ran w1 w2 z)
  have u: "unmoved (w_env w) (w_env w1)" using neutral_call [OF start_neutral ran(2)] by (simp add: unmoved_def)
  have "status_effect n res w1 w2"
    using reconcile_policy_status_step [OF ran(3)] unmoved_same(3) [OF u] assms(2) by simp
  then have "status_effect n res w w2"
    by (rule status_effect_quiet [OF _ u call_log [OF ran(2)] call_faults [OF ran(2) batch_faults(1)]])
  then show ?thesis
    by (rule status_effect_then_quiet [OF _ _ call_log [OF ran(4)] call_faults [OF ran(4) batch_faults(3)]])
      (use neutral_call [OF end_neutral ran(4)] in \<open>simp add: unmoved_def\<close>)
qed simp

section \<open>What a reconcile wakes\<close>

lemma change_cases:
  "change a b = Some pe \<longleftrightarrow>
     (case pe of
        PolCreated q \<Rightarrow> a = None \<and> b = Some q
      | PolUpdated p q \<Rightarrow> a = Some p \<and> b = Some q \<and> p \<noteq> q
      | PolDeleted p \<Rightarrow> a = Some p \<and> b = None)"
  by (cases a; cases b; cases pe) auto

lemma policy_changes_keys:
  assumes "rg_for reg = PolicyKind" and "rg_filter reg = (\<lambda>_. True)"
  shows "(\<Union>s \<in> policy_changes look cl w w'. deliver reg s) = {k. look cl k (w_env w') \<noteq> look cl k (w_env w)}"
proof (intro equalityI subsetI)
  fix k assume "k \<in> (\<Union>s \<in> policy_changes look cl w w'. deliver reg s)"
  then obtain pe k2 where c: "change (look cl k2 (w_env w)) (look cl k2 (w_env w')) = Some pe"
    "k = policy_nn (subject pe)"
    using assms by (auto simp: policy_changes_def deliver_policy)
  then have "k = k2" using look_nn by (cases pe) (auto simp: change_cases)
  then show "k \<in> {k. look cl k (w_env w') \<noteq> look cl k (w_env w)}"
    using c(1) by (cases pe) (auto simp: change_cases)
next
  fix k assume k: "k \<in> {k. look cl k (w_env w') \<noteq> look cl k (w_env w)}"
  then obtain pe where c: "change (look cl k (w_env w)) (look cl k (w_env w')) = Some pe"
    by (cases "look cl k (w_env w)"; cases "look cl k (w_env w')") auto
  then have "policy_nn (subject pe) = k" using look_nn by (cases pe) (auto simp: change_cases)
  then have "k \<in> deliver reg (OnPolicy pe)" using assms by (simp add: deliver_policy)
  then show "k \<in> (\<Union>s \<in> policy_changes look cl w w'. deliver reg s)"
    using c unfolding policy_changes_def by blast
qed

lemma source_keys:
  "src \<in> set (rg_sources reg) \<Longrightarrow> (\<Union>s \<in> {OnSource src k | k. Q k}. deliver reg s) = {k. Q k}"
  by (fastforce simp: deliver_source)

abbreviation wakes :: "'c world \<Rightarrow> 'c world \<Rightarrow> job set" where
  "wakes \<equiv> woken deliver concurrent look"

lemma wakes_iff:
  "SpecJob k \<in> wakes w w' \<longleftrightarrow> look Hub k (w_env w') \<noteq> look Hub k (w_env w) \<or> SpecSyncRequest k \<in> sent_between w w'"
  "StatusJob k \<in> wakes w w' \<longleftrightarrow>
     look Managed k (w_env w') \<noteq> look Managed k (w_env w) \<or> StatusSyncRequest k \<in> sent_between w w'"
proof -
  have "rg_for (spec_registration concurrent) = PolicyKind" "rg_filter (spec_registration concurrent) = (\<lambda>_. True)"
    "rg_sources (spec_registration concurrent) = [SpecSyncRequests]"
    "rg_for (status_registration concurrent) = PolicyKind" "rg_filter (status_registration concurrent) = (\<lambda>_. True)"
    "rg_sources (status_registration concurrent) = [StatusSyncRequests, StatusDepEvents]"
    by (simp_all add: setup_defs)
  note regs = this
  have "src \<in> set (rg_sources (spec_registration concurrent))" if "src = SpecSyncRequests" for src
    using that regs(3) by simp
  moreover have "src \<in> set (rg_sources (status_registration concurrent))" if "src = StatusSyncRequests" for src
    using that regs(6) by simp
  ultimately have "wakes w w' =
      SpecJob ` ({k. look Hub k (w_env w') \<noteq> look Hub k (w_env w)} \<union> {k. SpecSyncRequest k \<in> sent_between w w'}) \<union>
      StatusJob ` ({k. look Managed k (w_env w') \<noteq> look Managed k (w_env w)} \<union> {k. StatusSyncRequest k \<in> sent_between w w'})"
    unfolding woken_def UN_Un policy_changes_keys [OF regs(1,2)] policy_changes_keys [OF regs(4,5)]
    by (simp add: source_keys)
  then show "SpecJob k \<in> wakes w w' \<longleftrightarrow> look Hub k (w_env w') \<noteq> look Hub k (w_env w) \<or> SpecSyncRequest k \<in> sent_between w w'"
    and "StatusJob k \<in> wakes w w' \<longleftrightarrow>
      look Managed k (w_env w') \<noteq> look Managed k (w_env w) \<or> StatusSyncRequest k \<in> sent_between w w'" by auto
qed

end

end
