(* ===== verification/Convergence.thy ===== *)
theory Convergence
  imports SyncSystem
begin

text \<open>
  The potential of spec-sync and status-sync: every reconcile of the system brings it down, so that
  every run ends, and ends with every policy settled but those whose last reconcile of spec-sync ignored
  an error. The proof distinguishes, for each policy, whether the copies are apart, whether they agree
  with a status that is out of date, or whether they are at rest, which requests wait, and whether the
  policy was left behind by such a reconcile.
\<close>

context sync_system
begin

section \<open>What a reconcile does to its policy\<close>

definition statuses_differ :: "string \<Rightarrow> 'c \<Rightarrow> bool" where
  "statuses_differ n c \<longleftrightarrow>
     (\<exists>h m. look Hub (hkey n) c = Some h \<and> look Managed (mkey n) c = Some m \<and> p_status h \<noteq> p_status m)"

lemma unmoved_differ: "unmoved c c' \<Longrightarrow> statuses_differ n c' \<longleftrightarrow> statuses_differ n c"
  by (simp add: unmoved_def statuses_differ_def)

definition spec_effect :: "string \<Rightarrow> reconcile_result \<Rightarrow> 'c world \<Rightarrow> 'c world \<Rightarrow> bool" where
  "spec_effect n res w w' \<longleftrightarrow>
     (res = Done \<and> left w' \<le> left w \<or> (\<exists>e. res = Failed e) \<and> left w' < left w) \<and>
     (\<forall>cl k. (cl, k) \<noteq> (Managed, mkey n) \<longrightarrow> look cl k (w_env w') = look cl k (w_env w)) \<and>
     (\<forall>k. SpecSyncRequest k \<notin> sent_between w w') \<and> (\<forall>k. StatusSyncRequest k \<in> sent_between w w' \<longrightarrow> k = mkey n) \<and>
     proper n (w_env w') \<and>
     (res = Done \<longrightarrow> (agreed n (w_env w') \<longleftrightarrow> \<not> update_ignored papi r (hkey n) w)) \<and>
     (update_ignored papi r (hkey n) w \<longrightarrow> res = Done \<and> left w' < left w) \<and>
     (agreed n (w_env w) \<longrightarrow> unmoved (w_env w) (w_env w') \<and>
        (res = Done \<longrightarrow> (StatusSyncRequest (mkey n) \<in> sent_between w w' \<longleftrightarrow> statuses_differ n (w_env w))))"

lemma sent_log: "w_log w' = w_log w @ es \<Longrightarrow> sent_between w w' = set es"
  by (simp add: sent_between_def)

lemma spec_effect_step:
  assumes run: "Reconcile_spec False papi r (hkey n) w = (res, w')" and proper: "proper n (w_env w)"
  shows "spec_effect n res w w'"
proof -
  obtain h where h: "look Hub (hkey n) (w_env w) = Some h" "distinct (template_names lib (sp_templates (p_spec h)))"
    using proper by (auto simp: proper_def)
  note S = spec_reconcile_step [OF run h(1)]
  have frame: "look cl k (w_env w') = look cl k (w_env w)" if "(cl, k) \<noteq> (Managed, mkey n)" for cl k
    by (rule Reconcile_spec_look [OF run]) (use that in simp)
  obtain es where es: "w_log w' = w_log w @ es" "list_all (about_replica (mkey n)) es"
    using Reconcile_spec_log [OF run] by auto
  then have sent: "about_replica (mkey n) e" if "e \<in> sent_between w w'" for e
    using that sent_log [OF es(1)] by (simp add: list_all_iff)
  have "proper n (w_env w')"
  proof (cases "look Managed (mkey n) (w_env w)")
    case None
    then show ?thesis using S frame [of Hub "hkey n"] h by (auto simp: proper_def spec_copies_def)
  next
    case (Some m)
    then show ?thesis using S proper frame [of Hub "hkey n"] h by (auto simp: proper_def spec_copies_def)
  qed
  moreover have "unmoved (w_env w) (w_env w') \<and>
      (res = Done \<longrightarrow> (StatusSyncRequest (mkey n) \<in> sent_between w w' \<longleftrightarrow> statuses_differ n (w_env w)))"
    if agree: "agreed n (w_env w)"
  proof -
    obtain m where m: "look Managed (mkey n) (w_env w) = Some m" "EquivalentReplicatedPolicies h m"
      using agree h(1) by (auto simp: in_agreement_def split: option.splits)
    have "w_log w' = w_log w @ (if res = Done \<and> p_status h \<noteq> p_status m then [StatusSyncRequest (policy_nn m)] else [])"
      using Reconcile_spec_quiet [OF run h(1)] m by simp
    from sent_log [OF this] show ?thesis
      using S m look_nn [OF m(1)] h(1) by (simp add: unmoved_def statuses_differ_def spec_copies_def)
  qed
  moreover have "res = Done \<Longrightarrow> agreed n (w_env w') \<longleftrightarrow> \<not> update_ignored papi r (hkey n) w"
    using spec.step_agree run by simp
  moreover have "SpecSyncRequest k \<notin> sent_between w w'" "StatusSyncRequest k \<in> sent_between w w' \<longrightarrow> k = mkey n" for k
    using sent by fastforce+
  ultimately show ?thesis using S frame unfolding spec_effect_def by blast
qed

lemma status_effect_sent:
  assumes "Reconcile_status False lib papi eapi wapi sr (mkey n) w = (res, w')"
  shows "StatusSyncRequest k \<notin> sent_between w w'" and "SpecSyncRequest k \<in> sent_between w w' \<Longrightarrow> k = hkey n"
proof -
  obtain m h es where es: "w_log w' = w_log w @ es" "list_all (about_status sr (mkey n) m h) es"
    using Reconcile_status_log [OF assms] by blast
  have "about_status sr (mkey n) m h e" if "e \<in> sent_between w w'" for e
    using that es(2) sent_log [OF es(1)] by (simp add: list_all_iff)
  then show "StatusSyncRequest k \<notin> sent_between w w'" and "SpecSyncRequest k \<in> sent_between w w' \<Longrightarrow> k = hkey n"
    using sr(1) by (fastforce simp: hub_key_def)+
qed

section \<open>A policy that is not on the hub\<close>

lemma gone_at_rest: "look Hub (hkey n) c = None \<Longrightarrow> at_rest n c \<longleftrightarrow> agreed n c"
  by (simp add: settled_def in_agreement_def split: option.split)

definition gone_spec_effect :: "string \<Rightarrow> reconcile_result \<Rightarrow> 'c world \<Rightarrow> 'c world \<Rightarrow> bool" where
  "gone_spec_effect n res w w' \<longleftrightarrow>
     (res = Done \<and> left w' \<le> left w \<or> (\<exists>e. res = Failed e) \<and> left w' < left w \<and> unmoved (w_env w) (w_env w')) \<and>
     (\<forall>cl k. (cl, k) \<noteq> (Managed, mkey n) \<longrightarrow> look cl k (w_env w') = look cl k (w_env w)) \<and>
     (\<forall>k. SpecSyncRequest k \<notin> sent_between w w' \<and> StatusSyncRequest k \<notin> sent_between w w') \<and>
     (res = Done \<longrightarrow> agreed n (w_env w')) \<and>
     (agreed n (w_env w) \<longrightarrow> look Managed (mkey n) (w_env w') \<in> {look Managed (mkey n) (w_env w), None})"

lemma act_delete_faults:
  assumes "act eff (polDelete papi cl k) w = (d, w')"
  shows "left w' \<le> left w" and "d = Some e \<Longrightarrow> \<not> IsNotFound e \<Longrightarrow> left w' < left w"
  using assms delete_faults by (auto simp: act_def split: prod.splits)

lemma act_delete_again:
  assumes "act eff (polDelete papi Managed (mkey n)) w = (d, w')" and "agreed n (w_env w)"
    and "look Hub (hkey n) (w_env w) = None"
  shows "look Managed (mkey n) (w_env w') \<in> {look Managed (mkey n) (w_env w), None}"
proof -
  obtain c where "polDelete papi Managed (mkey n) (w_env w) = (d, c)" "w_env w' = c"
    using assms(1) by (auto simp: act_def split: prod.splits)
  then show ?thesis using delete_again assms(2,3) by (simp add: in_agreement_def)
qed

lemma gone_spec_step:
  assumes run: "Reconcile_spec False papi r (hkey n) w = (res, w')" and gone: "look Hub (hkey n) (w_env w) = None"
  shows "gone_spec_effect n res w w'"
proof -
  have m: "mkey n = nn (ss_targetNamespace r) (nn_name (hkey n))" by simp
  have found: False if "call (polGet papi Hub (hkey n)) w = (Inr h, w1)" for h w1
    using call_get(2) [OF that] gone by simp
  have frame: "look cl k (w_env w') = look cl k (w_env w)" if "(cl, k) \<noteq> (Managed, mkey n)" for cl k
    by (rule Reconcile_spec_look [OF run]) (use that in simp)
  have agree: "res = Done \<Longrightarrow> agreed n (w_env w')"
    using spec.step_agree run Reconcile_spec_gone(1) [OF run gone] by simp
  show ?thesis
    using run m
  proof (cases rule: Reconcile_spec_cases)
    case (hub_error e)
    then have "sent_between w w' = {}" using call_log [OF hub_error(2)] by (simp add: sent_between_def)
    then show ?thesis
      using call_get_fault [OF hub_error(2,3)] call_get(1) [OF hub_error(2)] hub_error(4)
      by (simp add: gone_spec_effect_def unmoved_def)
  next
    case del: (gone e w1 d)
    have same: "look cl k (w_env w1) = look cl k (w_env w)" for cl k using call_get(1) [OF del(2)] .
    then have u: "unmoved (w_env w) (w_env w1)" by (simp add: unmoved_def)
    have "sent_between w w' = {PolicyDelete Managed (mkey n)}"
      using call_log [OF del(2)] act_log [OF del(4)] by (simp add: sent_between_def)
    moreover have "look Managed (mkey n) (w_env w') \<in> {look Managed (mkey n) (w_env w), None}" if "agreed n (w_env w)"
      using act_delete_again [OF del(4)] that unmoved_same(1) [OF u] same gone by simp
    moreover have "left w' \<le> left w" "d = Some e' \<Longrightarrow> \<not> IsNotFound e' \<Longrightarrow> left w' < left w" for e'
      using act_delete_faults [OF del(4)] get_call_faults [OF del(2)] by fastforce+
    moreover have "d \<noteq> None \<Longrightarrow> unmoved (w_env w) (w_env w')"
      using act_delete(3) [OF del(4)] same by (simp add: unmoved_def)
    ultimately show ?thesis
      using del(5) frame agree by (cases d) (auto simp: gone_spec_effect_def split: if_splits)
  qed (use found in auto)
qed

lemma gone_status_step:
  assumes run: "Reconcile_status False lib papi eapi wapi sr (mkey n) w = (res, w')"
    and gone: "look Hub (hkey n) (w_env w) = None"
  shows "(res = Done \<and> left w' \<le> left w \<or> (\<exists>e. res = Failed e) \<and> left w' < left w) \<and> unmoved (w_env w) (w_env w') \<and>
    (res = Done \<longrightarrow> (SpecSyncRequest (hkey n) \<in> sent_between w w' \<longleftrightarrow> look Managed (mkey n) (w_env w) \<noteq> None))"
  using run
proof (cases rule: Reconcile_status_cases)
  case (no_batch e)
  have "left w' < left w" using no_batch(2) batch_faults(2) by (auto simp: call_def split: prod.splits)
  then show ?thesis using neutral_call [OF start_neutral no_batch(2)] no_batch(3) by (simp add: unmoved_def)
next
  case (ran w1 w2 z)
  have hk: "hub_key sr (mkey n) = hkey n" using sr(1) by (simp add: hub_key_def)
  have l1: "look cl k (w_env w1) = look cl k (w_env w)" for cl k using neutral_call [OF start_neutral ran(2)] .
  have l3: "look cl k (w_env w') = look cl k (w_env w2)" for cl k using neutral_call [OF end_neutral ran(4)] .
  have le: "left w1 \<le> left w" "left w' \<le> left w2"
    by (rule call_faults [OF ran(2) batch_faults(1)], assumption)
      (rule call_faults [OF ran(4) batch_faults(3)], assumption)
  have found: False if "getInstances papi sr (mkey n) w1 = (Inr (Some m, hi), w2')" for m hi w2'
    using getInstances_found(3,4) [OF that] gone l1 hk sr(3) by simp
  from ran(3) show ?thesis
  proof (cases rule: reconcile_policy_status_cases)
    case (fetch_error e)
    then show ?thesis
      using getInstances_step [OF fetch_error(1)] le getInstances_frame [OF fetch_error(1)] l1 l3
      by (simp add: unmoved_def)
  next
    case (no_work hi)
    obtain es where es: "instances_spec sr (mkey n) (look Managed (mkey n) (w_env w)) None = (None, hi, es)"
      "w_log w2 = w_log w1 @ es"
      using getInstances_Inr [OF no_work(1)] gone l1 hk by auto
    have "w_log w' = w_log w @ es" using es(2) call_log [OF ran(2)] call_log [OF ran(4)] by simp
    from sent_log [OF this] have sent: "sent_between w w' = set es" .
    have "es = (if look Managed (mkey n) (w_env w) = None then [] else [SpecSyncRequest (hkey n)])"
      using es(1) sr(2,3) hk
      by (cases "look Managed (mkey n) (w_env w)") (simp_all add: instances_spec_def spec_requests_def)
    then have "SpecSyncRequest (hkey n) \<in> sent_between w w' \<longleftrightarrow> look Managed (mkey n) (w_env w) \<noteq> None"
      unfolding sent by simp
    moreover have "left w' \<le> left w" using getInstances_step [OF no_work(1)] le by simp
    moreover have "unmoved (w_env w) (w_env w')"
      using getInstances_frame [OF no_work(1)] l1 l3 by (simp add: unmoved_def)
    ultimately show ?thesis using no_work(2) by simp
  next
    case (no_details m hi w1' x)
    then show ?thesis using found [OF no_details(1)] by blast
  next
    case (written m hi w1' details w2' x)
    then show ?thesis using found [OF written(1)] by blast
  qed
qed simp

section \<open>The potential of a policy\<close>

abbreviation spec_waits :: "string \<Rightarrow> job set \<Rightarrow> bool" where
  "spec_waits n K \<equiv> SpecJob (hkey n) \<in> K"

abbreviation status_waits :: "string \<Rightarrow> job set \<Rightarrow> bool" where
  "status_waits n K \<equiv> StatusJob (mkey n) \<in> K"

definition weight :: "string \<Rightarrow> job set \<Rightarrow> 'c \<Rightarrow> nat" where
  "weight n K c =
     (if \<not> agreed n c then 10 + of_bool (spec_waits n K) + 2 * of_bool (status_waits n K)
      else if \<not> at_rest n c then 5 + 2 * of_bool (spec_waits n K) + of_bool (status_waits n K)
      else if look Hub (hkey n) c = None \<and> look Managed (mkey n) c \<noteq> None
      then 4 + of_bool (spec_waits n K) + 2 * of_bool (status_waits n K)
      else of_bool (spec_waits n K) + of_bool (status_waits n K))"

lemma weight_le: "weight n K c \<le> 13"
  by (simp add: weight_def)

text \<open>Whenever a policy is not at rest, a request waits that will move it on.\<close>

definition attended :: "string \<Rightarrow> job set \<Rightarrow> 'c \<Rightarrow> bool" where
  "attended n K c \<longleftrightarrow>
     (\<not> agreed n c \<longrightarrow> spec_waits n K \<or> status_waits n K) \<and>
     (agreed n c \<and> \<not> at_rest n c \<longrightarrow> status_waits n K \<or> spec_waits n K \<and> statuses_differ n c)"

text \<open>A policy that was left behind is apart, and no other is unattended.\<close>

definition watched :: "string \<Rightarrow> job set \<Rightarrow> 'c \<Rightarrow> bool \<Rightarrow> bool" where
  "watched n K c behind \<longleftrightarrow> (behind \<longrightarrow> \<not> agreed n c) \<and> (behind \<or> attended n K c)"

text \<open>The queue after a reconcile of the job \<open>j\<close>.\<close>

abbreviation requeue :: "job \<Rightarrow> reconcile_result \<Rightarrow> job set \<Rightarrow> 'c world \<Rightarrow> 'c world \<Rightarrow> job set" where
  "requeue j res K w w' \<equiv> (if res = Done then K - {j} else K) \<union> wakes w w'"

lemma spec_effect_unmoved:
  assumes "spec_effect n res w w'" and "look Managed (mkey n) (w_env w') = look Managed (mkey n) (w_env w)"
  shows "unmoved (w_env w) (w_env w')"
proof (unfold unmoved_def, intro allI)
  fix cl k
  have "(cl, k) \<noteq> (Managed, mkey n) \<Longrightarrow> look cl k (w_env w') = look cl k (w_env w)"
    using assms(1) unfolding spec_effect_def by blast
  with assms(2) show "look cl k (w_env w') = look cl k (w_env w)" by (cases "(cl, k) = (Managed, mkey n)") simp_all
qed

lemma at_rest_statuses: "at_rest n s \<Longrightarrow> \<not> statuses_differ n s"
  by (auto simp: settled_def statuses_differ_def split: option.splits)

lemma spec_progress:
  assumes e: "spec_effect n res w w'" and "spec_waits n K" and a: "watched n K (w_env w) b" and "proper n (w_env w)"
  defines "K' \<equiv> requeue (SpecJob (hkey n)) res K w w'"
  shows "watched n K' (w_env w') (update_ignored papi r (hkey n) w) \<and>
    14 * left w' + weight n K' (w_env w') < 14 * left w + weight n K (w_env w)"
proof -
  have sw: "spec_waits n K' \<longleftrightarrow> res \<noteq> Done"
    using e assms(2) unfolding K'_def spec_effect_def by (auto simp: wakes_iff)
  have tw: "status_waits n K' \<longleftrightarrow> status_waits n K \<or>
      look Managed (mkey n) (w_env w') \<noteq> look Managed (mkey n) (w_env w) \<or> StatusSyncRequest (mkey n) \<in> sent_between w w'"
    unfolding K'_def by (auto simp: wakes_iff)
  have proper': "proper n (w_env w')" using e unfolding spec_effect_def by blast
  have hub: "look Hub (hkey n) (w_env w) \<noteq> None" "look Hub (hkey n) (w_env w') \<noteq> None"
    using proper' assms(4) by (auto simp: proper_def)
  note same = spec_effect_unmoved [OF e]
  consider (ignored) "update_ignored papi r (hkey n) w" | (failed) "res \<noteq> Done" "\<not> update_ignored papi r (hkey n) w"
    | (ended) "res = Done" "\<not> update_ignored papi r (hkey n) w" by blast
  then show ?thesis
  proof cases
    case ignored
    then have "left w' < left w" "\<not> agreed n (w_env w')" using e by (auto simp: spec_effect_def)
    then show ?thesis using ignored weight_le [of n K' "w_env w'"] by (simp add: watched_def)
  next
    case failed
    then have less: "left w' < left w" using e by (auto simp: spec_effect_def)
    have "attended n K' (w_env w')"
    proof (cases "unmoved (w_env w) (w_env w')")
      case True
      then show ?thesis
        using a sw tw failed unmoved_same [OF True] unmoved_differ [OF True] by (auto simp: attended_def watched_def)
    next
      case False
      then show ?thesis using sw tw failed same by (auto simp: attended_def)
    qed
    then show ?thesis using less failed weight_le [of n K' "w_env w'"] by (simp add: watched_def)
  next
    case ended
    then have d: "agreed n (w_env w')" "left w' \<le> left w" "\<not> spec_waits n K'"
      using e sw by (auto simp: spec_effect_def)
    show ?thesis
    proof (cases "agreed n (w_env w)")
      case False
      then have "status_waits n K'" using d(1) tw same unmoved_same(1) by blast
      then show ?thesis using d ended False assms(2) hub by (auto simp: attended_def watched_def weight_def)
    next
      case agree: True
      then have u: "unmoved (w_env w) (w_env w')"
        and r: "StatusSyncRequest (mkey n) \<in> sent_between w w' \<longleftrightarrow> statuses_differ n (w_env w)"
        using e ended by (auto simp: spec_effect_def)
      have tw': "status_waits n K' \<longleftrightarrow> status_waits n K \<or> statuses_differ n (w_env w)"
        using tw r u by (simp add: unmoved_def)
      then show ?thesis
        using d ended agree a assms(2) hub unmoved_same [OF u] at_rest_statuses [where n = n and s = "w_env w"]
        by (auto simp: attended_def watched_def weight_def)
    qed
  qed
qed

lemma status_progress:
  assumes e: "status_effect n res w w'"
    and s: "\<And>k. StatusSyncRequest k \<notin> sent_between w w'" "\<And>k. SpecSyncRequest k \<in> sent_between w w' \<Longrightarrow> k = hkey n"
    and "status_waits n K" and a: "watched n K (w_env w) b" and "proper n (w_env w)"
  defines "K' \<equiv> requeue (StatusJob (mkey n)) res K w w'"
  shows "watched n K' (w_env w') b \<and>
    14 * left w' + weight n K' (w_env w') < 14 * left w + weight n K (w_env w)"
proof -
  have sw: "spec_waits n K' \<longleftrightarrow> spec_waits n K \<or> look Hub (hkey n) (w_env w') \<noteq> look Hub (hkey n) (w_env w) \<or>
      SpecSyncRequest (hkey n) \<in> sent_between w w'"
    unfolding K'_def by (auto simp: wakes_iff)
  have tw: "status_waits n K' \<longleftrightarrow> res \<noteq> Done \<or> look Managed (mkey n) (w_env w') \<noteq> look Managed (mkey n) (w_env w)"
    using s(1) assms(4) unfolding K'_def by (auto simp: wakes_iff)
  have agree: "agreed n (w_env w') \<longleftrightarrow> agreed n (w_env w)" using e by (simp add: status_effect_def)
  have hub: "look Hub (hkey n) (w_env w) \<noteq> None" "look Hub (hkey n) (w_env w') \<noteq> None"
    using e assms(6) by (auto simp: status_effect_def proper_def)
  show ?thesis
  proof (cases "res = Done")
    case False
    then have less: "left w' < left w" using e by (auto simp: status_effect_def)
    moreover have "watched n K' (w_env w') b" using tw False a agree by (simp add: attended_def watched_def)
    ultimately show ?thesis using weight_le [of n K' "w_env w'"] by linarith
  next
    case True
    then have le: "left w' \<le> left w" using e by (auto simp: status_effect_def)
    consider (apart) "\<not> agreed n (w_env w)" | (rest) "at_rest n (w_env w)"
      | (stale) "agreed n (w_env w)" "\<not> at_rest n (w_env w)" by blast
    then show ?thesis
    proof cases
      case apart
      then have u: "unmoved (w_env w) (w_env w')" and l: "w_log w' = w_log w @ [SpecSyncRequest (hkey n)]"
        using e True by (auto simp: status_effect_def)
      have "spec_waits n K'" "\<not> status_waits n K'"
        using sw tw True u sent_log [OF l] by (auto simp: unmoved_def)
      then show ?thesis using apart agree assms(4) le by (simp add: attended_def watched_def weight_def)
    next
      case rest
      then have u: "unmoved (w_env w) (w_env w')" and l: "w_log w' = w_log w @ []"
        using e by (auto simp: status_effect_def)
      have "spec_waits n K' \<longleftrightarrow> spec_waits n K" "\<not> status_waits n K'"
        using sw tw True u sent_log [OF l] by (auto simp: unmoved_def)
      then show ?thesis
        using rest a agree assms(4) le hub unmoved_same [OF u] at_rest_agreed [OF rest]
        by (auto simp: attended_def watched_def weight_def)
    next
      case stale
      then have "at_rest n (w_env w')" using e True by (simp add: status_effect_def)
      then show ?thesis using stale a agree assms(4) le hub by (auto simp: attended_def watched_def weight_def)
    qed
  qed
qed

lemma gone_spec_progress:
  assumes e: "gone_spec_effect n res w w'" and "spec_waits n K"
    and gone: "look Hub (hkey n) (w_env w) = None"
  defines "K' \<equiv> requeue (SpecJob (hkey n)) res K w w'"
  shows "attended n K' (w_env w') \<and>
    14 * left w' + weight n K' (w_env w') < 14 * left w + weight n K (w_env w)"
proof -
  have hub: "look Hub (hkey n) (w_env w') = None" using e gone by (simp add: gone_spec_effect_def)
  have sw: "spec_waits n K' \<longleftrightarrow> res \<noteq> Done"
    using e assms(2) unfolding K'_def gone_spec_effect_def by (auto simp: wakes_iff)
  have tw: "status_waits n K' \<longleftrightarrow> status_waits n K \<or> look Managed (mkey n) (w_env w') \<noteq> look Managed (mkey n) (w_env w)"
    using e unfolding K'_def gone_spec_effect_def by (auto simp: wakes_iff)
  show ?thesis
  proof (cases "res = Done")
    case False
    then have "left w' < left w" "unmoved (w_env w) (w_env w')" using e by (auto simp: gone_spec_effect_def)
    moreover have "attended n K' (w_env w')"
      using sw False gone_at_rest [OF hub] by (auto simp: attended_def)
    ultimately show ?thesis using weight_le [of n K' "w_env w'"] by linarith
  next
    case True
    then have d: "agreed n (w_env w')" "left w' \<le> left w" "\<not> spec_waits n K'"
      using e sw by (auto simp: gone_spec_effect_def)
    have "agreed n (w_env w) \<Longrightarrow> look Managed (mkey n) (w_env w') \<in> {look Managed (mkey n) (w_env w), None}"
      using e by (simp add: gone_spec_effect_def)
    then show ?thesis
      using d assms(2) tw hub gone by (auto simp: attended_def weight_def gone_at_rest)
  qed
qed

lemma gone_status_progress:
  assumes r: "Reconcile_status False lib papi eapi wapi sr (mkey n) w = (res, w')"
    and "status_waits n K" and a: "watched n K (w_env w) b" and gone: "look Hub (hkey n) (w_env w) = None"
  defines "K' \<equiv> requeue (StatusJob (mkey n)) res K w w'"
  shows "watched n K' (w_env w') b \<and>
    14 * left w' + weight n K' (w_env w') < 14 * left w + weight n K (w_env w)"
proof -
  note S = gone_status_step [OF r gone]
  have u: "unmoved (w_env w) (w_env w')" using S by blast
  then have same: "look cl k (w_env w') = look cl k (w_env w)" for cl k by (simp add: unmoved_def)
  have sw: "spec_waits n K' \<longleftrightarrow> spec_waits n K \<or> SpecSyncRequest (hkey n) \<in> sent_between w w'"
    unfolding K'_def by (auto simp: wakes_iff same)
  have tw: "status_waits n K' \<longleftrightarrow> res \<noteq> Done"
    using assms(2) status_effect_sent(1) [OF r] unfolding K'_def by (auto simp: wakes_iff same)
  show ?thesis
  proof (cases "res = Done")
    case False
    then have "left w' < left w" using S by blast
    moreover have "watched n K' (w_env w') b"
      using a tw False gone_at_rest [OF gone] unmoved_same [OF u] by (auto simp: attended_def watched_def)
    ultimately show ?thesis using weight_le [of n K' "w_env w'"] by linarith
  next
    case True
    then have "spec_waits n K' \<longleftrightarrow> spec_waits n K \<or> look Managed (mkey n) (w_env w) \<noteq> None" "left w' \<le> left w"
      using S sw by auto
    moreover have "\<not> agreed n (w_env w) \<Longrightarrow> look Managed (mkey n) (w_env w) \<noteq> None"
      using gone by (auto simp: in_agreement_def split: option.splits)
    ultimately show ?thesis
      using True a tw assms(2) same gone unmoved_same [OF u] gone_at_rest [OF gone]
      by (auto simp: attended_def watched_def weight_def)
  qed
qed

section \<open>The potential of the system\<close>

text \<open>A reconcile for one policy does not touch the others.\<close>

definition about :: "string \<Rightarrow> 'c world \<Rightarrow> 'c world \<Rightarrow> bool" where
  "about n w w' \<longleftrightarrow>
     (\<forall>cl k. (cl, k) \<notin> {(Hub, hkey n), (Managed, mkey n)} \<longrightarrow> look cl k (w_env w') = look cl k (w_env w)) \<and>
     wakes w w' \<subseteq> {SpecJob (hkey n), StatusJob (mkey n)}"

lemma job_cases_subset: "(\<And>k. SpecJob k \<in> J \<Longrightarrow> k = a) \<Longrightarrow> (\<And>k. StatusJob k \<in> J \<Longrightarrow> k = b) \<Longrightarrow> J \<subseteq> {SpecJob a, StatusJob b}"
  by (metis insertCI job.exhaust subsetI)

lemma spec_about: "spec_effect n res w w' \<Longrightarrow> about n w w'"
  unfolding about_def by (intro conjI job_cases_subset) (auto simp: spec_effect_def wakes_iff)

lemma gone_spec_about: "gone_spec_effect n res w w' \<Longrightarrow> about n w w'"
  unfolding about_def by (intro conjI job_cases_subset) (auto simp: gone_spec_effect_def wakes_iff)

lemma unmoved_about:
  assumes "unmoved (w_env w) (w_env w')" and "\<And>k. StatusSyncRequest k \<notin> sent_between w w'"
    and "\<And>k. SpecSyncRequest k \<in> sent_between w w' \<Longrightarrow> k = hkey n"
  shows "about n w w'"
  unfolding about_def by (intro conjI job_cases_subset) (use assms in \<open>auto simp: unmoved_def wakes_iff\<close>)

lemma status_about:
  assumes "status_effect n res w w'" and "\<And>k. StatusSyncRequest k \<notin> sent_between w w'"
    and "\<And>k. SpecSyncRequest k \<in> sent_between w w' \<Longrightarrow> k = hkey n"
  shows "about n w w'"
  unfolding about_def by (intro conjI job_cases_subset) (use assms in \<open>auto simp: status_effect_def wakes_iff\<close>)

lemma about_others:
  assumes "about n w w'" and "n' \<noteq> n"
  shows "ready lib P look r hubNamespace (w_env w') n' \<longleftrightarrow> ready lib P look r hubNamespace (w_env w) n'"
    and "agreed n' (w_env w') \<longleftrightarrow> agreed n' (w_env w)"
    and "at_rest n' (w_env w') \<longleftrightarrow> at_rest n' (w_env w)"
    and "statuses_differ n' (w_env w') \<longleftrightarrow> statuses_differ n' (w_env w)"
    and "SpecJob (hkey n') \<notin> wakes w w'" and "StatusJob (mkey n') \<notin> wakes w w'"
    and "look Hub (hkey n') (w_env w') = look Hub (hkey n') (w_env w)"
    and "look Managed (mkey n') (w_env w') = look Managed (mkey n') (w_env w)"
proof -
  have l: "look Hub (hkey n') (w_env w') = look Hub (hkey n') (w_env w)"
    "look Managed (mkey n') (w_env w') = look Managed (mkey n') (w_env w)"
    using assms by (auto simp: about_def)
  then show "ready lib P look r hubNamespace (w_env w') n' \<longleftrightarrow> ready lib P look r hubNamespace (w_env w) n'"
    and "agreed n' (w_env w') \<longleftrightarrow> agreed n' (w_env w)"
    and "at_rest n' (w_env w') \<longleftrightarrow> at_rest n' (w_env w)"
    and "statuses_differ n' (w_env w') \<longleftrightarrow> statuses_differ n' (w_env w)"
    by (simp_all add: ready_def in_agreement_def settled_def statuses_differ_def split: option.split)
  show "look Hub (hkey n') (w_env w') = look Hub (hkey n') (w_env w)"
    "look Managed (mkey n') (w_env w') = look Managed (mkey n') (w_env w)" by (fact l)+
  show "SpecJob (hkey n') \<notin> wakes w w'" and "StatusJob (mkey n') \<notin> wakes w w'"
    using assms by (auto simp: about_def)
qed

abbreviation job_run :: "job \<Rightarrow> 'c world \<Rightarrow> reconcile_result \<times> 'c world" where
  "job_run \<equiv> run_job lib papi eapi wapi r sr"

lemma job_progress:
  assumes run: "job_run j w = (res, w')" and j: "j \<in> K" "j \<in> {SpecJob (hkey n), StatusJob (mkey n)}"
    and ready: "ready lib P look r hubNamespace (w_env w) n"
    and a: "watched n K (w_env w) (last_ignored papi r (hkey n) tr)"
  shows "about n w w' \<and> ready lib P look r hubNamespace (w_env w') n \<and>
    watched n (requeue j res K w w') (w_env w') (last_ignored papi r (hkey n) ((j, w) # tr)) \<and>
    14 * left w' + weight n (requeue j res K w w') (w_env w') < 14 * left w + weight n K (w_env w)"
proof -
  consider (spec) "j = SpecJob (hkey n)" "Reconcile_spec False papi r (hkey n) w = (res, w')"
    | (status) "j = StatusJob (mkey n)" "Reconcile_status False lib papi eapi wapi sr (mkey n) w = (res, w')"
    using run j(2) by (auto simp: run_job_def)
  then show ?thesis
  proof cases
    case spec
    show ?thesis
    proof (cases "look Hub (hkey n) (w_env w)")
      case None
      note e = gone_spec_step [OF spec(2) None]
      then have "ready lib P look r hubNamespace (w_env w') n" using None by (simp add: gone_spec_effect_def ready_iff)
      then show ?thesis
        using gone_spec_about [OF e] gone_spec_progress [OF e, of K] Reconcile_spec_gone(1) [OF spec(2) None] j(1) None
        unfolding spec(1) by (simp add: watched_def)
    next
      case Some
      then have p: "proper n (w_env w)" using ready by (simp add: ready_iff)
      note e = spec_effect_step [OF spec(2) p]
      then have "ready lib P look r hubNamespace (w_env w') n" by (simp add: spec_effect_def ready_iff)
      then show ?thesis
        using spec_about [OF e] spec_progress [OF e, of K] j(1) a p unfolding spec(1) by simp
    qed
  next
    case status
    note s = status_effect_sent [OF status(2)]
    show ?thesis
    proof (cases "look Hub (hkey n) (w_env w)")
      case None
      then have u: "unmoved (w_env w) (w_env w')" using gone_status_step [OF status(2)] by blast
      then have "ready lib P look r hubNamespace (w_env w') n" using None by (simp add: unmoved_def ready_iff)
      then show ?thesis
        using unmoved_about [OF u s] gone_status_progress [OF status(2), of K] j(1) a None
        unfolding status(1) by simp
    next
      case Some
      then have p: "proper n (w_env w)" using ready by (simp add: ready_iff)
      note e = status_reconcile_step [OF status(2) p]
      then have "ready lib P look r hubNamespace (w_env w') n" by (simp add: status_effect_def ready_iff)
      then show ?thesis using status_about [OF e s] status_progress [OF e s, of K] j(1) a p
        unfolding status(1) by simp
    qed
  qed
qed

definition in_order :: "string list \<Rightarrow> (job \<times> 'c world) list \<Rightarrow> job set \<times> 'c world \<Rightarrow> bool" where
  "in_order names tr s \<longleftrightarrow> (case s of (K, w) \<Rightarrow> K \<subseteq> all_jobs r hubNamespace names \<and>
     (\<forall>n\<in>set names. ready lib P look r hubNamespace (w_env w) n \<and>
        watched n K (w_env w) (last_ignored papi r (hkey n) tr)))"

definition remaining :: "string list \<Rightarrow> job set \<times> 'c world \<Rightarrow> nat" where
  "remaining names s = (case s of (K, w) \<Rightarrow> 14 * left w + (\<Sum>n\<in>set names. weight n K (w_env w)))"

lemma system_step:
  assumes i: "in_order names tr (K, w)" and step: "queue_step job_run wakes j (K, w) s'"
  shows "in_order names ((j, w) # tr) s' \<and> remaining names s' < remaining names (K, w)"
  using step
proof cases
  case (work res w')
  let ?K = "requeue j res K w w'"
  let ?behind = "\<lambda>n. last_ignored papi r (hkey n) ((j, w) # tr)"
  have K: "K \<subseteq> all_jobs r hubNamespace names"
    "\<forall>n\<in>set names. ready lib P look r hubNamespace (w_env w) n \<and> watched n K (w_env w) (last_ignored papi r (hkey n) tr)"
    using i by (auto simp: in_order_def)
  obtain n where n: "n \<in> set names" "j \<in> {SpecJob (hkey n), StatusJob (mkey n)}"
    using K(1) work(2) unfolding all_jobs_def by blast
  have p: "about n w w'" "ready lib P look r hubNamespace (w_env w') n" "watched n ?K (w_env w') (?behind n)"
    "14 * left w' + weight n ?K (w_env w') < 14 * left w + weight n K (w_env w)"
    using job_progress [OF work(3,2) n(2)] K(2) n(1) by blast+
  have waits: "SpecJob (hkey n') \<in> ?K \<longleftrightarrow> SpecJob (hkey n') \<in> K"
    "StatusJob (mkey n') \<in> ?K \<longleftrightarrow> StatusJob (mkey n') \<in> K"
    "?behind n' = last_ignored papi r (hkey n') tr" if "n' \<noteq> n" for n'
    using about_others(5,6) [OF p(1) that] n(2) that by auto
  have "ready lib P look r hubNamespace (w_env w') n' \<and> watched n' ?K (w_env w') (?behind n')"
    if n': "n' \<in> set names" for n'
  proof (cases "n' = n")
    case False
    then show ?thesis
      using K(2) n' waits [OF False] about_others(1-4) [OF p(1) False] by (simp add: attended_def watched_def)
  qed (use p(2,3) in simp)
  moreover have "?K \<subseteq> all_jobs r hubNamespace names"
  proof -
    have "wakes w w' \<subseteq> all_jobs r hubNamespace names" using p(1) n(1) by (auto simp: about_def all_jobs_def)
    then show ?thesis using K(1) by auto
  qed
  ultimately have "in_order names ((j, w) # tr) s'" using work(1) unfolding in_order_def by blast
  moreover have "weight n' ?K (w_env w') = weight n' K (w_env w)" if "n' \<noteq> n" for n'
    using waits(1,2) [OF that] about_others(2,3,7,8) [OF p(1) that] by (simp add: weight_def)
  then have "(\<Sum>n'\<in>set names - {n}. weight n' ?K (w_env w')) = (\<Sum>n'\<in>set names - {n}. weight n' K (w_env w))"
    by (intro sum.cong) auto
  then have "remaining names s' < remaining names (K, w)"
    using p(4) n(1) work(1) unfolding remaining_def by (simp add: sum.remove [of "set names" n])
  ultimately show ?thesis by blast
qed

end

sublocale sync_system \<subseteq> draining: draining_queue
  "run_job lib papi eapi wapi r sr" "woken deliver concurrent look" "in_order names" "remaining names" for names
  using system_step by unfold_locales blast+

context sync_system
begin

lemma start_in_order:
  "\<forall>n\<in>set names. ready lib P look r hubNamespace (w_env w) n \<Longrightarrow>
     in_order names [] (all_jobs r hubNamespace names, w)"
  by (auto simp: in_order_def watched_def attended_def all_jobs_def)

lemma system_drains:
  "\<forall>n\<in>set names. ready lib P look r hubNamespace (w_env w) n \<Longrightarrow>
     \<exists>tr w'. queue_run job_run wakes tr (all_jobs r hubNamespace names, w) ({}, w')"
  by (rule draining.drains [OF start_in_order])

lemma system_settles:
  assumes run: "queue_run job_run wakes tr (all_jobs r hubNamespace names, w) (K, w')"
    and ready: "\<forall>n\<in>set names. ready lib P look r hubNamespace (w_env w) n"
  shows "length tr \<le> 14 * left w + 13 * length names"
    and "K = {} \<Longrightarrow> n \<in> set names \<Longrightarrow> at_rest n (w_env w') \<longleftrightarrow> \<not> last_ignored papi r (hkey n) tr"
proof -
  from draining.run_bounded [OF run start_in_order [OF ready]]
  have i: "in_order names tr (K, w')"
    and k: "length tr + remaining names (K, w') \<le> remaining names (all_jobs r hubNamespace names, w)" by auto
  have "(\<Sum>n\<in>set names. weight n (all_jobs r hubNamespace names) (w_env w)) \<le> 13 * card (set names)"
    using sum_bounded_above [of "set names" "\<lambda>n. weight n (all_jobs r hubNamespace names) (w_env w)" 13] weight_le by simp
  also have "\<dots> \<le> 13 * length names" by (simp add: card_length)
  finally show "length tr \<le> 14 * left w + 13 * length names" using k by (simp add: remaining_def)
  show "at_rest n (w_env w') \<longleftrightarrow> \<not> last_ignored papi r (hkey n) tr" if "K = {}" "n \<in> set names"
    using i that at_rest_agreed by (auto simp: in_order_def watched_def attended_def)
qed

end

section \<open>Clusters that fail now and then\<close>

text \<open>The in-memory store behind an unreliable connection: a plan says which of the next calls fail, the
  updates of the managed copy included. A created policy starts without a status, as the status is a
  subresource.\<close>

record flaky =
  fk_mem :: mem
  fk_plan :: "bool list"

definition unavailable :: gerr where
  "unavailable = GErr OtherReason ''unavailable''"

definition steady :: "(mem \<Rightarrow> 'r \<times> mem) \<Rightarrow> flaky \<Rightarrow> 'r \<times> flaky" where
  "steady f c = (case f (fk_mem c) of (x, m) \<Rightarrow> (x, c\<lparr>fk_mem := m\<rparr>))"

definition unsteady :: "'r \<Rightarrow> (mem \<Rightarrow> 'r \<times> mem) \<Rightarrow> flaky \<Rightarrow> 'r \<times> flaky" where
  "unsteady failure f c =
     (case fk_plan c of
        [] \<Rightarrow> steady f c
      | b # bs \<Rightarrow> if b then (failure, c\<lparr>fk_plan := bs\<rparr>) else steady f (c\<lparr>fk_plan := bs\<rparr>))"

definition no_status :: policy_status where
  "no_status = \<lparr>s_placement = [], s_clusters = [], s_compliance = [], s_details = []\<rparr>"

definition flaky_papi :: "flaky policy_api" where
  "flaky_papi = \<lparr>polGet = \<lambda>cl k. unsteady (Inl unavailable) (mem_get cl k),
     polCreate = \<lambda>cl p. unsteady (Inl unavailable) (mem_create cl (p\<lparr>p_status := no_status\<rparr>)),
     polUpdate = \<lambda>cl p. unsteady (Inl unavailable) (mem_update cl p),
     polStatusUpdate = \<lambda>cl p. unsteady (Inl unavailable) (mem_status cl p),
     polDelete = \<lambda>cl k. unsteady (Some unavailable) (mem_delete cl k)\<rparr>"

definition flaky_look :: "flaky policy_lookup" where
  "flaky_look cl k c = mem_look cl k (fk_mem c)"

definition flaky_eapi :: "(string \<Rightarrow> kevent list) \<Rightarrow> flaky event_api" where
  "flaky_eapi evs = \<lparr>evList = \<lambda>ns. unsteady (Inl unavailable) (\<lambda>m. (Inr (evs ns), m)),
     evCreate = \<lambda>_. steady (\<lambda>m. (None, m)), clockNow = steady (\<lambda>m. (0, m))\<rparr>"

definition flaky_wapi :: "template_objects \<Rightarrow> flaky watch_api" where
  "flaky_wapi T = \<lparr>wStart = \<lambda>_. unsteady (Some unavailable) (\<lambda>m. (None, m)),
     wEnd = \<lambda>_. steady (\<lambda>m. (None, m)),
     wGet = \<lambda>oid g ns n. unsteady (None, Some unavailable) (\<lambda>m. ((T oid g ns n, None), m)),
     wSet = \<lambda>_ _. steady (\<lambda>m. (None, m)), wRemove = \<lambda>_. steady (\<lambda>m. (None, m))\<rparr>"

definition fault_count :: "flaky \<Rightarrow> nat" where
  "fault_count c = length (filter (\<lambda>b. b) (fk_plan c))"

lemma steady_cases:
  "steady f c = (x, c') \<Longrightarrow> (x, fk_mem c') = f (fk_mem c) \<and> fault_count c' = fault_count c"
  by (auto simp: steady_def fault_count_def split: prod.splits)

lemma unsteady_cases:
  assumes "unsteady failure f c = (x, c')"
  obtains (failed) "x = failure" "fk_mem c' = fk_mem c" "fault_count c' < fault_count c"
  | (worked) "(x, fk_mem c') = f (fk_mem c)" "fault_count c' \<le> fault_count c"
proof (cases "fk_plan c")
  case Nil
  then show thesis using assms worked steady_cases [of f c x c'] by (simp add: unsteady_def)
next
  case (Cons b bs)
  then have le: "fault_count (c\<lparr>fk_plan := bs\<rparr>) \<le> fault_count c"
    "b \<Longrightarrow> fault_count (c\<lparr>fk_plan := bs\<rparr>) < fault_count c" by (simp_all add: fault_count_def)
  show thesis
  proof (cases b)
    case True
    then show thesis using assms Cons le failed by (auto simp: unsteady_def)
  next
    case False
    then have "steady f (c\<lparr>fk_plan := bs\<rparr>) = (x, c')" using assms Cons by (simp add: unsteady_def)
    from steady_cases [OF this] le(1) show thesis by (intro worked) simp_all
  qed
qed

lemma not_found_unavailable [simp]: "\<not> IsNotFound unavailable"
  by (simp add: IsNotFound_def unavailable_def)

lemma flaky_look_mem: "fk_mem c' = fk_mem c \<Longrightarrow> flaky_look cl k c' = flaky_look cl k c"
  by (simp add: flaky_look_def)

lemmas flaky_defs = flaky_papi_def flaky_eapi_def flaky_wapi_def

interpretation flaky_store: policy_store flaky_papi flaky_look
  by unfold_locales
    (auto simp: flaky_defs mem_defs flaky_look_def mem_look_nn same_object_def unavailable_def
      split: option.splits if_splits elim!: unsteady_cases dest!: steady_cases)

text \<open>One event of the policy, and no objects of templates.\<close>

definition sample_compliance :: kevent where
  "sample_compliance = compliance_event \<lparr>es_clusterNamespace = ''managed'', es_instanceName = ''host'',
     es_controllerName = ''ctl''\<rparr> None sample_owner (EventReason ''managed'' (template_default_name 0)) ''bad''
     NonCompliant 4000000000"

abbreviation sample_evs :: "string \<Rightarrow> kevent list" where
  "sample_evs \<equiv> \<lambda>ns. if ns = ''managed'' then [sample_compliance] else []"

abbreviation no_objects :: template_objects where
  "no_objects \<equiv> \<lambda>_ _ _ _. None"

abbreviation sample_entries :: "history set" where
  "sample_entries \<equiv> {precise (history_of_event sample_compliance)}"

lemma sample_known: "known sample_entries (history_of_event sample_compliance)"
proof -
  have "time_survives (history_of_event sample_compliance)" by code_simp
  then show ?thesis by (simp add: known_def)
qed

lemma unsteady_neutral: "(\<And>m. snd (f m) = m) \<Longrightarrow> neutral flaky_look (unsteady failure f)"
  by (auto simp: neutral_def flaky_look_def unsteady_def steady_def split: list.split prod.split) (metis snd_conv)+

lemma steady_neutral: "(\<And>m. snd (f m) = m) \<Longrightarrow> neutral flaky_look (steady f)"
  by (auto simp: neutral_def flaky_look_def steady_def split: prod.split) (metis snd_conv)

interpretation flaky_faults: fallible_clients flaky_papi flaky_look "flaky_eapi evs" "flaky_wapi T" fault_count
  for evs T
  by unfold_locales
    (auto simp: flaky_defs mem_defs unsteady_neutral steady_neutral flaky_look_def should_return_def
      split: option.splits if_splits elim!: unsteady_cases dest!: steady_cases)

interpretation sample_inputs: stable_inputs "flaky_eapi sample_evs" "flaky_wapi no_objects" sample_lib
  sample_evs no_objects sample_entries
  using sample_known
  by unfold_locales
    (auto simp: flaky_defs similar_trans_def answers_def getEventsInTemplate_def should_return_def unavailable_def
      split: if_splits elim!: unsteady_cases)

lemma deleting_again: "p_deleting p \<Longrightarrow> p\<lparr>p_deleting := True\<rparr> = p"
  by simp

lemma flaky_delete_again:
  assumes "polDelete flaky_papi Managed k c = (d, c')"
    and "case flaky_look Managed k c of None \<Rightarrow> True | Some p \<Rightarrow> p_deleting p"
  shows "flaky_look Managed k c' \<in> {flaky_look Managed k c, None}"
proof -
  have "unsteady (Some unavailable) (mem_delete Managed k) c = (d, c')" using assms(1) by (simp add: flaky_papi_def)
  then show ?thesis
  proof (cases rule: unsteady_cases)
    case failed
    then show ?thesis by (simp add: flaky_look_def)
  next
    case worked
    then show ?thesis
      using assms(2) mem_look_nn [of Managed k "fk_mem c"] deleting_again
      by (auto simp: flaky_look_def mem_delete_def split: option.splits if_splits)
  qed
qed

interpretation flaky_sync: sync_system flaky_papi flaky_look "flaky_eapi sample_evs" "flaky_wapi no_objects"
  fault_count sample_lib sample_evs no_objects sample_entries requests_of sample_spec_reconciler "''c1''"
  sample_status_reconciler concurrent for concurrent
proof (unfold_locales, goal_cases)
  case (7 k c d c')
  then show ?case by (rule flaky_delete_again)
qed (auto simp: flaky_defs mem_defs sample_status_reconciler_def flaky_look_def no_status_def
    split: option.splits elim!: unsteady_cases dest!: steady_cases)

section \<open>Properties\<close>

text \<open>C1. Spec-sync and status-sync together bring the policies to rest. They start with a request for
  each policy on either side; the requests are worked off in any order, a reconcile that fails keeps its
  request, and every change and every message of a reconcile adds the requests that the registrations
  of the two controllers make of it. While nothing else writes, the events and the templates' objects stay
  as they are and the clients fail only finitely often, every run has at most fourteen reconciles for each
  failure and thirteen for each policy, and it can go on as long as a request waits. When none waits, a
  policy is settled exactly when its last reconcile of spec-sync did not ignore an error of its update (the
  errors that spec-sync does not report). A settled policy that is on the hub has the same annotations, spec
  and status on both clusters, with the status that the events and the templates give now; a settled policy
  that is not on the hub is not on the managed cluster either, or is being deleted there.\<close>

theorem policies_come_to_rest:
  assumes "sync_system papi look eapi wapi faults lib evs T P deliver hubNamespace sr"
    and "\<forall>n\<in>set names. ready lib P look r hubNamespace (w_env w) n"
    and "queue_run (run_job lib papi eapi wapi r sr) (woken deliver concurrent look) tr
      (all_jobs r hubNamespace names, w) (K, w')"
  shows "length tr \<le> 14 * faults (w_env w) + 13 * length names \<and>
    (K \<noteq> {} \<longrightarrow> (\<exists>j s. queue_step (run_job lib papi eapi wapi r sr) (woken deliver concurrent look) j (K, w') s)) \<and>
    (K = {} \<longrightarrow> (\<forall>n\<in>set names. settled lib evs T look r hubNamespace (w_env w') n \<longleftrightarrow>
       \<not> last_ignored papi r (nn hubNamespace n) tr))"
  using sync_system.system_settles [OF assms(1,3,2)] by (simp add: queue_progress del: split_paired_Ex)

text \<open>A policy of the hub that the managed cluster does not have yet, a policy whose copy is old, and a copy
  that the hub no longer has.\<close>

definition sample_clusters :: "flaky world" where
  "sample_clusters = \<lparr>w_env = \<lparr>fk_mem = mem_put Hub (sample_replica ''c1'') (mem_put Hub (sample_policy ''c1'' ''a'' ''new'')
       (mem_put Managed (sample_policy ''managed'' ''a'' ''old'')
         (mem_put Managed (sample_policy ''managed'' ''gone'' ''x'') (\<lambda>_ _. None)))),
     fk_plan = [False, True, True, False, True]\<rparr>, w_log = []\<rparr>"

theorem policies_come_to_rest_witness:
  "\<exists>tr w'. length tr \<le> 81 \<and>
     queue_run (run_job sample_lib flaky_papi (flaky_eapi sample_evs) (flaky_wapi no_objects)
         sample_spec_reconciler sample_status_reconciler) (woken requests_of 2 flaky_look) tr
       (all_jobs sample_spec_reconciler ''c1'' [''pol'', ''a'', ''gone''], sample_clusters) ({}, w') \<and>
     (settled sample_lib sample_evs no_objects flaky_look sample_spec_reconciler ''c1'' (w_env w') ''a'' \<longleftrightarrow>
       \<not> last_ignored flaky_papi sample_spec_reconciler (nn ''c1'' ''a'') tr)"
proof -
  let ?names = "[''pol'', ''a'', ''gone'']"
  have r: "\<forall>n\<in>set ?names. ready sample_lib sample_entries flaky_look sample_spec_reconciler ''c1'' (w_env sample_clusters) n"
    by (simp add: ready_def sample_clusters_def flaky_look_def sample_replica_def sample_policy_def sample_spec_def
        policy_nn_def template_names_def sample_spec_reconciler_def known_details_def)
  from flaky_sync.system_drains [OF r] obtain tr w' where
    run: "queue_run (run_job sample_lib flaky_papi (flaky_eapi sample_evs) (flaky_wapi no_objects)
         sample_spec_reconciler sample_status_reconciler) (woken requests_of 2 flaky_look) tr
       (all_jobs sample_spec_reconciler ''c1'' ?names, sample_clusters) ({}, w')" by blast
  have "fault_count (w_env sample_clusters) = 3" by (simp add: sample_clusters_def fault_count_def)
  then show ?thesis using policies_come_to_rest [OF flaky_sync.sync_system_axioms r run] run by auto
qed

end
