(* ===== verification/StatusTypes.thy ===== *)
theory StatusTypes
  imports StatusSync
begin

text \<open>
  The type of a policy status: the compliance states are those of the resource definition or empty, no
  entry is \<^verbatim>\<open>nil\<close>, and no history is longer than ten entries. Status-sync writes only statuses of this
  type, provided that the stored status of the managed policy has it.
\<close>

section \<open>Well-typed statuses\<close>

definition compliance_state :: "string \<Rightarrow> bool" where
  "compliance_state c \<longleftrightarrow> c \<in> {[], Compliant, NonCompliant, Pending}"

definition entry_typed :: "details option \<Rightarrow> bool" where
  "entry_typed d = (case d of None \<Rightarrow> False | Some d \<Rightarrow> compliance_state (d_compliance d) \<and> length (d_history d) \<le> 10)"

definition status_typed :: "policy_status \<Rightarrow> bool" where
  "status_typed s \<longleftrightarrow> compliance_state (s_compliance s) \<and> list_all entry_typed (s_details s)"

text \<open>A status update carries a well-typed status.\<close>

fun typed_effect :: "effect \<Rightarrow> bool" where
  "typed_effect (PolicyStatusUpdate cl p) = status_typed (p_status p)"
| "typed_effect _ = True"

lemma compliance_state_simps [simp]:
  "compliance_state []" "compliance_state Compliant" "compliance_state NonCompliant" "compliance_state Pending"
  "compliance_state (parseComplianceFromMessage m)"
  by (simp_all add: compliance_state_def parseComplianceFromMessage_def Let_def)

lemma typed_no_nil: "list_all entry_typed ds \<Longrightarrow> None \<notin> set ds"
  by (auto simp: entry_typed_def list_all_iff)

lemma mergeDetails_typed:
  assumes "mergeDetails E ex n = Some d" and "list_all entry_typed ex"
  shows "entry_typed (Some d)"
  using assms(1)
proof (rule mergeDetails_Some)
  fix old
  assume old: "find_details n ex = Some old"
    and c: "d_compliance d = (case d_history d of
      [] \<Rightarrow> (case old of None \<Rightarrow> [] | Some d \<Rightarrow> d_compliance d) | h # _ \<Rightarrow> parseComplianceFromMessage (h_message h))"
  have "compliance_state (d_compliance x)" if "old = Some x" for x
    using find_details_name [of n ex x] old that assms(2) by (auto simp: list_all_iff entry_typed_def)
  with c have "compliance_state (d_compliance d)" by (auto split: list.splits option.splits)
  then show ?thesis using mergeDetails_good [OF assms(1)] by (simp add: entry_typed_def good_details_def)
qed

lemma details_loop_typed:
  assumes "details_loop lib wapi inst i ts m acc w = (Ok ds, w')"
    and "list_all entry_typed acc" and "list_all entry_typed (s_details (p_status inst))"
  shows "list_all entry_typed ds"
  using assms(1,2)
proof (induction ts arbitrary: i m acc w)
  case (Cons t ts)
  obtain n m1 ex w1 d
    where r: "resolve_template lib wapi inst i t m w = (Inr (n, m1, ex), w1)"
      and d: "mergeDetails (m1 n) ex n = Some d"
      and l: "details_loop lib wapi inst (Suc i) ts m1 (acc @ [Some d]) w1 = (Ok ds, w')"
    using Cons.prems(1) by (auto split: prod.splits sum.splits option.splits)
  have "list_all entry_typed ex" using resolve_template_name(2) [OF r] assms(3) by auto
  from mergeDetails_typed [OF d this] Cons.IH [OF l] Cons.prems(2) show ?case by simp
qed simp

lemma getDetails_typed:
  assumes "getDetails lib eapi wapi inst w = (Ok ds, w')" and "list_all entry_typed (s_details (p_status inst))"
  shows "list_all entry_typed ds"
  using assms details_loop_typed [where acc = "[]"]
  by (auto simp: getDetails_def split: prod.splits sum.splits)

lemma overall_compliance_typed:
  assumes "overall_compliance old ds = Some c" and "compliance_state old"
  shows "compliance_state c"
proof -
  have "compliance_state state'" if "compliance_loop state b ds = Some (state', b')" "compliance_state state"
    for state b state' b'
    using that by (induction state b ds rule: compliance_loop.induct) (auto split: if_splits)
  then show ?thesis using assms by (auto simp: overall_compliance_def split: option.splits)
qed

section \<open>Writes that keep the type\<close>

context status_env
begin

definition writes_typed :: "'c world \<Rightarrow> 'c world \<Rightarrow> bool" where
  "writes_typed w w' \<longleftrightarrow>
     (\<exists>es. w_log w' = w_log w @ es \<and> list_all typed_effect es) \<and>
     (\<forall>cl k p. look cl k (w_env w') = Some p \<longrightarrow> look cl k (w_env w) = Some p \<or> status_typed (p_status p))"

lemma writes_typed_trans: "writes_typed w w1 \<Longrightarrow> writes_typed w1 w2 \<Longrightarrow> writes_typed w w2"
  unfolding writes_typed_def by (metis append.assoc list_all_append)

lemma writes_typed_quiet:
  "(\<And>cl k. look cl k (w_env w') = look cl k (w_env w)) \<Longrightarrow> w_log w' = w_log w @ es \<Longrightarrow> list_all typed_effect es \<Longrightarrow>
     writes_typed w w'"
  by (auto simp: writes_typed_def)

lemma writes_typed_refl: "writes_typed w w"
  by (rule writes_typed_quiet [where es = "[]"]) simp_all

lemma status_update_typed:
  assumes "act (PolicyStatusUpdate cl p) (polStatusUpdate papi cl p) w = (x, w')" and "status_typed (p_status p)"
  shows "writes_typed w w'"
proof -
  have "look cl2 k2 (w_env w) = Some q \<or> status_typed (p_status q)" if "look cl2 k2 (w_env w') = Some q" for cl2 k2 q
  proof (cases "(cl2, k2) \<noteq> (cl, policy_nn p) \<or> (\<exists>e. x = Inl e)")
    case True
    then show ?thesis using act_status(2) [OF assms(1) True] that by simp
  next
    case False
    then obtain q' where "x = Inr q'" by (cases x) auto
    from act_status(1) [OF assms(1) this] show ?thesis using False that assms(2) by auto
  qed
  then show ?thesis using act_log [OF assms(1)] assms(2) by (auto simp: writes_typed_def)
qed

lemma update_managed_typed:
  assumes "update_managed_status papi inst old w = (x, w')" and "status_typed (p_status inst)"
  shows "writes_typed w w'" and "x = Inr i \<Longrightarrow> status_typed (p_status i)"
proof -
  obtain y w1 where u: "act (PolicyStatusUpdate Managed inst) (polStatusUpdate papi Managed inst) w = (y, w1)"
    by fastforce
  have e: "writes_typed w1 (emit (Recorded a b c d t) w1)" for a b c d t
    by (rule writes_typed_quiet [where es = "[Recorded a b c d t]"]) simp_all
  note W = status_update_typed [OF u assms(2)]
  show "writes_typed w w'"
    using assms(1) u W writes_typed_trans [OF W e]
    by (cases y) (auto simp: update_managed_status_def writes_typed_refl split: if_splits)
  show "status_typed (p_status i)" if "x = Inr i"
    using assms u that act_status(1) [OF u] by (cases y) (auto simp: update_managed_status_def split: if_splits)
qed

lemma update_hub_typed:
  assumes "update_hub_status papi r inst hub w = (x, w')" and "status_typed (p_status inst)"
  shows "writes_typed w w'"
proof -
  let ?k = "nn (sr_clusterNamespaceOnHub r) (p_name inst)"
  obtain y w1 where g: "call (polGet papi Hub ?k) w = (y, w1)" by fastforce
  let ?h = "(case y of Inl _ \<Rightarrow> hub | Inr updated \<Rightarrow> updated)\<lparr>p_status := p_status inst\<rparr>"
  obtain z w2 where u: "act (PolicyStatusUpdate Hub ?h) (polStatusUpdate papi Hub ?h) w1 = (z, w2)" by fastforce
  have q: "writes_typed w w1"
    using call_get(1) [OF g] call_log [OF g] by (intro writes_typed_quiet [where es = "[]"]) simp_all
  have "writes_typed w1 w2" using status_update_typed [OF u] assms(2) by simp
  with q have W: "writes_typed w w2" by (rule writes_typed_trans)
  have e: "writes_typed w2 (emit (Recorded a b c d t) w2)" for a b c d t
    by (rule writes_typed_quiet [where es = "[Recorded a b c d t]"]) simp_all
  show ?thesis
    using assms(1) g u q W writes_typed_trans [OF W e]
    by (cases z) (auto simp: update_hub_status_def Let_def split: if_splits)
qed

lemma updateStatuses_typed:
  assumes "updateStatuses papi r inst hub old w = (x, w')" and "status_typed (p_status inst)"
  shows "writes_typed w w'"
proof (cases "overall_compliance (s_compliance (p_status inst)) (s_details (p_status inst))")
  case None
  then show ?thesis using assms(1) writes_typed_refl by (simp add: updateStatuses_def)
next
  case (Some c)
  let ?inst = "inst\<lparr>p_status := (p_status inst)\<lparr>s_compliance := c\<rparr>\<rparr>"
  have t: "status_typed (p_status ?inst)"
    using overall_compliance_typed [OF Some] assms(2) by (simp add: status_typed_def)
  obtain y w1 where m: "update_managed_status papi ?inst old w = (y, w1)" by fastforce
  note M = update_managed_typed [OF m t]
  show ?thesis
  proof (cases "\<exists>i h. y = Inr i \<and> hub = Some h \<and> \<not> sr_onMulticlusterhub r")
    case False
    then have "w' = w1" using assms(1) Some m by (cases y; cases hub) (auto simp: updateStatuses_def split: if_splits)
    then show ?thesis using M(1) by simp
  next
    case True
    then obtain i h where ih: "y = Inr i" "hub = Some h" "\<not> sr_onMulticlusterhub r" by blast
    obtain z w2 where u: "update_hub_status papi r i h w1 = (z, w2)" by fastforce
    then have "w' = w2" using assms(1) Some m ih by (cases z) (auto simp: updateStatuses_def)
    then show ?thesis using writes_typed_trans [OF M(1) update_hub_typed [OF u M(2) [OF ih(1)]]] by simp
  qed
qed

lemma getInstances_typed:
  assumes "getInstances papi r request w = (x, w')"
  shows "writes_typed w w'"
proof (cases x)
  case (Inl e)
  then show ?thesis
    using getInstances_frame [OF assms] getInstances_Inl [OF assms [unfolded Inl]]
    by (intro writes_typed_quiet [where es = "[]"]) simp_all
next
  case (Inr y)
  obtain mi hi where y: "y = (mi, hi)" by (cases y)
  obtain es where es: "instances_spec r request (look Managed request (w_env w))
      (look Hub (hub_key r request) (w_env w)) = (mi, hi, es)" "w_log w' = w_log w @ es"
    using getInstances_Inr [OF assms [unfolded Inr y]] by blast
  have "list_all typed_effect es"
    using es(1) by (auto simp: instances_spec_def spec_requests_def split: if_splits option.splits)
  with es(2) show ?thesis using getInstances_frame [OF assms] by (intro writes_typed_quiet) simp_all
qed

lemma getDetails_quiet: "getDetails lib eapi wapi m w = (x, w') \<Longrightarrow> writes_typed w w'"
  using getDetails_frame by (intro writes_typed_quiet [where es = "[]"]) simp_all

lemma reconcile_typed:
  assumes run: "reconcile_policy_status lib papi eapi wapi r request w = (res, w')"
    and typed: "\<And>m. look Managed request (w_env w) = Some m \<Longrightarrow> status_typed (p_status m)"
  shows "writes_typed w w'"
  using run
proof (cases rule: reconcile_policy_status_cases)
  case no_details
  then show ?thesis using writes_typed_trans getInstances_typed getDetails_quiet by blast
next
  case (written m hi w1 ds w2 x)
  have "status_typed (p_status m)" by (rule typed [OF getInstances_found(1) [OF written(1)]])
  then have "status_typed (p_status (m\<lparr>p_status := (p_status m)\<lparr>s_details := ds\<rparr>\<rparr>))"
    using getDetails_typed [OF written(2)] by (simp add: status_typed_def)
  from updateStatuses_typed [OF written(3) this] show ?thesis
    using writes_typed_trans getInstances_typed [OF written(1)] getDetails_quiet [OF written(2)] by blast
qed (use getInstances_typed in blast)+

lemma Reconcile_status_typed:
  assumes run: "Reconcile_status b lib papi eapi wapi r request w = (res, w')"
    and typed: "\<And>m. look Managed request (w_env w) = Some m \<Longrightarrow> status_typed (p_status m)"
  shows "writes_typed w w'"
  using run
proof (cases rule: Reconcile_status_cases)
  case no_batch
  then show ?thesis
    using neutral_call [OF start_neutral no_batch(2)] call_log [OF no_batch(2)]
    by (intro writes_typed_quiet [where es = "[]"]) simp_all
next
  case (ran w1 w2 z)
  have "writes_typed w w1"
    using neutral_call [OF start_neutral ran(2)] call_log [OF ran(2)]
    by (intro writes_typed_quiet [where es = "[]"]) simp_all
  moreover have "writes_typed w1 w2"
    by (rule reconcile_typed [OF ran(3)]) (use typed neutral_call [OF start_neutral ran(2)] in simp)
  moreover have "writes_typed w2 w'"
    using neutral_call [OF end_neutral ran(4)] call_log [OF ran(4)]
    by (intro writes_typed_quiet [where es = "[]"]) simp_all
  ultimately show ?thesis using writes_typed_trans by blast
qed (simp add: writes_typed_refl)

end

section \<open>Properties\<close>

text \<open>C5. Status-sync is type safe: when the stored status of the managed policy is well typed, so that its
  compliance states are those of the resource definition or empty, its details have no \<^verbatim>\<open>nil\<close> entry and its
  histories at most ten entries, then a reconcile does not panic, every status that it sends is well typed,
  and every policy on either cluster has the status it had or a well-typed one afterwards, whatever the
  events, the templates and the answers of the servers are.\<close>

theorem status_sync_type_safe:
  assumes "status_env papi look eapi wapi"
    and "Reconcile_status b lib papi eapi wapi r request w = (res, w')"
    and "\<And>m. look Managed request (w_env w) = Some m \<Longrightarrow> status_typed (p_status m)"
  shows "res \<noteq> Panicked \<and> (\<exists>es. w_log w' = w_log w @ es \<and> list_all typed_effect es) \<and>
    (\<forall>cl k p. look cl k (w_env w') = Some p \<longrightarrow> look cl k (w_env w) = Some p \<or> status_typed (p_status p))"
proof -
  have "None \<notin> set (s_details (p_status m))" if "look Managed request (w_env w) = Some m" for m
    using assms(3) [OF that] typed_no_nil by (simp add: status_typed_def)
  from status_env.Reconcile_status_no_panic [OF assms(1) this, where b = b and lib = lib and r = r] assms(2)
  have "res \<noteq> Panicked" by fastforce
  moreover have "status_env.writes_typed look w w'"
    using status_env.Reconcile_status_typed [OF assms(1,2)] assms(3) by blast
  ultimately show ?thesis unfolding status_env.writes_typed_def [OF assms(1)] by blast
qed

theorem status_sync_type_safe_witness:
  "fst sample_status_run \<noteq> Panicked \<and> list_all typed_effect (w_log (snd sample_status_run))"
proof -
  have t: "status_typed (p_status m)" if "mem_look Managed (nn ''managed'' ''pol'') sample_pair = Some m" for m
    using that sample_pair_look by (auto simp: sample_replica_def status_typed_def)
  show ?thesis
    using status_sync_type_safe [OF mem_status.status_env_axioms [of "[]"] prod.collapse [symmetric],
        where b = False and lib = sample_lib and r = sample_status_reconciler
          and request = "nn ''managed'' ''pol''" and w = "\<lparr>w_env = sample_pair, w_log = []\<rparr>"] t
    by auto
qed

end
