(* ===== verification/Spec2Isabelle.thy ===== *)
theory Spec2Isabelle
  imports Lifecycle TemplateProperties Convergence StatusTypes
begin

text \<open>
  A model of the policy framework addon of Open Cluster Management, a set of Kubernetes
  controllers written in Go that run on a managed cluster, with the theorems that make them
  correct. Paths below are relative to \<^verbatim>\<open>src/\<close>.

  \<^bold>\<open>The program and how its parts interact.\<close> A policy is made on the hub cluster, in the namespace
  of the managed cluster. \<^emph>\<open>spec-sync\<close> copies it to the managed cluster. \<^emph>\<open>secret-sync\<close> copies the
  key with which template values are encrypted. \<^emph>\<open>template-sync\<close> creates, updates and removes the
  objects that the templates of the policy describe, and reports errors as compliance events.
  Policy controllers evaluate these objects and report compliance events, and \<^emph>\<open>gatekeeper-sync\<close>
  does so for the constraints of Gatekeeper. \<^emph>\<open>status-sync\<close> reads the events, merges them into a
  history per template and writes the status of the policy on the managed cluster and on the hub.
  spec-sync and status-sync call on each other through channels of requests. The uninstall
  command annotates the deployment and deletes the policies; a watcher turns the annotation into
  a global flag which pauses the controllers. \<^verbatim>\<open>main.go\<close> reads the options, decides which of these
  run, supervises gatekeeper-sync, combines the health of the managers, and waits for the goroutines
  that its wait group counts.

  \<^bold>\<open>Theories.\<close>
  \<^item> \<^verbatim>\<open>Prelude\<close>: collections of simplification rules, lists and options.
  \<^item> \<^verbatim>\<open>GoLib\<close>: what the sources use of the Go library: strings, integers in base 16, times,
    sorting. \<^verbatim>\<open>Sha1\<close>: the digest of the cache of gatekeeper-sync, on 32-bit words.
  \<^item> \<^verbatim>\<open>Kube\<close>: the objects, errors, calls and results of the API machinery as the controllers
    see them; the world with its log of outward actions; JSON values and their rendering.
  \<^item> \<^verbatim>\<open>Utils\<close>: \<^verbatim>\<open>controllers/utils\<close>, with the protocol of event names and reasons as the locale
    \<open>event_protocol\<close>, which \<^verbatim>\<open>StatusHistory\<close> interprets on the sender and the reader.
  \<^item> \<^verbatim>\<open>PolicyStore\<close>: the interfaces: \<open>policy_store\<close> (what a read returns after each write),
    \<open>lossy_replicator\<close> (a queue of reconciles brings about agreement, up to the reconciles that lose an
    error) with \<open>replicator\<close> (none does), \<open>pausing\<close> (a raised flag makes a queue do nothing), and a store
    in memory on which they are interpreted.
  \<^item> \<^verbatim>\<open>SpecSync\<close>, \<^verbatim>\<open>SecretSync\<close>: \<^verbatim>\<open>controllers/specsync\<close>, \<^verbatim>\<open>controllers/secretsync\<close>, each one reconcile
    with every branch; secret-sync is shown to be a replicator, spec-sync a lossy one, since it ignores
    errors of its update.
  \<^item> \<^verbatim>\<open>StatusHistory\<close>, \<^verbatim>\<open>StatusSync\<close>: \<^verbatim>\<open>controllers/statussync\<close>; the history of a template, then the
    reconcile with the event predicate and mapper. \<^verbatim>\<open>StatusTypes\<close>: the type of a status, and that
    only well-typed ones are written. \<^verbatim>\<open>StatusStable\<close>: the details as a function of the events and the
    objects of the templates, and that computing them again from the stored ones changes nothing.
  \<^item> \<^verbatim>\<open>GatekeeperSync\<close>: \<^verbatim>\<open>controllers/gatekeepersync\<close>, with the cache of the messages that were sent. A cluster
    that reads the same during a reconcile is the locale \<open>gatekeeper_view\<close>, in which the events and the
    cache are computed from the constraints.
  \<^item> \<^verbatim>\<open>TemplateUtil\<close>, \<^verbatim>\<open>TemplateSync\<close>: \<^verbatim>\<open>controllers/templatesync\<close>; its helpers, then the reconcile
    split along its branches: the loop over the templates (\<open>templates_loop\<close>, \<open>template_step\<close>), one
    template (\<open>sync_template\<close>, \<open>create_template\<close>, \<open>sync_existing\<close>, \<open>update_template\<close>), the clean-up
    and the finalizer. \<^verbatim>\<open>TemplateCorrect\<close> proves once, in the locale \<open>template_inv\<close>, that an
    invariant which every outward action keeps is kept by the reconcile; the log of actions is an
    interpretation. \<^verbatim>\<open>TemplateStore\<close> states what the controller relies on of the object store as
    the locale \<open>object_store\<close> and proves its effect there; \<^verbatim>\<open>TemplateProperties\<close> states the properties.
  \<^item> \<^verbatim>\<open>Uninstall\<close>, \<^verbatim>\<open>Options\<close>: \<^verbatim>\<open>controllers/uninstall\<close> and \<^verbatim>\<open>tool\<close>.
  \<^item> \<^verbatim>\<open>Managers\<close>, \<^verbatim>\<open>Startup\<close>, \<^verbatim>\<open>Lifecycle\<close>: \<^verbatim>\<open>main.go\<close>; the options, caches and construction of the
    managers, with what a cache does as the locale \<open>object_cache\<close>; what is started, the \<^verbatim>\<open>init\<close>
    functions, the cache of events, the health proxy and the supervision of gatekeeper-sync; then
    the goroutines of the process, counted by the wait group or not, until it returns.
  \<^item> \<^verbatim>\<open>Setup\<close>: the registrations of the controllers (\<^verbatim>\<open>SetupWithManager\<close>, \<^verbatim>\<open>Setup\<close>, \<^verbatim>\<open>addControllers\<close>),
    with what a registration does as the locale \<open>controller_runtime\<close>.
  \<^item> \<^verbatim>\<open>SyncSystem\<close>, \<^verbatim>\<open>Convergence\<close>: spec-sync and status-sync as one system of two queues, which the
    registrations fill; the environment as the locales \<open>fallible_clients\<close>, \<open>stable_inputs\<close> and
    \<open>sync_system\<close>, the effect of each reconcile, and the potential that bounds every run, as a
    \<open>draining_queue\<close>. The locales are interpreted on a store behind a connection that fails by plan.
  \<^item> This theory: properties of several components.

  \<^bold>\<open>What is shown.\<close>
  \<^item> Refinement: a reconcile without an error brings about what the controller promises: the copy
    of a policy or of the key, the same recalculated status on both clusters, the object of a
    template. The promises are stated on what the API servers hold, not on the calls made.
  \<^item> Safety: the log of outward actions of a reconcile holds only what the controller may do, and
    what it may not touch is as before; while uninstalling four controllers do nothing and template-sync
    only reports and removes; the finalizer of a policy that is being deleted is given up only after
    the clean-up; the clean-up removes the excess objects and no others; what gatekeeper-sync reports
    is true of the constraints on the cluster; a reconcile with nothing to do does nothing; the two
    controllers that call on each other settle.
  \<^item> Liveness: the requests that spec-sync and status-sync cause for each other run dry, whatever the
    order and however the finitely many failures fall, and leave a policy settled exactly when its last
    reconcile of spec-sync did not ignore an error.
  \<^item> Types: status-sync writes well-typed statuses only, and does not panic on one.
  \<^item> The way of an event: it is kept by the cache, reaches status-sync as a request of its policy and
    is read with the compliance that was sent; the caches hold all that the controllers read.
  \<^item> The history: its bound of ten entries, their order, where they come from, that merging again
    changes nothing, and that what was sent last is what is read.
  \<^item> Invariants of the state machines of \<^verbatim>\<open>main.go\<close> by induction over their reachable states and runs; the
    return of the uninstall command.
  \<^item> Errors: panics and lost errors of the code, each as a theorem on a reachable input.

  \<^bold>\<open>How the code is translated.\<close>
  \<^item> The API servers, the watch library, the decoders of the API machinery and the parser of flags
    are not part of the repository. Each is a record of functions on an abstract state \<open>'c\<close> and
    an argument of the definitions; what a theorem relies on is the \<open>assumes\<close> of a locale, which
    is interpreted on a store in memory.
  \<^item> A world is the state with a log of the outward actions in order, whether they succeed or not. \<open>call\<close> reads,
    \<open>act\<close> writes and logs.
  \<^item> Errors are values (\<^typ>\<open>gerr\<close> with its reason), and the result of a reconcile is done, requeue
    after seconds, failed, or panicked. A nil pointer is an absent option, and every dereference
    of one that may be nil is a branch with a panic.
  \<^item> A Go map that is ranged over is an association list in some order; where the code sorts, the
    theorems do not depend on it. A map that is only read is a HOL map. \<^verbatim>\<open>DeepEqual\<close> is equality.
    A JSON object is a list of fields sorted by key.
  \<^item> Lower case is ASCII. Integers of the options and of SHA-1 are words of their width; counts that
    cannot leave their range are natural numbers.
  \<^item> The global flag of the uninstallation is read once per reconcile and per sub-step that reads
    it, as the code does, and is constant during one reconcile.
  \<^item> The loops of the uninstall command and of the supervised manager have no bound in the code.
    They are the partial function \<open>retry\<close>, for which not returning is an absent value, and they
    are shown to return where the context has a deadline and time passes (\<open>timed_api\<close>,
    \<open>bounded_loop\<close>). All other definitions are total, with no fuel. The supervisor is a function
    of the list of rounds it goes through.
  \<^item> The laws of the stores allow any call to fail; only an answer of "not found" says something of
    what is stored. Spec-sync ignores every other error of an update, which is a theorem; the properties
    of its convergence name these reconciles with \<open>update_ignored\<close> instead of excluding them.
  \<^item> Time is an unbounded integer of nanoseconds; \<^verbatim>\<open>UnixNano\<close> wraps in the year 2262. An object that is
    deleted is gone, without finalizers of its own. The selector of the event cache is there twice, as
    the option of the manager and as a predicate, which a theorem relates.

  \<^bold>\<open>Not modelled.\<close> The inside of \<^verbatim>\<open>controller-runtime\<close> (managers, caches, clients, leader election, rate
  limits) beyond the documented behaviour that the locales state; the HTTP server of the health proxy;
  the exit of the process on a second signal; loggers, the log constructors and their texts; the version. These only call the libraries. Reconciles of one
  controller run concurrently for different policies in the program; the theorems are about one
  reconcile at a time, or a queue of them in any order. The queues of \<open>SyncSystem\<close> are sets, as a
  work queue holds a request once, and the buffers of the channels are not bounded there.
\<close>

section \<open>The reader of the events of gatekeeper-sync\<close>

lemma events_for_policy_mono:
  "set (m n) \<subseteq> set (events_for_policy uid evs m n)"
proof (induction evs arbitrary: m)
  case (Cons ev evs)
  have "set (m n) \<subseteq> set ((m(t := m t @ [history_of_event ev])) n)" for t by auto
  then show ?case using Cons.IH
    by (simp del: fun_upd_apply split: option.splits) (meson subset_trans)
qed simp

lemma events_for_policy_append:
  "events_for_policy uid (es @ es') m = events_for_policy uid es' (events_for_policy uid es m)"
  by (induction es arbitrary: m) (simp_all split: option.splits)

lemma events_for_policy_reads:
  assumes "reason_template (ev_reason ev) = Some n" and "ref_uid (ev_involved ev) = uid"
  shows "history_of_event ev \<in> set (events_for_policy uid (es @ ev # es') m n)"
proof -
  let ?m = "(events_for_policy uid es m)
    (n := events_for_policy uid es m n @ [history_of_event ev])"
  have "events_for_policy uid (es @ ev # es') m = events_for_policy uid es' ?m"
    using assms by (simp add: events_for_policy_append)
  then show ?thesis using events_for_policy_mono [of ?m n uid es'] by auto
qed

text \<open>C22. A compliance event finds its way into the status. The event that gatekeeper-sync or
  template-sync sends about a template of a policy is kept by the event cache of the managed cluster and,
  stripped as the cache keeps it, makes a request of exactly that policy through the registration of
  status-sync; among any other events of the cluster the reconcile of this request files it under the name
  of the template and reads from it the compliance that was sent.\<close>

theorem compliance_event_followed:
  assumes "object_cache holds" and "controller_runtime deliver"
    and "ev = compliance_event sender inst owner (EventReason ns n) msg c now"
    and "owner \<in> {policy_owner_ref pol, template_owner pol}"
    and "namespace_ok ns" and "name_ok n" and "c \<in> {Compliant, NonCompliant, Pending}"
    and "p_kind pol = PolicyKind" and "p_apiVersion pol = policiesv1APIVersion"
    and "p_namespace pol = op_clusterNamespace opts" and "es_clusterNamespace sender = op_clusterNamespace opts"
    and "(Managed, reg) \<in> set (registered opts)" and "rg_name reg = ''policy-status-sync''"
  shows "holds (mo_cache (getManager_options opts base a)) (event_object ev) \<and>
    deliver reg (OnEvent WatchCreate (event_transform ev)) = {policy_nn pol} \<and>
    history_of_event ev \<in> set (events_for_policy (p_uid pol)
      (event_cache (op_clusterNamespace opts) (es @ ev # es')) (\<lambda>_. []) n) \<and>
    parseComplianceFromMessage (h_message (history_of_event (event_transform ev))) = c"
proof -
  note ev = assms(3)
  have owner: "or_kind owner = p_kind pol" "or_apiVersion owner = p_apiVersion pol" "or_name owner = p_name pol"
    "or_uid owner = p_uid pol"
    using assms(4) by (auto simp: policy_owner_ref_def template_owner_def)
  have r: "reason_template (ev_reason ev) = Some n"
    using status_events.template_of_reason [OF assms(5,6)] by (simp add: ev compliance_event_def)
  have sel: "event_selected (op_clusterNamespace opts) ev"
    using r recorder_reasons assms(8,11) owner
    by (auto simp: event_selected_def ev compliance_event_def PolicyKind_def)
  obtain ss where reg: "reg = SetupWithManager_status (uint (op_evaluationConcurrency opts)) ss"
    using registered_status [OF assms(12,13)] by blast
  have "deliver reg (OnEvent WatchCreate (event_transform ev)) = {policy_nn pol}"
    unfolding reg
    by (subst controller_runtime.status_event [OF assms(2)])
      (use assms(8-11) owner in \<open>simp_all add: ev compliance_event_def policy_nn_def\<close>)
  moreover have "history_of_event ev \<in> set (events_for_policy (p_uid pol)
      (event_cache (op_clusterNamespace opts) (es @ ev # es')) (\<lambda>_. []) n)"
    using events_for_policy_reads [of "event_transform ev" n "p_uid pol"] r sel owner
    by (simp add: event_cache_def ev compliance_event_def)
  moreover have "parseComplianceFromMessage (h_message (history_of_event ev)) = c"
    using assms(7) by (intro parseCompliance_history [where msg = msg]) (simp_all add: ev compliance_event_def)
  ultimately show ?thesis using sel by (simp add: object_cache.holds_event_selected [OF assms(1)])
qed

definition followed_opts :: syncer_options where
  "followed_opts = ProcessFlags\<lparr>op_clusterNamespace := ''managed'', op_clusterNamespaceOnHub := ''c1''\<rparr>"

theorem compliance_event_followed_witness:
  "requests_of (SetupWithManager_status (uint (op_evaluationConcurrency followed_opts))
       [Some StatusSyncRequests, Some StatusDepEvents])
     (OnEvent WatchCreate (event_transform (constraint_event gk_sender gk_policy sample_constraint ''m'' NonCompliant 5)))
   = {nn ''managed'' ''pol''}"
proof -
  let ?reg = "SetupWithManager_status (uint (op_evaluationConcurrency followed_opts))
    [Some StatusSyncRequests, Some StatusDepEvents]"
  have "(Managed, ?reg) \<in> set (registered followed_opts)" "rg_name ?reg = ''policy-status-sync''"
    by (simp_all add: registered_def followed_opts_def ProcessFlags_def setup_defs)
  from compliance_event_followed [OF documented_cache.object_cache_axioms runtime.controller_runtime_axioms
      constraint_event_def [of gk_sender gk_policy sample_constraint "''m''" NonCompliant 5] _ _ _ _ _ _ _ _ this, of gk_policy]
  show ?thesis
    by (simp add: sample_constraint_def namespace_ok_def name_ok_def rx_any_def rx_space_def gk_policy_def
        gk_sender_def followed_opts_def policiesv1APIVersion_def APIVersion_def policy_nn_def)
qed

section \<open>Spec-sync and status-sync settle\<close>

text \<open>C9. The two controllers that call on each other settle: after spec-sync has copied a
  policy that is on the hub and status-sync has reconciled the copy, both without an error,
  another reconcile of spec-sync neither writes nor requests anything. The first reconcile must
  have copied it: that it returns without an error is not enough when its update failed with an
  error that spec-sync ignores.\<close>

theorem sync_settles:
  assumes "status_env papi look eapi wapi"
    and "look Hub (nn hubNs name) (w_env w) = Some h"
    and "Reconcile_spec False papi r (nn hubNs name) w = (Done, w1)"
    and "\<not> update_ignored papi r (nn hubNs name) w"
    and "Reconcile_status False lib papi eapi wapi sr (nn (ss_targetNamespace r) name) w1 = (Done, w2)"
    and "sr_clusterNamespaceOnHub sr = hubNs" and "\<not> sr_onMulticlusterhub sr"
    and "Reconcile_spec False papi r (nn hubNs name) w2 = (res, w3)"
  shows "w_log w3 = w_log w2"
proof -
  note store = status_env.axioms(1) [OF assms(1)]
  have hub: "look Hub (nn hubNs name) (w_env w1) = Some h"
    using policy_store.Reconcile_spec_look [OF store assms(3), of Hub] assms(2) by simp
  obtain q where q: "look Managed (nn (ss_targetNamespace r) name) (w_env w1) = Some q"
    "EquivalentReplicatedPolicies h q"
    using policy_store.Reconcile_spec_there [OF store assms(3,2)] assms(4) by auto
  have "hub_key sr (nn (ss_targetNamespace r) name) = nn hubNs name"
    using assms(6) by (simp add: hub_key_def)
  with status_env.Reconcile_status_Done [OF assms(1,5,7) q(1), of h] hub q(2)
  obtain m' h' where s: "look Managed (nn (ss_targetNamespace r) name) (w_env w2) = Some m'"
    "same_object q m'" "look Hub (nn hubNs name) (w_env w2) = Some h'" "same_object h h'"
    "p_status h' = p_status m'"
    by (auto simp: EquivalentReplicatedPolicies_iff)
  then have "EquivalentReplicatedPolicies h' m'"
    using q(2) by (auto simp: EquivalentReplicatedPolicies_iff same_object_def)
  with policy_store.Reconcile_spec_quiet [OF store assms(8) s(3)] s show ?thesis by simp
qed

lemma sample_spec_settled:
  "Reconcile_spec False mem_papi sample_spec_reconciler (nn ''c1'' ''pol'')
     \<lparr>w_env = sample_pair, w_log = []\<rparr> = (Done, \<lparr>w_env = sample_pair, w_log = []\<rparr>)"
  by (simp add: Reconcile_spec_def compare_and_update_def call_def mem_defs sample_pair_def
      sample_replica_def sample_spec_reconciler_def policy_nn_def EquivalentReplicatedPolicies_iff)

lemma sample_not_ignored:
  "\<not> update_ignored mem_papi sample_spec_reconciler (nn ''c1'' ''pol'') \<lparr>w_env = sample_pair, w_log = []\<rparr>"
  by (simp add: update_ignored_def ignores_update_def call_def mem_defs sample_pair_def
      sample_replica_def sample_spec_reconciler_def policy_nn_def EquivalentReplicatedPolicies_iff)

theorem sync_settles_witness:
  "w_log (snd (Reconcile_spec False mem_papi sample_spec_reconciler (nn ''c1'' ''pol'')
     (snd sample_status_run))) = w_log (snd sample_status_run)"
proof -
  have run: "Reconcile_status False sample_lib mem_papi (sample_eapi []) sample_wapi
      sample_status_reconciler (nn (ss_targetNamespace sample_spec_reconciler) ''pol'')
      \<lparr>w_env = sample_pair, w_log = []\<rparr> = (Done, snd sample_status_run)"
    using sample_status_Done by (simp add: sample_spec_reconciler_def prod_eq_iff)
  have hub: "mem_look Hub (nn ''c1'' ''pol'') (w_env \<lparr>w_env = sample_pair, w_log = []\<rparr>) =
      Some (sample_replica ''c1'')"
    using sample_pair_look(2) by (simp add: hub_key_def sample_status_reconciler_def)
  show ?thesis
    by (rule sync_settles [OF mem_status.status_env_axioms hub
          sample_spec_settled sample_not_ignored run _ _ prod.collapse [symmetric]])
      (simp_all add: sample_status_reconciler_def)
qed

section \<open>The uninstallation pauses the controllers\<close>

text \<open>C16. Once the deployment carries the annotation that the uninstall command sets, the reconcile of
  the watcher raises the flag, and with the flag every queue of requests of spec-sync,
  status-sync, secret-sync and gatekeeper-sync comes back after five minutes with nothing read
  or written.\<close>

theorem uninstall_pauses:
  assumes "call (depGet uapi (nn (oi_namespace obj) (oi_name obj))) w = (Inr d, w1)"
    and "dp_annotations d = Some (m(AnnotationKey \<mapsto> ''true''))"
    and "Reconcile_uninstall uapi obj old w = (res, flag, w2)"
  shows "res = Done \<and> flag \<and>
    work_off (Reconcile_spec flag papi r) ks v = (map (\<lambda>_. RequeueAfter 300) ks, v) \<and>
    work_off (Reconcile_status flag lib papi eapi wapi sr) ks v = (map (\<lambda>_. RequeueAfter 300) ks, v) \<and>
    work_off (Reconcile_secret flag sapi se) ks v = (map (\<lambda>_. RequeueAfter 300) ks, v) \<and>
    work_off (\<lambda>k w. case Reconcile_gatekeeper flag lib gapi sender k sent w of (res, _, w') \<Rightarrow> (res, w'))
      ks v = (map (\<lambda>_. RequeueAfter 300) ks, v)"
proof -
  have "res = Done \<and> flag"
    using assms by (auto simp: Reconcile_uninstall_def lookup_str_def)
  then show ?thesis
    using spec_pause.paused_queue [of papi r ks v] status_pause.paused_queue [of lib papi eapi wapi sr ks v]
      secret_pause.paused_queue [of sapi se ks v] gatekeeper_pause.paused_queue [of lib gapi sender sent ks v]
    by simp
qed

definition sample_annotated :: "clock_env world" where
  "sample_annotated = sample_clock\<lparr>w_env := (w_env sample_clock)\<lparr>ck_annotations := [AnnotationKey \<mapsto> ''true'']\<rparr>\<rparr>"

definition sample_self :: object_identifier where
  "sample_self = self_id ''n'' ''d''"

theorem uninstall_pauses_witness:
  "work_off (Reconcile_spec (fst (snd (Reconcile_uninstall (clock_api 300) sample_self False sample_annotated)))
     mem_papi sample_spec_reconciler) [nn ''c1'' ''pol''] \<lparr>w_env = sample_pair, w_log = []\<rparr> =
   ([RequeueAfter 300], \<lparr>w_env = sample_pair, w_log = []\<rparr>)"
proof -
  let ?w1 = "sample_annotated\<lparr>w_env := tick 1 (w_env sample_annotated)\<rparr>"
  obtain res flag w2 where run: "Reconcile_uninstall (clock_api 300) sample_self False sample_annotated =
      (res, flag, w2)" by (rule prod_cases3)
  have get: "call (depGet (clock_api 300) (nn (oi_namespace sample_self) (oi_name sample_self))) sample_annotated =
      (Inr \<lparr>dp_annotations = Some [AnnotationKey \<mapsto> ''true'']\<rparr>, ?w1)"
    by (simp add: call_def clock_api_def sample_annotated_def)
  have "dp_annotations \<lparr>dp_annotations = Some [AnnotationKey \<mapsto> ''true'']\<rparr> =
      Some (Map.empty(AnnotationKey \<mapsto> ''true''))" by simp
  from uninstall_pauses [OF get this run, where papi = mem_papi and r = sample_spec_reconciler
      and ks = "[nn ''c1'' ''pol'']" and v = "\<lparr>w_env = sample_pair, w_log = []\<rparr>"]
  have "work_off (Reconcile_spec flag mem_papi sample_spec_reconciler) [nn ''c1'' ''pol'']
      \<lparr>w_env = sample_pair, w_log = []\<rparr> =
    (map (\<lambda>_. RequeueAfter 300) [nn ''c1'' ''pol''], \<lparr>w_env = sample_pair, w_log = []\<rparr>)"
    by blast
  then show ?thesis by (simp only: run fst_conv snd_conv list.map)
qed

end
